(* ===== verification/Bpf_Prelude.thy ===== *)
theory Bpf_Prelude
  imports Main "HOL-Library.Word" "HOL-Library.AList" "HOL-Library.Monad_Syntax"
    "HOL-Library.Sublist"
begin

text \<open>
  Shared vocabulary of the development.  The machine integers of \<^verbatim>\<open>headers/common.h\<close>,
  byte buffers with checked access, C strings inside fixed-size buffers, and the C
  \<^verbatim>\<open>for\<close> loop with its early exits.  A function whose result type is an \<open>option\<close> returns
  \<open>None\<close> exactly when the C code would access memory outside of an object.
\<close>

unbundle bit_operations_syntax

section \<open>Machine integers\<close>

type_synonym u8 = "8 word"
type_synonym u16 = "16 word"
type_synonym u32 = "32 word"
type_synonym u64 = "64 word"
type_synonym s32 = "32 word"
type_synonym s64 = "64 word"

text \<open>Signed quantities keep their bits; a comparison reads them in two's complement.\<close>

lemma unat_ucast_up:
  "LENGTH('a::len) \<le> LENGTH('b::len) \<Longrightarrow> unat (ucast (w :: 'a word) :: 'b word) = unat w"
  by transfer (simp add: min_absorb2)

lemma u64_of_nat: "n < 2 ^ 64 \<Longrightarrow> unat (of_nat n :: u64) = n"
  by (simp add: unat_of_nat)

named_theorems buf_simps \<open>facts about byte buffers and the strings they hold\<close>
named_theorems map_simps \<open>facts about BPF maps\<close>
named_theorems wf_intros \<open>introduction rules for the invariants of the components\<close>

section \<open>Byte buffers\<close>

type_synonym bytes = "u8 list"

definition bytes_of_string :: "string \<Rightarrow> bytes" where
  "bytes_of_string s = map (\<lambda>c. word_of_nat (of_char c)) s"

lemma length_bytes_of_string [simp]: "length (bytes_of_string s) = length s"
  by (simp add: bytes_of_string_def)

definition byte_of_char :: "char \<Rightarrow> u8" where
  "byte_of_char c = word_of_nat (of_char c)"

definition buf_read :: "bytes \<Rightarrow> nat \<Rightarrow> u8 option" where
  "buf_read b i = (if i < length b then Some (b ! i) else None)"

definition buf_write :: "bytes \<Rightarrow> nat \<Rightarrow> u8 \<Rightarrow> bytes option" where
  "buf_write b i v = (if i < length b then Some (b[i := v]) else None)"

text \<open>A helper that fills a destination writes a prefix of it and leaves the rest.\<close>

definition mem_write :: "bytes \<Rightarrow> bytes \<Rightarrow> bytes" where
  "mem_write dst w = w @ drop (length w) dst"

definition c_memcpy :: "bytes \<Rightarrow> bytes \<Rightarrow> nat \<Rightarrow> bytes option" where
  "c_memcpy dst src n =
     (if n \<le> length dst \<and> n \<le> length src then Some (take n src @ drop n dst) else None)"

text \<open>An integer stored in little-endian order, as on both build targets.\<close>

primrec le_word :: "bytes \<Rightarrow> 'a::len word" where
  "le_word [] = 0"
| "le_word (b # bs) = ucast b + push_bit 8 (le_word bs)"

definition to_le :: "nat \<Rightarrow> 'a::len word \<Rightarrow> bytes" where
  "to_le n w = map (\<lambda>i. ucast (drop_bit (8 * i) w)) [0..<n]"

lemma length_to_le [simp]: "length (to_le n w) = n"
  by (simp add: to_le_def)

lemma le_word_or: "le_word (b # bs) = (ucast b OR push_bit 8 (le_word bs) :: 'a::len word)"
  unfolding le_word.simps
  by (rule disjunctive_add_eq_or, rule bit_eqI) (auto simp: bit_simps dest: bit_imp_le_length)

lemma bit_le_word:
  "bit (le_word bs :: 'a::len word) n \<longleftrightarrow>
     n < LENGTH('a) \<and> n div 8 < length bs \<and> bit (bs ! (n div 8)) (n mod 8)"
proof (induction bs arbitrary: n)
  case (Cons b bs)
  show ?case
  proof (cases "n < 8")
    case True
    then show ?thesis
      unfolding le_word_or by (simp add: bit_or_iff bit_push_bit_iff bit_unsigned_iff)
  next
    case False
    then have "n div 8 = Suc ((n - 8) div 8)" "n mod 8 = (n - 8) mod 8"
      by (simp_all add: le_div_geq le_mod_geq)
    moreover have "\<not> bit b n" using False bit_imp_le_length [of b n] by auto
    ultimately show ?thesis
      using False Cons.IH [of "n - 8"] unfolding le_word_or
      by (auto simp: bit_or_iff bit_push_bit_iff bit_unsigned_iff)
  qed
qed simp

lemma le_word_to_le:
  assumes "LENGTH('a) = 8 * k"
  shows "le_word (to_le k w) = (w :: 'a::len word)"
proof (rule bit_word_eqI)
  fix n
  assume "n < LENGTH('a)"
  then have "n div 8 < k" using assms by auto
  with \<open>n < LENGTH('a)\<close> show "bit (le_word (to_le k w) :: 'a word) n = bit w n"
    by (simp add: bit_le_word to_le_def bit_unsigned_iff bit_drop_bit_eq)
qed

lemma c_memcpy_full [simp]:
  "length dst = n \<Longrightarrow> length src = n \<Longrightarrow> c_memcpy dst src n = Some src"
  by (simp add: c_memcpy_def)

lemma buf_read_in [simp]: "i < length b \<Longrightarrow> buf_read b i = Some (b ! i)"
  by (simp add: buf_read_def)

lemma buf_write_in [simp]: "i < length b \<Longrightarrow> buf_write b i v = Some (b[i := v])"
  by (simp add: buf_write_def)

lemma length_mem_write [simp]:
  "length w \<le> length dst \<Longrightarrow> length (mem_write dst w) = length dst"
  by (simp add: mem_write_def)

lemma take_mem_write [simp]: "take (length w) (mem_write dst w) = w"
  by (simp add: mem_write_def)

lemma mem_write_full: "length w = length dst \<Longrightarrow> mem_write dst w = w"
  by (simp add: mem_write_def)

lemma take_eq_mono:
  assumes "take n xs = take n ys" and "m \<le> n"
  shows "take m xs = take m ys"
proof -
  have "take m (take n xs) = take m (take n ys)"
    by (simp only: assms(1))
  with assms(2) show ?thesis by (simp add: min_absorb1)
qed

section \<open>C strings\<close>

text \<open>The string a buffer holds: its bytes before the first NUL.\<close>

definition cstr :: "bytes \<Rightarrow> bytes" where
  "cstr b = takeWhile (\<lambda>c. c \<noteq> 0) b"

definition nul_terminated :: "bytes \<Rightarrow> bool" where
  "nul_terminated b \<longleftrightarrow> 0 \<in> set b"

lemma cstr_no_nul [simp]: "0 \<notin> set (cstr b)"
  by (auto simp: cstr_def dest: set_takeWhileD)

lemma length_cstr_le: "length (cstr b) \<le> length b"
  by (simp add: cstr_def length_takeWhile_le)

lemma length_cstr_less: "nul_terminated b \<Longrightarrow> length (cstr b) < length b"
  unfolding cstr_def nul_terminated_def
  by (metis (mono_tags, lifting) length_takeWhile_le nat_less_le takeWhile_eq_all_conv
      takeWhile_eq_take take_all_iff)

lemma nth_cstr [simp]: "i < length (cstr b) \<Longrightarrow> cstr b ! i = b ! i"
  by (simp add: cstr_def takeWhile_nth)

lemma nth_before_nul: "i < length (cstr b) \<Longrightarrow> b ! i \<noteq> 0"
  by (metis cstr_no_nul nth_cstr nth_mem)

lemma nth_length_cstr: "nul_terminated b \<Longrightarrow> b ! length (cstr b) = 0"
  using nth_length_takeWhile [of "\<lambda>c. c \<noteq> 0" b] length_cstr_less [of b]
  by (simp add: cstr_def)

lemma cstr_take: "cstr b = take (length (cstr b)) b"
  unfolding cstr_def by (rule takeWhile_eq_take)

lemma cstr_append_nul [simp]: "0 \<notin> set s \<Longrightarrow> cstr (s @ 0 # r) = s"
  by (induction s) (auto simp: cstr_def)

lemma nul_terminated_append_nul [simp]: "nul_terminated (s @ 0 # r)"
  by (simp add: nul_terminated_def)

lemma nul_terminated_split:
  assumes "nul_terminated b"
  obtains r where "b = cstr b @ 0 # r"
proof -
  have "b = cstr b @ drop (length (cstr b)) b"
    by (metis append_take_drop_id cstr_take)
  also have "drop (length (cstr b)) b = 0 # drop (Suc (length (cstr b))) b"
    using assms by (simp add: Cons_nth_drop_Suc [symmetric] length_cstr_less nth_length_cstr)
  finally show ?thesis by (rule that)
qed

lemma cstr_reaches:
  assumes "nul_terminated p" and "i \<le> length (cstr p)" and "\<forall>k < n. p ! (i + k) \<noteq> 0"
  shows "i + n \<le> length (cstr p)"
proof (rule ccontr)
  assume "\<not> i + n \<le> length (cstr p)"
  then have "length (cstr p) - i < n" and "i + (length (cstr p) - i) = length (cstr p)"
    using assms(2) by auto
  then show False
    using assms(1,3) nth_length_cstr by metis
qed

lemma char_nonzero: "byte_of_char CHR ''.'' \<noteq> 0" "byte_of_char CHR ''s'' \<noteq> 0" "byte_of_char CHR ''o'' \<noteq> 0"
  "byte_of_char CHR ''/'' \<noteq> 0"
  by (simp_all add: byte_of_char_def)

lemma cstr_cut:
  assumes "off < length dst" and "0 \<notin> set (take off dst)"
  shows "cstr (dst[off := 0]) = take off dst" and "nul_terminated (dst[off := 0])"
  using assms by (simp_all add: upd_conv_take_nth_drop)

lemma take_update_snoc:
  "off < length dst \<Longrightarrow> take (Suc off) (dst[off := c]) = take off dst @ [c]"
  by (simp add: take_Suc_conv_app_nth)

lemma take_Suc_cstr:
  "i < length (cstr b) \<Longrightarrow> take (Suc i) (cstr b) = take i (cstr b) @ [b ! i]"
  by (simp add: take_Suc_conv_app_nth)

section \<open>The C for loop\<close>

text \<open>
  \<^verbatim>\<open>for (int i = 0; i < n; i++) body\<close>, and \<^verbatim>\<open>bpf_repeat(n) body\<close>: the body sees the index
  and the mutable locals and falls through (or executes \<^verbatim>\<open>continue\<close>), leaves the loop by
  \<^verbatim>\<open>break\<close>, or returns from the enclosing function.
\<close>

datatype ('a, 'r) flow = Next 'a | Break 'a | Return 'r

primrec c_for_from ::
  "nat \<Rightarrow> nat \<Rightarrow> (nat \<Rightarrow> 'a \<Rightarrow> ('a, 'r) flow option) \<Rightarrow> 'a \<Rightarrow> ('a + 'r) option" where
  "c_for_from 0 i body st = Some (Inl st)"
| "c_for_from (Suc n) i body st =
     (case body i st of
        None \<Rightarrow> None
      | Some (Next st') \<Rightarrow> c_for_from n (Suc i) body st'
      | Some (Break st') \<Rightarrow> Some (Inl st')
      | Some (Return r) \<Rightarrow> Some (Inr r))"

definition c_for :: "nat \<Rightarrow> (nat \<Rightarrow> 'a \<Rightarrow> ('a, 'r) flow option) \<Rightarrow> 'a \<Rightarrow> ('a + 'r) option" where
  "c_for n body st = c_for_from n 0 body st"

text \<open>
  The loop rule for total correctness: an invariant that holds on entry and is kept by every
  fall-through gives the postcondition on each of the three ways out, and no access faults.
\<close>

lemma c_for_from_rule:
  assumes "I i st"
    and "\<And>j st. I j st \<Longrightarrow> i \<le> j \<Longrightarrow> j < i + n \<Longrightarrow>
      (case body j st of
         None \<Rightarrow> False
       | Some (Next st') \<Rightarrow> I (Suc j) st'
       | Some (Break st') \<Rightarrow> Q (Inl st')
       | Some (Return r) \<Rightarrow> Q (Inr r))"
    and "\<And>st. I (i + n) st \<Longrightarrow> Q (Inl st)"
  shows "\<exists>res. c_for_from n i body st = Some res \<and> Q res"
  using assms
proof (induction n arbitrary: i st)
  case 0
  then show ?case by simp
next
  case (Suc n)
  note step = Suc.prems(2) [OF Suc.prems(1)]
  have inv: "I (Suc i) st'" if "body i st = Some (Next st')" for st'
    using step that by simp
  have rest: "\<exists>res. c_for_from n (Suc i) body st' = Some res \<and> Q res"
    if "body i st = Some (Next st')" for st'
  proof (rule Suc.IH [OF inv [OF that]])
    show "case body j st of None \<Rightarrow> False | Some (Next st') \<Rightarrow> I (Suc j) st'
       | Some (Break st') \<Rightarrow> Q (Inl st') | Some (Return r) \<Rightarrow> Q (Inr r)"
      if "I j st" "Suc i \<le> j" "j < Suc i + n" for j st
      using Suc.prems(2) [of j st] that by simp
    show "Q (Inl st)" if "I (Suc i + n) st" for st
      using Suc.prems(3) that by simp
  qed
  from step rest show ?case
    by (auto split: option.splits flow.splits)
qed

lemmas c_for_rule = c_for_from_rule [where i = 0, folded c_for_def, simplified]

end
