(* ===== verification/Bpf_Maps.thy ===== *)
theory Bpf_Maps
  imports Bpf_Prelude
begin

text \<open>
  The kernel objects the probes keep their state in, at the level of their documented
  behaviour (\<^verbatim>\<open>headers/bpf_helper_defs.h\<close>): hash maps with a capacity, LRU hash maps whose
  eviction is chosen by the kernel, per-CPU arrays and ring buffers.  The laws a probe relies
  on are the locale \<open>bpf_map\<close>; both hash flavours are interpretations of it.
\<close>

section \<open>Hash maps\<close>

type_synonym ('k, 'v) bpf_hash = "('k \<times> 'v) list"

abbreviation bpf_map_lookup_elem :: "('k, 'v) bpf_hash \<Rightarrow> 'k \<Rightarrow> 'v option" where
  "bpf_map_lookup_elem \<equiv> map_of"

abbreviation bpf_map_delete_elem :: "'k \<Rightarrow> ('k, 'v) bpf_hash \<Rightarrow> ('k, 'v) bpf_hash" where
  "bpf_map_delete_elem \<equiv> AList.delete"

text \<open>
  \<^verbatim>\<open>bpf_map_update_elem\<close> with \<^verbatim>\<open>BPF_ANY\<close>.  A \<^verbatim>\<open>BPF_MAP_TYPE_HASH\<close> map refuses a new key when
  it holds \<^verbatim>\<open>max_entries\<close> elements; every caller ignores the error.  A
  \<^verbatim>\<open>BPF_MAP_TYPE_LRU_HASH\<close> map first drops entries the kernel picks: \<open>ev\<close> is that choice.
\<close>

definition hash_update :: "nat \<Rightarrow> 'k \<Rightarrow> 'v \<Rightarrow> ('k, 'v) bpf_hash \<Rightarrow> ('k, 'v) bpf_hash" where
  "hash_update max_entries k v m =
     (if map_of m k \<noteq> None \<or> length m < max_entries then AList.update k v m else m)"

definition lru_update ::
  "nat \<Rightarrow> ('k \<Rightarrow> bool) \<Rightarrow> 'k \<Rightarrow> 'v \<Rightarrow> ('k, 'v) bpf_hash \<Rightarrow> ('k, 'v) bpf_hash" where
  "lru_update max_entries ev k v m =
     hash_update max_entries k v
       (if map_of m k \<noteq> None then m else filter (\<lambda>(k', _). \<not> ev k') m)"

text \<open>A store through the pointer that a successful lookup returned.\<close>

definition map_store :: "'k \<Rightarrow> 'v \<Rightarrow> ('k, 'v) bpf_hash \<Rightarrow> ('k, 'v) bpf_hash" where
  "map_store k v m = AList.update k v m"

definition hash_ok :: "nat \<Rightarrow> ('k, 'v) bpf_hash \<Rightarrow> bool" where
  "hash_ok max_entries m \<longleftrightarrow> distinct (map fst m) \<and> length m \<le> max_entries"

section \<open>The contract of a BPF map\<close>

locale bpf_map =
  fixes lookup :: "'m \<Rightarrow> 'k \<Rightarrow> 'v option"
    and update :: "'k \<Rightarrow> 'v \<Rightarrow> 'm \<Rightarrow> 'm"
    and delete :: "'k \<Rightarrow> 'm \<Rightarrow> 'm"
    and invar :: "'m \<Rightarrow> bool"
  assumes update_hit: "invar m \<Longrightarrow> lookup m k = Some v' \<Longrightarrow> lookup (update k v m) k = Some v"
    and update_new: "invar m \<Longrightarrow> lookup (update k v m) k = Some v \<or> lookup (update k v m) k = None"
    and update_other: "invar m \<Longrightarrow> k' \<noteq> k \<Longrightarrow>
      lookup (update k v m) k' = lookup m k' \<or> lookup (update k v m) k' = None"
    and delete_map: "invar m \<Longrightarrow> lookup (delete k m) = (lookup m)(k := None)"
    and invar_update: "invar m \<Longrightarrow> invar (update k v m)"
    and invar_delete: "invar m \<Longrightarrow> invar (delete k m)"
begin

text \<open>A property of all stored pairs survives updates with a good pair, and deletions.\<close>

definition all_entries :: "('k \<Rightarrow> 'v \<Rightarrow> bool) \<Rightarrow> 'm \<Rightarrow> bool" where
  "all_entries P m \<longleftrightarrow> (\<forall>k v. lookup m k = Some v \<longrightarrow> P k v)"

lemma all_entries_update:
  assumes "invar m" and "all_entries P m" and "P k v"
  shows "all_entries P (update k v m)"
  unfolding all_entries_def
proof (intro allI impI)
  fix k' w
  assume *: "lookup (update k v m) k' = Some w"
  show "P k' w"
  proof (cases "k' = k")
    case True
    with * update_new [OF assms(1), of k v] assms(3) show ?thesis by auto
  next
    case False
    with * update_other [OF assms(1) False, of v] assms(2) show ?thesis
      by (auto simp: all_entries_def)
  qed
qed

lemma all_entries_delete:
  assumes "invar m" and "all_entries P m"
  shows "all_entries P (delete k m)"
  using assms by (simp add: all_entries_def delete_map)

lemma delete_gone: "invar m \<Longrightarrow> lookup (delete k m) k = None"
  by (simp add: delete_map)

lemma delete_keeps: "invar m \<Longrightarrow> k' \<noteq> k \<Longrightarrow> lookup (delete k m) k' = lookup m k'"
  by (simp add: delete_map)

text \<open>Whatever a lookup finds after an update was either just stored or there before.\<close>

lemma update_origin:
  assumes "invar m" and "lookup (update k v m) k' = Some w"
  shows "k' = k \<and> w = v \<or> k' \<noteq> k \<and> lookup m k' = Some w"
  using assms update_new [of m k v] update_other [of m k' k v] by (cases "k' = k") auto

end

text \<open>A plain hash map never loses an entry other than by deletion.\<close>

locale bpf_exact_map = bpf_map +
  assumes update_frame: "invar m \<Longrightarrow> k' \<noteq> k \<Longrightarrow> lookup (update k v m) k' = lookup m k'"
begin

lemma update_delete_frame:
  "invar m \<Longrightarrow> k' \<noteq> k \<Longrightarrow> lookup (delete k (update k v m)) k' = lookup m k'"
  by (simp add: delete_map invar_update update_frame)

end

section \<open>Both hash flavours keep the contract\<close>

lemma map_of_hash_update:
  "map_of (hash_update n k v m) =
     (if map_of m k \<noteq> None \<or> length m < n then (map_of m)(k \<mapsto> v) else map_of m)"
  by (simp add: hash_update_def update_conv')

lemma length_AList_update:
  "length (AList.update k v m) = (if map_of m k = None then Suc (length m) else length m)"
  by (induction m) auto

lemma hash_ok_update [wf_intros]: "hash_ok n m \<Longrightarrow> hash_ok n (hash_update n k v m)"
  by (auto simp: hash_ok_def hash_update_def length_AList_update distinct_update)

lemma hash_ok_delete [wf_intros]: "hash_ok n m \<Longrightarrow> hash_ok n (AList.delete k m)"
  by (auto simp: hash_ok_def AList.delete_eq distinct_map_filter
      intro: order_trans [OF length_filter_le])

lemma hash_ok_filter [wf_intros]: "hash_ok n m \<Longrightarrow> hash_ok n (filter P m)"
  by (auto simp: hash_ok_def distinct_map_filter intro: order_trans [OF length_filter_le])

lemma hash_ok_lru [wf_intros]: "hash_ok n m \<Longrightarrow> hash_ok n (lru_update n ev k v m)"
  by (simp add: lru_update_def wf_intros)

lemma hash_ok_store [wf_intros]:
  "hash_ok n m \<Longrightarrow> map_of m k \<noteq> None \<Longrightarrow> hash_ok n (map_store k v m)"
  by (auto simp: map_store_def hash_ok_def length_AList_update distinct_update)

lemma hash_ok_empty [wf_intros]: "hash_ok n []"
  by (simp add: hash_ok_def)

lemma map_of_filter_key:
  "distinct (map fst m) \<Longrightarrow>
     map_of (filter (\<lambda>(k, _). P k) m) k = (if P k then map_of m k else None)"
  by (induction m) (auto simp: map_of_eq_None_iff [symmetric])

lemma map_of_lru_update:
  assumes "hash_ok n m"
  shows "map_of (lru_update n ev k v m) k' =
    (if k' = k
     then (if map_of m k \<noteq> None \<or> length (filter (\<lambda>(k', _). \<not> ev k') m) < n
           then Some v else None)
     else if map_of m k = None \<and> ev k' then None else map_of m k')"
  using assms
  by (auto simp: lru_update_def map_of_hash_update hash_ok_def map_of_filter_key)

lemma lru_room:
  "hash_ok n m \<Longrightarrow> length m < n \<Longrightarrow> map_of (lru_update n ev k v m) k = Some v"
  by (simp add: map_of_lru_update)
    (metis (no_types, lifting) le_less_trans length_filter_le)

lemma map_of_store [simp]: "map_of (map_store k v m) = (map_of m)(k \<mapsto> v)"
  by (simp add: map_store_def update_conv')

interpretation hash: bpf_exact_map map_of "hash_update n" AList.delete "hash_ok n" for n
  by unfold_locales
    (auto simp: map_of_hash_update delete_conv' hash_ok_update hash_ok_delete)

interpretation lru: bpf_map map_of "lru_update n ev" AList.delete "hash_ok n" for n ev
  by unfold_locales
    (auto simp: map_of_lru_update delete_conv' hash_ok_lru hash_ok_delete)

lemmas map_entry_rules =
  hash.all_entries_update hash.all_entries_delete lru.all_entries_update lru.all_entries_delete

section \<open>Per-CPU arrays\<close>

text \<open>Every CPU has its own copy of the array; an index in range is always present.\<close>

definition percpu_lookup :: "(nat \<Rightarrow> 'v list) \<Rightarrow> nat \<Rightarrow> u32 \<Rightarrow> 'v option" where
  "percpu_lookup a cpu idx =
     (if unat idx < length (a cpu) then Some (a cpu ! unat idx) else None)"

definition percpu_store :: "nat \<Rightarrow> u32 \<Rightarrow> 'v \<Rightarrow> (nat \<Rightarrow> 'v list) \<Rightarrow> (nat \<Rightarrow> 'v list)" where
  "percpu_store cpu idx v a = a(cpu := (a cpu)[unat idx := v])"

section \<open>Ring buffers\<close>

text \<open>
  A ring buffer is the sequence of records handed to userspace and the number of
  reservations that are neither submitted nor discarded yet.
\<close>

record 'e ringbuf =
  rb_pending :: int
  rb_log :: "'e list"

definition ringbuf_reserved :: "'e ringbuf \<Rightarrow> 'e ringbuf" where
  "ringbuf_reserved rb = rb\<lparr>rb_pending := rb_pending rb + 1\<rparr>"

definition bpf_ringbuf_submit :: "'e \<Rightarrow> 'e ringbuf \<Rightarrow> 'e ringbuf" where
  "bpf_ringbuf_submit e rb = rb\<lparr>rb_pending := rb_pending rb - 1, rb_log := rb_log rb @ [e]\<rparr>"

definition bpf_ringbuf_discard :: "'e ringbuf \<Rightarrow> 'e ringbuf" where
  "bpf_ringbuf_discard rb = rb\<lparr>rb_pending := rb_pending rb - 1\<rparr>"

lemma ringbuf_emit [simp]:
  "bpf_ringbuf_submit e (ringbuf_reserved rb) = rb\<lparr>rb_log := rb_log rb @ [e]\<rparr>"
  by (simp add: bpf_ringbuf_submit_def ringbuf_reserved_def)

lemma ringbuf_cancel [simp]: "bpf_ringbuf_discard (ringbuf_reserved rb) = rb"
  by (simp add: bpf_ringbuf_discard_def ringbuf_reserved_def)

end
