(* ===== verification/Bpf_Helpers.thy ===== *)
theory Bpf_Helpers
  imports Bpf_Maps
begin

text \<open>
  What one run of a BPF program sees of the kernel.  The helper functions are kernel code:
  they are parameters of the model, the fields of the environment record that every program
  takes, named as the helpers are.  Their documented behaviour (the comments of
  \<^verbatim>\<open>headers/bpf_helper_defs.h\<close>) is the locale \<open>probe_memory\<close>, and \<open>env_ok\<close> is the hypothesis
  that an environment keeps it.  A program runs to completion against one environment, which
  fixes the current task, the clock reading and the contents of memory for that run.
\<close>

section \<open>The environment of a program run\<close>

text \<open>
  A memory-reading helper gives its return value and the bytes it wrote at the start of the
  destination; it takes the destination size and the source address.
\<close>

type_synonym probe = "nat \<Rightarrow> u64 \<Rightarrow> int \<times> bytes"

record ('e, 'k) bpf_env =
  bpf_get_current_pid_tgid :: u64
  bpf_get_current_uid_gid :: u64
  bpf_get_current_cgroup_id :: u64
  bpf_ktime_get_ns :: u64
  bpf_get_current_comm :: "nat \<Rightarrow> bytes"
  bpf_get_smp_processor_id :: nat
  bpf_probe_read_user :: probe
  bpf_probe_read_user_str :: probe
  bpf_probe_read :: probe
  bpf_probe_read_str :: probe
  bpf_ringbuf_reserve :: "nat \<Rightarrow> 'e option"
  lru_evict :: "'k \<Rightarrow> bool"

text \<open>
  The \<open>n\<close>-th reservation of a run fails (\<open>None\<close>) or yields a record with whatever the ring
  held there before.  \<open>lru_evict\<close> is the set of keys an LRU map drops to make room.
\<close>

definition tgid_of :: "u64 \<Rightarrow> u32" where
  "tgid_of pid_tgid = ucast (drop_bit 32 pid_tgid)"

abbreviation current_tgid :: "('e, 'k, 'a) bpf_env_scheme \<Rightarrow> u32" where
  "current_tgid env \<equiv> tgid_of (bpf_get_current_pid_tgid env)"

section \<open>What the memory helpers promise\<close>

text \<open>
  \<open>byte\<close> is the memory the helpers read.  A read never writes more than the size it was
  given; it returns 0, having copied all the bytes, or a negative error.  A string read that succeeds
  returns the number of bytes written including the final NUL, at most the size.
\<close>

locale probe_memory =
  fixes read :: probe
    and read_str :: probe
    and byte :: "u64 \<Rightarrow> u8"
  assumes read_size: "length (snd (read n a)) \<le> n"
    and read_rc: "fst (read n a) \<le> 0"
    and read_done: "fst (read n a) = 0 \<Longrightarrow>
      snd (read n a) = map (\<lambda>i. byte (a + of_nat i)) [0..<n]"
    and str_size: "length (snd (read_str n a)) \<le> n"
    and str_done: "0 < fst (read_str n a) \<Longrightarrow>
      \<exists>k. fst (read_str n a) = int (Suc k) \<and> k < n \<and>
        snd (read_str n a) = map (\<lambda>i. byte (a + of_nat i)) [0..<k] @ [0] \<and>
        (\<forall>i < k. byte (a + of_nat i) \<noteq> 0)"
begin

lemma length_read_done: "fst (read n a) = 0 \<Longrightarrow> length (snd (read n a)) = n"
  by (simp add: read_done)

text \<open>After a successful string read the destination holds that string.\<close>

lemma str_written:
  assumes "0 < fst (read_str n a)" and "length dst = n"
  defines "dst' \<equiv> mem_write dst (snd (read_str n a))"
  shows "length dst' = n" and "nul_terminated dst'"
    and "cstr dst' = butlast (snd (read_str n a))"
    and "int (length (cstr dst')) = fst (read_str n a) - 1"
proof -
  obtain k where k: "fst (read_str n a) = int (Suc k)" "k < n"
    "snd (read_str n a) = map (\<lambda>i. byte (a + of_nat i)) [0..<k] @ [0]"
    "\<forall>i < k. byte (a + of_nat i) \<noteq> 0"
    using str_done [OF assms(1)] by blast
  let ?s = "map (\<lambda>i. byte (a + of_nat i)) [0..<k]"
  have dst': "dst' = ?s @ 0 # drop (Suc k) dst"
    unfolding dst'_def mem_write_def k(3) by simp
  have s: "0 \<notin> set ?s"
    using k(4) by (auto dest: sym)
  show "length dst' = n"
    using k(2) assms(2) by (simp add: dst')
  show "nul_terminated dst'"
    by (simp add: dst')
  show "cstr dst' = butlast (snd (read_str n a))"
    unfolding dst' k(3) by (simp only: cstr_append_nul [OF s] butlast_snoc)
  show "int (length (cstr dst')) = fst (read_str n a) - 1"
    unfolding dst' k(1) by (simp only: cstr_append_nul [OF s]) simp
qed

text \<open>Two adjacent reads that both succeed give the bytes of the joined range.\<close>

lemma read_adjacent:
  assumes "fst (read n a) = 0" and "fst (read m (a + of_nat n)) = 0"
  shows "snd (read n a) @ snd (read m (a + of_nat n)) =
    map (\<lambda>i. byte (a + of_nat i)) [0..<n + m]"
proof (rule nth_equalityI)
  show "length (snd (read n a) @ snd (read m (a + of_nat n))) =
      length (map (\<lambda>i. byte (a + of_nat i)) [0..<n + m])"
    using assms by (simp add: read_done)
  have eq: "a + of_nat n + of_nat (i - n) = a + of_nat i" if "n \<le> i" for i
    using that by (metis add.assoc le_add_diff_inverse of_nat_add)
  show "(snd (read n a) @ snd (read m (a + of_nat n))) ! i =
      map (\<lambda>i. byte (a + of_nat i)) [0..<n + m] ! i"
    if "i < length (snd (read n a) @ snd (read m (a + of_nat n)))" for i
  proof (cases "i < n")
    case False
    with that assms have "i - n < m" "i < n + m" by (simp_all add: read_done)
    with False assms eq [of i] show ?thesis
      by (simp add: read_done nth_append add.assoc del: of_nat_diff)
  qed (use assms in \<open>simp add: read_done nth_append\<close>)
qed

end

definition env_ok :: "(u64 \<Rightarrow> u8) \<Rightarrow> ('e, 'k, 'a) bpf_env_scheme \<Rightarrow> bool" where
  "env_ok byte env \<longleftrightarrow>
     probe_memory (bpf_probe_read_user env) (bpf_probe_read_user_str env) byte \<and>
     probe_memory (bpf_probe_read env) (bpf_probe_read_str env) byte \<and>
     (\<forall>n. length (bpf_get_current_comm env n) = n)"

lemma env_okD [dest]:
  assumes "env_ok byte env"
  shows "probe_memory (bpf_probe_read_user env) (bpf_probe_read_user_str env) byte"
    and "probe_memory (bpf_probe_read env) (bpf_probe_read_str env) byte"
    and "\<And>n. length (bpf_get_current_comm env n) = n"
  using assms by (simp_all add: env_ok_def)

section \<open>Helpers over an explicit memory\<close>

text \<open>
  For any memory and any set of unreadable addresses there are helpers with the documented
  behaviour; they copy byte by byte and fail with \<^verbatim>\<open>-EFAULT\<close> when they meet an unreadable
  address.  This is the instance the concrete evaluations use.
\<close>

definition mem_read :: "(u64 \<Rightarrow> u8) \<Rightarrow> (u64 \<Rightarrow> bool) \<Rightarrow> probe" where
  "mem_read byte bad n a =
     (if list_ex (\<lambda>i. bad (a + of_nat i)) [0..<n] then (-14, replicate n 0)
      else (0, map (\<lambda>i. byte (a + of_nat i)) [0..<n]))"

fun mem_str :: "(u64 \<Rightarrow> u8) \<Rightarrow> (u64 \<Rightarrow> bool) \<Rightarrow> nat \<Rightarrow> u64 \<Rightarrow> bytes option" where
  "mem_str byte bad 0 a = None"
| "mem_str byte bad (Suc 0) a = Some []"
| "mem_str byte bad (Suc (Suc n)) a =
     (if bad a then None
      else if byte a = 0 then Some []
      else map_option (\<lambda>s. byte a # s) (mem_str byte bad (Suc n) (a + 1)))"

definition mem_read_str :: "(u64 \<Rightarrow> u8) \<Rightarrow> (u64 \<Rightarrow> bool) \<Rightarrow> probe" where
  "mem_read_str byte bad n a =
     (case mem_str byte bad n a of
        None \<Rightarrow> (-14, replicate n 0)
      | Some s \<Rightarrow> (int (length s) + 1, s @ [0]))"

lemma mem_str_Some:
  "mem_str byte bad n a = Some s \<Longrightarrow>
     length s < n \<and> s = map (\<lambda>i. byte (a + of_nat i)) [0..<length s] \<and>
     (\<forall>i < length s. byte (a + of_nat i) \<noteq> 0)"
proof (induction byte bad n a arbitrary: s rule: mem_str.induct)
  case (3 byte bad n a)
  show ?case
  proof (cases "byte a = 0")
    case True
    with 3 show ?thesis by (auto split: if_splits)
  next
    case False
    with 3 obtain t where t: "mem_str byte bad (Suc n) (a + 1) = Some t" "s = byte a # t"
      "\<not> bad a"
      by (auto split: if_splits)
    note IH = "3.IH" [OF t(3) False t(1)]
    have shift: "a + 1 + of_nat i = a + of_nat (Suc i)" for i
      by simp
    have "t = map (\<lambda>i. byte (a + of_nat (Suc i))) [0..<length t]"
      using IH by (simp only: shift)
    moreover have "map (\<lambda>i. byte (a + of_nat i)) [0..<Suc (length t)] =
        byte a # map (\<lambda>i. byte (a + of_nat (Suc i))) [0..<length t]"
      by (simp only: map_upt_Suc) simp
    ultimately have "s = map (\<lambda>i. byte (a + of_nat i)) [0..<length s]"
      by (simp only: t(2) list.size add_Suc_right add_0_right)
    moreover have "byte (a + of_nat i) \<noteq> 0" if "i < length s" for i
    proof (cases i)
      case (Suc j)
      with that t(2) have "j < length t" by simp
      with IH show ?thesis by (simp only: Suc shift [symmetric]) simp
    qed (use False in simp)
    ultimately show ?thesis using IH t(2) by simp
  qed
qed auto

interpretation mem: probe_memory "mem_read byte bad" "mem_read_str byte bad" byte for byte bad
proof unfold_locales
  fix n a
  show "length (snd (mem_read byte bad n a)) \<le> n" and "fst (mem_read byte bad n a) \<le> 0"
    by (simp_all add: mem_read_def)
  show "snd (mem_read byte bad n a) = map (\<lambda>i. byte (a + of_nat i)) [0..<n]"
    if "fst (mem_read byte bad n a) = 0"
    using that by (simp add: mem_read_def split: if_splits)
  show "length (snd (mem_read_str byte bad n a)) \<le> n"
    using mem_str_Some [of byte bad n a]
    by (auto simp: mem_read_str_def Suc_le_eq split: option.splits)
  show "\<exists>k. fst (mem_read_str byte bad n a) = int (Suc k) \<and> k < n \<and>
      snd (mem_read_str byte bad n a) = map (\<lambda>i. byte (a + of_nat i)) [0..<k] @ [0] \<and>
      (\<forall>i < k. byte (a + of_nat i) \<noteq> 0)"
    if *: "0 < fst (mem_read_str byte bad n a)"
  proof -
    obtain s where s: "mem_str byte bad n a = Some s"
      using * by (auto simp: mem_read_str_def split: option.splits)
    from mem_str_Some [OF s] s show ?thesis
      by (intro exI [of _ "length s"]) (auto simp: mem_read_str_def)
  qed
qed

text \<open>An environment over a given memory in which every address can be read.\<close>

definition memory_env :: "u64 \<Rightarrow> (u64 \<Rightarrow> u8) \<Rightarrow> (nat \<Rightarrow> 'e option) \<Rightarrow> ('e, 'k) bpf_env" where
  "memory_env pid_tgid byte res =
     \<lparr>bpf_get_current_pid_tgid = pid_tgid, bpf_get_current_uid_gid = 0, bpf_get_current_cgroup_id = 1,
      bpf_ktime_get_ns = 1000, bpf_get_current_comm = (\<lambda>n. replicate n 0),
      bpf_get_smp_processor_id = 0,
      bpf_probe_read_user = mem_read byte (\<lambda>_. False),
      bpf_probe_read_user_str = mem_read_str byte (\<lambda>_. False),
      bpf_probe_read = mem_read byte (\<lambda>_. False),
      bpf_probe_read_str = mem_read_str byte (\<lambda>_. False),
      bpf_ringbuf_reserve = res, lru_evict = (\<lambda>_. False)\<rparr>"

lemma memory_env_ok: "env_ok byte (memory_env pid_tgid byte res)"
  by (simp add: env_ok_def memory_env_def mem.probe_memory_axioms)

text \<open>A memory that holds some bytes at an address and zeros elsewhere.\<close>

definition memory_at :: "u64 \<Rightarrow> bytes \<Rightarrow> u64 \<Rightarrow> u8" where
  "memory_at a b x = (if unat (x - a) < length b then b ! unat (x - a) else 0)"

lemma memory_at_offset [simp]:
  assumes "i < length b" and "length b < 2 ^ 64"
  shows "memory_at a b (a + of_nat i) = b ! i"
proof -
  have "unat (a + of_nat i - a) = i"
    using assms by (simp add: unat_of_nat)
  with assms(1) show ?thesis by (simp only: memory_at_def if_True)
qed

lemma mem_str_finds:
  assumes "\<forall>i < length s. byte (a + of_nat i) = s ! i" and "byte (a + of_nat (length s)) = 0"
    and "0 \<notin> set s" and "length s < n"
  shows "mem_str byte (\<lambda>_. False) n a = Some s"
  using assms
proof (induction s arbitrary: n a)
  case Nil
  then show ?case by (cases "(byte, \<lambda>_ :: u64. False, n, a)" rule: mem_str.cases) auto
next
  case (Cons c s)
  obtain m where m: "n = Suc (Suc m)"
    using Cons.prems(4) by (cases n; cases "n - 1") auto
  have "byte a = c" using Cons.prems(1) by force
  moreover have "mem_str byte (\<lambda>_. False) (Suc m) (a + 1) = Some s"
  proof (rule Cons.IH)
    show "\<forall>i < length s. byte (a + 1 + of_nat i) = s ! i"
    proof (intro allI impI)
      fix i
      assume "i < length s"
      then show "byte (a + 1 + of_nat i) = s ! i"
        using Cons.prems(1) [rule_format, of "Suc i"] by (simp add: add.assoc)
    qed
  qed (use Cons.prems m in \<open>simp_all add: add.assoc\<close>)
  ultimately show ?case using Cons.prems(3) m by simp
qed

lemma mem_read_str_at:
  assumes "0 \<notin> set s" and "length s < n" and "length s < 2 ^ 63"
  shows "mem_read_str (memory_at a (s @ [0])) (\<lambda>_. False) n a = (int (length s) + 1, s @ [0])"
proof -
  have "mem_str (memory_at a (s @ [0])) (\<lambda>_. False) n a = Some s"
  proof (rule mem_str_finds [OF _ _ assms(1,2)])
    show "\<forall>i < length s. memory_at a (s @ [0]) (a + of_nat i) = s ! i"
    proof (intro allI impI)
      fix i
      assume "i < length s"
      with assms(3) memory_at_offset [of i "s @ [0]" a] show "memory_at a (s @ [0]) (a + of_nat i) = s ! i"
        by (simp add: nth_append)
    qed
    show "memory_at a (s @ [0]) (a + of_nat (length s)) = 0"
      using assms(3) memory_at_offset [of "length s" "s @ [0]" a] by (simp add: nth_append)
  qed
  then show ?thesis by (simp add: mem_read_str_def)
qed

lemma mem_read_at:
  assumes "off + n \<le> length b" and "length b < 2 ^ 64"
  shows "mem_read (memory_at a b) (\<lambda>_. False) n (a + of_nat off) = (0, take n (drop off b))"
proof -
  have "map (\<lambda>i. memory_at a b (a + of_nat off + of_nat i)) [0..<n] = take n (drop off b)"
  proof (rule nth_equalityI)
    fix i
    assume "i < length (map (\<lambda>i. memory_at a b (a + of_nat off + of_nat i)) [0..<n])"
    with assms memory_at_offset [of "off + i" b a]
    show "map (\<lambda>i. memory_at a b (a + of_nat off + of_nat i)) [0..<n] ! i = take n (drop off b) ! i"
      by (simp add: add.assoc)
  qed (use assms in simp)
  then show ?thesis by (simp add: mem_read_def list_ex_iff)
qed

text \<open>A buffer that a helper can read, in whole and in every part.\<close>

definition holds :: "probe \<Rightarrow> u64 \<Rightarrow> bytes \<Rightarrow> bool" where
  "holds rd a b \<longleftrightarrow> (\<forall>off n. off + n \<le> length b \<longrightarrow>
     rd n (a + of_nat off) = (0, take n (drop off b)))"

lemma holds_append:
  assumes "holds rd a (b @ c)"
  shows "holds rd (a + of_nat (length b)) c"
  unfolding holds_def
proof (intro allI impI)
  fix off n
  assume "off + n \<le> length c"
  then have "rd n (a + of_nat (length b + off)) =
      (0, take n (drop (length b + off) (b @ c)))"
    using assms [unfolded holds_def, rule_format, of "length b + off" n] by simp
  then show "rd n (a + of_nat (length b) + of_nat off) = (0, take n (drop off c))"
    by (simp add: add.assoc)
qed

lemma holds_read:
  "holds rd a b \<Longrightarrow> n \<le> length b \<Longrightarrow> rd n a = (0, take n b)"
  using holds_def [of rd a b, THEN iffD1, rule_format, of 0 n] by simp

lemma holds_take: "holds rd a b \<Longrightarrow> holds rd a (take k b)"
  by (auto simp: holds_def drop_take min_def)

lemma holds_memory:
  "length b < 2 ^ 64 \<Longrightarrow> holds (mem_read (memory_at a b) (\<lambda>_. False)) a b"
  by (simp add: holds_def mem_read_at)

section \<open>Calls in flight\<close>

text \<open>
  Most probes pair an entry program with an exit program: the entry stores the arguments of
  the call under the thread's id, the exit consumes them.  The contract that makes the pairing
  sound when the programs of many threads interleave: a step in one thread leaves the
  arguments of the others alone or, in an LRU map, drops them, and an exit clears its own.
  The TCP probe keys its table by socket, the Postgres probe by connection.
\<close>

locale lossy_tracker =
  fixes call :: "'s \<Rightarrow> 'p \<Rightarrow> 'c option"
    and step :: "'p \<Rightarrow> 's \<Rightarrow> 's \<Rightarrow> bool"
    and leave :: "'p \<Rightarrow> 's \<Rightarrow> 's \<Rightarrow> bool"
    and invar :: "'s \<Rightarrow> bool"
  assumes step_invar: "invar s \<Longrightarrow> step p s s' \<Longrightarrow> invar s'"
    and step_lossy: "invar s \<Longrightarrow> step p s s' \<Longrightarrow> q \<noteq> p \<Longrightarrow>
      call s' q = call s q \<or> call s' q = None"
    and leave_step: "leave p s s' \<Longrightarrow> step p s s'"
    and leave_clears: "invar s \<Longrightarrow> leave p s s' \<Longrightarrow> call s' p = None"
begin

text \<open>Any number of steps under keys other than \<open>p\<close>.\<close>

inductive others :: "'p \<Rightarrow> 's \<Rightarrow> 's \<Rightarrow> bool" for p where
  others_refl: "others p s s"
| others_step: "others p s t \<Longrightarrow> step q t u \<Longrightarrow> q \<noteq> p \<Longrightarrow> others p s u"

lemma others_lossy:
  assumes "others p s t" and "invar s"
  shows "invar t \<and> (call t p = call s p \<or> call t p = None)"
  using assms
proof (induction rule: others.induct)
  case (others_step s t q u)
  then show ?case
    using step_invar [of t q u] step_lossy [of t q u p] by auto
qed simp

lemma no_stale_call:
  assumes "invar s" and "leave p s t" and "others p t u"
  shows "call u p = None"
  using assms step_invar [OF assms(1) leave_step [OF assms(2)]] leave_clears [OF assms(1,2)]
    others_lossy [OF assms(3)]
  by auto

end

text \<open>Where the table never evicts, the arguments survive exactly.\<close>

locale call_tracker = lossy_tracker +
  assumes step_frame: "invar s \<Longrightarrow> step p s s' \<Longrightarrow> q \<noteq> p \<Longrightarrow> call s' q = call s q"
begin

lemma others_keep:
  assumes "others p s t" and "invar s"
  shows "invar t \<and> call t p = call s p"
  using assms
proof (induction rule: others.induct)
  case (others_step s t q u)
  then show ?case
    using step_invar [of t q u] step_frame [of t q u p] by auto
qed simp

end

section \<open>Runs\<close>

text \<open>A sequence of programs, each given by what it is called with; a fault ends the run.\<close>

primrec run_all :: "('c \<Rightarrow> 's \<Rightarrow> 's option) \<Rightarrow> 'c list \<Rightarrow> 's \<Rightarrow> 's option" where
  "run_all handle [] s = Some s"
| "run_all handle (c # cs) s = Option.bind (handle c s) (run_all handle cs)"

text \<open>
  What every probe promises: in a state that satisfies its invariant no program faults, and the
  next state satisfies the invariant again.
\<close>

locale safe_probe =
  fixes handle :: "'c \<Rightarrow> 's \<Rightarrow> 's option"
    and valid :: "'c \<Rightarrow> bool"
    and invar :: "'s \<Rightarrow> bool"
  assumes handled: "valid c \<Longrightarrow> invar s \<Longrightarrow> \<exists>s'. handle c s = Some s' \<and> invar s'"
begin

lemma run_safe:
  assumes "\<forall>c \<in> set cs. valid c" and "invar s"
  shows "\<exists>s'. run_all handle cs s = Some s' \<and> invar s'"
  using assms
proof (induction cs arbitrary: s)
  case (Cons c cs)
  obtain s' where s': "handle c s = Some s'" "invar s'" using Cons.prems handled [of c s] by auto
  with Cons.IH [of s'] Cons.prems show ?case by simp
qed simp

end

text \<open>
  A part of a state that only some of the programs touch, each as a program of its own, goes
  through the run of these programs.
\<close>

lemma run_part:
  assumes "\<And>c s s'. handle c s = Some s' \<Longrightarrow>
      (case which c of None \<Rightarrow> part s' = part s | Some d \<Rightarrow> handle' d (part s) = Some (part s'))"
    and "run_all handle cs s = Some s'"
  shows "run_all handle' (List.map_filter which cs) (part s) = Some (part s')"
  using assms(2)
proof (induction cs arbitrary: s)
  case (Cons c cs)
  then obtain s1 where s1: "handle c s = Some s1" "run_all handle cs s1 = Some s'"
    by (auto simp: bind_eq_Some_conv)
  with assms(1) [OF s1(1)] Cons.IH [OF s1(2)] show ?case
    by (cases "which c") (simp_all add: List.map_filter_simps)
qed (simp add: List.map_filter_simps)

end
