(* ===== verification/Fileop_Paths.thy ===== *)
theory Fileop_Paths
  imports Bpf_Helpers
begin

text \<open>
  The path routines of \<^verbatim>\<open>fileop/fileop.bpf.c\<close>: prefix tests, the noise filters, and the
  joining of a directory path with a relative one.  Each is translated with the accesses the
  C code makes, so an index outside of a buffer is the value \<open>None\<close>; the lemmas show that
  on path buffers there is none, and what the routine computes of the strings in them.
\<close>

section \<open>Constants\<close>

definition TASK_COMM_LEN :: nat where "TASK_COMM_LEN = 16"
definition MAX_PATH_SIZE :: nat where "MAX_PATH_SIZE = 256"
definition MAX_PREFIX_LEN :: nat where "MAX_PREFIX_LEN = 36"

section \<open>Prefix tests\<close>

text \<open>A pointer into a buffer is the buffer and an offset; \<open>s[i]\<close> reads at the offset plus \<open>i\<close>.\<close>

definition str_has_prefix :: "bytes \<Rightarrow> nat \<Rightarrow> bytes \<Rightarrow> nat \<Rightarrow> bool option" where
  "str_has_prefix s off pfx prefix_len =
     do { r \<leftarrow> c_for MAX_PREFIX_LEN
            (\<lambda>i u. if prefix_len \<le> i then Some (Return True)
                   else do { c \<leftarrow> buf_read s (off + i);
                             p \<leftarrow> buf_read pfx i;
                             Some (if c \<noteq> p then Return False else Next u) }) ();
          Some (case r of Inl _ \<Rightarrow> False | Inr b \<Rightarrow> b) }"

text \<open>The call pattern of the source: \<open>str_has_prefix(p, prefix, sizeof(prefix) - 1)\<close>.\<close>

definition has_prefix_lit :: "bytes \<Rightarrow> nat \<Rightarrow> string \<Rightarrow> bool option" where
  "has_prefix_lit s off lit =
     str_has_prefix s off (bytes_of_string lit @ [0]) (length lit)"

definition so_body :: "bytes \<Rightarrow> nat \<Rightarrow> unit \<Rightarrow> (unit, bool) flow option" where
  "so_body path i u =
     do { c \<leftarrow> buf_read path i;
          if c = 0 then Some (Return False)
          else if c \<noteq> byte_of_char CHR ''.'' then Some (Next u) else do {
          c1 \<leftarrow> buf_read path (i + 1);
          if c1 \<noteq> byte_of_char CHR ''s'' then Some (Next u) else do {
          c2 \<leftarrow> buf_read path (i + 2);
          if c2 \<noteq> byte_of_char CHR ''o'' then Some (Next u) else do {
          c3 \<leftarrow> buf_read path (i + 3);
          Some (if c3 = 0 \<or> c3 = byte_of_char CHR ''.'' then Return True else Next u) }}}}"

definition path_looks_like_shared_object :: "bytes \<Rightarrow> bool option" where
  "path_looks_like_shared_object path =
     do { r \<leftarrow> c_for (MAX_PATH_SIZE - 3) (so_body path) ();
          Some (case r of Inl _ \<Rightarrow> False | Inr b \<Rightarrow> b) }"

section \<open>Noise filters\<close>

text \<open>
  A chain of prefix tests that returns at the first one that matches.  The callers pass
  the address of an array member, so the null tests of the source never fire.
\<close>

fun any_prefix :: "bytes \<Rightarrow> nat \<Rightarrow> string list \<Rightarrow> bool option" where
  "any_prefix path off [] = Some False"
| "any_prefix path off (lit # lits) =
     do { b \<leftarrow> has_prefix_lit path off lit;
          if b then Some True else any_prefix path off lits }"

definition is_noise_path :: "bytes \<Rightarrow> bool option" where
  "is_noise_path path =
     any_prefix path 0 [''/proc/'', ''/sys/'', ''/dev/pts/'', ''/dev/shm/'', ''/run/'']"

definition path_is_runtime_overlay_noise :: "bytes \<Rightarrow> bool option" where
  "path_is_runtime_overlay_noise path =
     do { b \<leftarrow> has_prefix_lit path 0 ''/var/lib/'';
          if \<not> b then Some False
          else any_prefix path (length ''/var/lib/'')
            [''buildkit/runc-overlayfs/'', ''docker/overlay2/'', ''containers/storage/overlay/'',
             ''containerd/io.containerd.snapshotter''] }"

definition path_is_systemd_private_tmp_noise :: "bytes \<Rightarrow> bool option" where
  "path_is_systemd_private_tmp_noise path =
     any_prefix path 0 [''/tmp/systemd-private-'', ''/var/tmp/systemd-private-'']"

definition is_absolute_path :: "bytes \<Rightarrow> bool option" where
  "is_absolute_path path = do { c \<leftarrow> buf_read path 0; Some (c = byte_of_char CHR ''/'') }"

section \<open>Joining paths\<close>

text \<open>
  The two copy loops share the local \<open>off\<close> and the destination; \<open>sz\<close> is the size of the
  destination.  The result is the return code and the destination.
\<close>

definition join_base_body ::
  "nat \<Rightarrow> bytes \<Rightarrow> nat \<Rightarrow> nat \<times> bytes \<Rightarrow> (nat \<times> bytes, bytes) flow option" where
  "join_base_body sz base i = (\<lambda>(off, dst).
     if sz - 1 \<le> off then do { dst \<leftarrow> buf_write dst off 0; Some (Return dst) }
     else do { c \<leftarrow> buf_read base i;
               if c = 0 then Some (Break (off, dst))
               else do { dst \<leftarrow> buf_write dst off c; Some (Next (off + 1, dst)) } })"

definition join_relative_body ::
  "nat \<Rightarrow> bytes \<Rightarrow> nat \<Rightarrow> nat \<times> bytes \<Rightarrow> (nat \<times> bytes, nat \<times> bytes) flow option" where
  "join_relative_body sz relative i = (\<lambda>(off, dst).
     if sz - 1 \<le> off then Some (Break (off, dst))
     else do { c \<leftarrow> buf_read relative i;
               if c = 0 then Some (Break (off, dst))
               else do { dst \<leftarrow> buf_write dst off c; Some (Next (off + 1, dst)) } })"

definition join_paths :: "bytes \<Rightarrow> nat \<Rightarrow> bytes \<Rightarrow> bytes \<Rightarrow> (int \<times> bytes) option" where
  "join_paths dst sz base relative =
     (if sz = 0 then Some (-1, dst) else
      do { r \<leftarrow> c_for MAX_PATH_SIZE (join_base_body sz base) (0, dst);
           case r of
             Inr dst \<Rightarrow> Some (0, dst)
           | Inl (off, dst) \<Rightarrow>
               if off = 0 then Some (-1, dst)
               else do {
                 l \<leftarrow> buf_read dst (off - 1);
                 (off, dst) \<leftarrow> (if l \<noteq> byte_of_char CHR ''/'' \<and> off < sz - 1
                    then do { dst \<leftarrow> buf_write dst off (byte_of_char CHR ''/'');
                              Some (off + 1, dst) }
                    else Some (off, dst));
                 r \<leftarrow> c_for MAX_PATH_SIZE (join_relative_body sz relative) (off, dst);
                 let (off, dst) = (case r of Inl p \<Rightarrow> p | Inr p \<Rightarrow> p);
                 dst \<leftarrow> buf_write dst off 0;
                 Some (0, dst) } })"

section \<open>What the prefix tests decide\<close>

lemma str_has_prefix_spec:
  assumes "n < MAX_PREFIX_LEN" and "off + n \<le> length s" and "n \<le> length pfx"
  shows "str_has_prefix s off pfx n = Some (take n (drop off s) = take n pfx)"
proof -
  let ?body = "\<lambda>i u. if n \<le> i then Some (Return True)
     else do { c \<leftarrow> buf_read s (off + i); p \<leftarrow> buf_read pfx i;
               Some (if c \<noteq> p then Return False else Next u) }"
  let ?ok = "\<lambda>i. take i (drop off s) = take i pfx"
  have "\<exists>r. c_for MAX_PREFIX_LEN ?body () = Some r \<and> r = Inr (?ok n)"
  proof (rule c_for_rule [where I = "\<lambda>i _. i \<le> n \<and> ?ok i"])
    fix j and u :: unit
    assume inv: "j \<le> n \<and> ?ok j" and "j < MAX_PREFIX_LEN"
    have "?ok (Suc j) \<longleftrightarrow> s ! (off + j) = pfx ! j" if "j < n"
      using that inv assms by (simp add: take_Suc_conv_app_nth)
    moreover have "?ok n \<longrightarrow> ?ok (Suc j)" if "j < n"
      using that by (auto intro: take_eq_mono)
    ultimately show "case ?body j u of None \<Rightarrow> False
      | Some (Next st') \<Rightarrow> Suc j \<le> n \<and> ?ok (Suc j)
      | Some (Break st') \<Rightarrow> Inl st' = Inr (?ok n)
      | Some (Return r) \<Rightarrow> Inr r = Inr (?ok n)"
      using inv assms by (cases "j < n") auto
  qed (use assms in auto)
  then show ?thesis by (auto simp: str_has_prefix_def)
qed

text \<open>A prefix as long as the unrolled loop is never found, even where it is there.\<close>

lemma str_has_prefix_full_length:
  assumes "MAX_PREFIX_LEN \<le> n" and "off + MAX_PREFIX_LEN \<le> length s"
    and "MAX_PREFIX_LEN \<le> length pfx"
  shows "str_has_prefix s off pfx n = Some False"
proof -
  let ?body = "\<lambda>i u. if n \<le> i then Some (Return True)
     else do { c \<leftarrow> buf_read s (off + i); p \<leftarrow> buf_read pfx i;
               Some (if c \<noteq> p then Return False else Next u) }"
  have "\<exists>r. c_for MAX_PREFIX_LEN ?body () = Some r \<and> r \<noteq> Inr True"
    by (rule c_for_rule [where I = "\<lambda>i _. i \<le> MAX_PREFIX_LEN"]) (use assms in auto)
  then show ?thesis by (auto simp: str_has_prefix_def split: sum.splits)
qed

definition starts_with :: "string \<Rightarrow> bytes \<Rightarrow> bool" where
  "starts_with lit b \<longleftrightarrow> take (length lit) b = bytes_of_string lit"

lemma has_prefix_lit_spec [buf_simps]:
  assumes "length lit < MAX_PREFIX_LEN" and "off + length lit \<le> length s"
  shows "has_prefix_lit s off lit = Some (starts_with lit (drop off s))"
  using assms by (simp add: has_prefix_lit_def str_has_prefix_spec starts_with_def)

lemma any_prefix_spec [buf_simps]:
  assumes "off + MAX_PREFIX_LEN \<le> length s"
  shows "any_prefix s off lits =
    Some (\<exists>lit \<in> set lits. length lit < MAX_PREFIX_LEN \<and> starts_with lit (drop off s))"
proof (induction lits)
  case (Cons lit lits)
  show ?case
  proof (cases "length lit < MAX_PREFIX_LEN")
    case True
    with assms Cons show ?thesis by (simp add: has_prefix_lit_spec)
  next
    case False
    with assms have "has_prefix_lit s off lit = Some False"
      by (simp add: has_prefix_lit_def str_has_prefix_full_length)
    with False Cons show ?thesis by simp
  qed
qed simp

declare any_prefix.simps [simp del]

lemma starts_with_append:
  "starts_with (a @ b) p \<longleftrightarrow> starts_with a p \<and> starts_with b (drop (length a) p)"
proof -
  have "length (take (length a) p) = length a" if "starts_with (a @ b) p"
    using that arg_cong [of _ _ length] unfolding starts_with_def by fastforce
  then show ?thesis
    by (auto simp: starts_with_def bytes_of_string_def take_add)
qed

lemma starts_with_nth:
  assumes "starts_with lit p" and "i < length lit"
  shows "i < length p" and "p ! i = byte_of_char (lit ! i)"
proof -
  have "length (take (length lit) p) = length lit"
    using assms(1) by (simp only: starts_with_def length_bytes_of_string)
  with assms(2) show "i < length p" by simp
  have "take (length lit) p ! i = bytes_of_string lit ! i"
    using assms(1) by (simp only: starts_with_def)
  with assms(2) show "p ! i = byte_of_char (lit ! i)"
    by (simp add: bytes_of_string_def byte_of_char_def)
qed

text \<open>The string predicates the three filters decide on a path buffer.\<close>

definition noisy_path :: "bytes \<Rightarrow> bool" where
  "noisy_path p \<longleftrightarrow>
     (\<exists>lit \<in> {''/proc/'', ''/sys/'', ''/dev/pts/'', ''/dev/shm/'', ''/run/''}. starts_with lit p)"

definition systemd_private_path :: "bytes \<Rightarrow> bool" where
  "systemd_private_path p \<longleftrightarrow>
     starts_with ''/tmp/systemd-private-'' p \<or> starts_with ''/var/tmp/systemd-private-'' p"

definition overlay_path :: "bytes \<Rightarrow> bool" where
  "overlay_path p \<longleftrightarrow>
     starts_with ''/var/lib/buildkit/runc-overlayfs/'' p \<or>
     starts_with ''/var/lib/docker/overlay2/'' p \<or>
     starts_with ''/var/lib/containers/storage/overlay/'' p"

lemma is_noise_path_spec [buf_simps]:
  "length p = MAX_PATH_SIZE \<Longrightarrow> is_noise_path p = Some (noisy_path p)"
  by (simp add: is_noise_path_def any_prefix_spec noisy_path_def MAX_PATH_SIZE_def
      MAX_PREFIX_LEN_def)

lemma systemd_noise_spec [buf_simps]:
  "length p = MAX_PATH_SIZE \<Longrightarrow>
     path_is_systemd_private_tmp_noise p = Some (systemd_private_path p)"
  by (simp add: path_is_systemd_private_tmp_noise_def any_prefix_spec systemd_private_path_def
      MAX_PATH_SIZE_def MAX_PREFIX_LEN_def)

lemma overlay_path_split:
  "overlay_path p \<longleftrightarrow> starts_with ''/var/lib/'' p \<and>
     (\<exists>lit \<in> {''buildkit/runc-overlayfs/'', ''docker/overlay2/'', ''containers/storage/overlay/''}.
        starts_with lit (drop (length ''/var/lib/'') p))"
  using starts_with_append [of "''/var/lib/''" "''buildkit/runc-overlayfs/''" p]
    starts_with_append [of "''/var/lib/''" "''docker/overlay2/''" p]
    starts_with_append [of "''/var/lib/''" "''containers/storage/overlay/''" p]
  by (auto simp: overlay_path_def)

lemma overlay_noise_spec [buf_simps]:
  assumes "length p = MAX_PATH_SIZE"
  shows "path_is_runtime_overlay_noise p = Some (overlay_path p)"
proof -
  have "has_prefix_lit p 0 ''/var/lib/'' = Some (starts_with ''/var/lib/'' p)"
    using has_prefix_lit_spec [of "''/var/lib/''" 0 p] assms
    by (simp add: MAX_PATH_SIZE_def MAX_PREFIX_LEN_def)
  moreover have bound: "length ''/var/lib/'' + MAX_PREFIX_LEN \<le> length p"
    using assms by (simp add: MAX_PATH_SIZE_def MAX_PREFIX_LEN_def)
  ultimately show ?thesis
    by (simp only: path_is_runtime_overlay_noise_def overlay_path_split any_prefix_spec [OF bound]
        bind.simps) (simp add: MAX_PREFIX_LEN_def)
qed

section \<open>Shared object names\<close>

definition so_at :: "bytes \<Rightarrow> nat \<Rightarrow> bool" where
  "so_at s i \<longleftrightarrow> i + 3 \<le> length s \<and> s ! i = byte_of_char CHR ''.'' \<and>
     s ! (i + 1) = byte_of_char CHR ''s'' \<and> s ! (i + 2) = byte_of_char CHR ''o'' \<and>
     (i + 3 = length s \<or> s ! (i + 3) = byte_of_char CHR ''.'')"

definition shared_object_name :: "bytes \<Rightarrow> bool" where
  "shared_object_name s \<longleftrightarrow>
     (\<exists>a b. s = a @ bytes_of_string ''.so'' @ b \<and> (b = [] \<or> hd b = byte_of_char CHR ''.''))"

lemma shared_object_name_index: "shared_object_name s \<longleftrightarrow> (\<exists>i. so_at s i)"
proof
  assume "shared_object_name s"
  then obtain a b where s: "s = a @ bytes_of_string ''.so'' @ b" "b = [] \<or> hd b = byte_of_char CHR ''.''"
    by (auto simp: shared_object_name_def)
  then have "so_at s (length a)"
    by (cases b) (auto simp: so_at_def nth_append bytes_of_string_def byte_of_char_def)
  then show "\<exists>i. so_at s i" ..
next
  assume "\<exists>i. so_at s i"
  then obtain i where i: "so_at s i" ..
  have "s = take i s @ take 3 (drop i s) @ drop (i + 3) s"
    by (metis append_take_drop_id drop_drop add.commute)
  moreover have "take 3 (drop i s) = bytes_of_string ''.so''"
  proof (rule nth_equalityI)
    have "3 \<le> length s - i" using i by (auto simp: so_at_def)
    then show "length (take 3 (drop i s)) = length (bytes_of_string ''.so'')"
      by (simp add: min_absorb2)
    fix k assume "k < length (take 3 (drop i s))"
    then have "k = 0 \<or> k = 1 \<or> k = 2" by auto
    then show "take 3 (drop i s) ! k = bytes_of_string ''.so'' ! k"
      using i by (auto simp: so_at_def bytes_of_string_def byte_of_char_def)
  qed
  moreover have "drop (i + 3) s = [] \<or> hd (drop (i + 3) s) = byte_of_char CHR ''.''"
    using i by (cases "i + 3 = length s") (auto simp: so_at_def hd_drop_conv_nth)
  ultimately show "shared_object_name s"
    unfolding shared_object_name_def by metis
qed

lemma so_at_buffer:
  assumes "nul_terminated p" and "i < length (cstr p)"
  shows "so_at (cstr p) i \<longleftrightarrow> p ! i = byte_of_char CHR ''.'' \<and> p ! (i + 1) = byte_of_char CHR ''s'' \<and>
     p ! (i + 2) = byte_of_char CHR ''o'' \<and> (p ! (i + 3) = 0 \<or> p ! (i + 3) = byte_of_char CHR ''.'')"
   (is "_ \<longleftrightarrow> ?R")
proof
  assume "so_at (cstr p) i"
  then show ?R
    using nth_length_cstr [OF assms(1)] 
    by (cases "i + 3 = length (cstr p)") (auto simp: so_at_def)
next
  assume R: ?R
  have "\<forall>k < 3. p ! (i + k) \<noteq> 0"
    using R char_nonzero by (auto simp: less_Suc_eq numeral_3_eq_3 numeral_2_eq_2)
  then have "i + 3 \<le> length (cstr p)"
    using cstr_reaches [OF assms(1)] assms(2) by simp
  then show "so_at (cstr p) i"
    using R nth_before_nul [of "i + 3" p] by (cases "i + 3 = length (cstr p)") (auto simp: so_at_def)
qed

lemma path_looks_like_shared_object_spec:
  assumes "nul_terminated p" and "length p = MAX_PATH_SIZE"
  shows "path_looks_like_shared_object p = Some (shared_object_name (cstr p))"
proof -
  let ?s = "cstr p"
  have len: "length ?s < 256"
    using length_cstr_less [OF assms(1)] assms(2) by (simp add: MAX_PATH_SIZE_def)
  have "\<exists>r. path_looks_like_shared_object p = Some r \<and> (r \<longleftrightarrow> (\<exists>i. so_at ?s i))"
  proof -
    let ?Q = "\<lambda>r. case r of Inl (u :: unit) \<Rightarrow> \<nexists>i. so_at ?s i | Inr b \<Rightarrow> b \<longleftrightarrow> (\<exists>i. so_at ?s i)"
    have none: "\<nexists>i. so_at ?s i" if "\<forall>i < j. \<not> so_at ?s i" "length ?s \<le> j \<or> 253 \<le> j" for j
    proof -
      have "i < j" if "so_at ?s i" for i
        using that \<open>length ?s \<le> j \<or> 253 \<le> j\<close> len by (auto simp: so_at_def)
      with that(1) show ?thesis by blast
    qed
    have "\<exists>r. c_for (MAX_PATH_SIZE - 3) (so_body p) () = Some r \<and> ?Q r"
    proof (rule c_for_rule [where I = "\<lambda>i _. i \<le> length ?s \<and> (\<forall>j < i. \<not> so_at ?s j)"])
      fix j and u :: unit
      assume inv: "j \<le> length ?s \<and> (\<forall>i < j. \<not> so_at ?s i)" and j: "j < MAX_PATH_SIZE - 3"
      show "case so_body p j u of None \<Rightarrow> False
        | Some (Next u') \<Rightarrow> Suc j \<le> length ?s \<and> (\<forall>i < Suc j. \<not> so_at ?s i)
        | Some (Break u') \<Rightarrow> ?Q (Inl u') | Some (Return r) \<Rightarrow> ?Q (Inr r)"
      proof (cases "j < length ?s")
        case True
        then have "p ! j \<noteq> 0" by (rule nth_before_nul)
        with True inv j assms(2) so_at_buffer [OF assms(1) True] show ?thesis
          by (auto simp: so_body_def MAX_PATH_SIZE_def less_Suc_eq)
      next
        case False
        with inv have "j = length ?s" by simp
        with nth_length_cstr [OF assms(1)] inv none [of j] j assms(2) show ?thesis
          by (auto simp: so_body_def MAX_PATH_SIZE_def)
      qed
    qed (use none [of 253] in \<open>auto simp: MAX_PATH_SIZE_def\<close>)
    then obtain r where "c_for (MAX_PATH_SIZE - 3) (so_body p) () = Some r" "?Q r" by blast
    then show ?thesis
      by (cases r) (auto simp: path_looks_like_shared_object_def)
  qed
  then show ?thesis by (simp add: shared_object_name_index)
qed

section \<open>What joining computes\<close>

text \<open>How the first copy loop ends: the destination is full, or the base is copied whole.\<close>

definition base_copied :: "nat \<Rightarrow> bytes \<Rightarrow> (nat \<times> bytes) + bytes \<Rightarrow> bool" where
  "base_copied sz base r =
    (case r of
       Inr d \<Rightarrow> sz - 1 \<le> length (cstr base) \<and> (\<exists>d'. d = d'[sz - 1 := 0] \<and> length d' = sz \<and>
         take (sz - 1) d' = take (sz - 1) (cstr base))
     | Inl (off, d) \<Rightarrow> off = length (cstr base) \<and> off < sz - 1 \<and> length d = sz \<and>
         take off d = cstr base)"

lemma base_copied_simps [simp]:
  "base_copied sz base (Inl (off, d)) \<longleftrightarrow>
     off = length (cstr base) \<and> off < sz - 1 \<and> length d = sz \<and> take off d = cstr base"
  "base_copied sz base (Inr d) \<longleftrightarrow> sz - 1 \<le> length (cstr base) \<and>
     (\<exists>d'. d = d'[sz - 1 := 0] \<and> length d' = sz \<and> take (sz - 1) d' = take (sz - 1) (cstr base))"
  by (simp_all add: base_copied_def)

lemma join_base_loop:
  assumes "length dst = sz" and "0 < sz" and "nul_terminated base" and "length base = MAX_PATH_SIZE"
  shows "\<exists>r. c_for MAX_PATH_SIZE (join_base_body sz base) (0, dst) = Some r \<and>
    base_copied sz base r"
proof (rule c_for_rule [where I = "\<lambda>i (off, d). off = i \<and> i \<le> length (cstr base) \<and> i \<le> sz - 1 \<and>
      length d = sz \<and> take i d = take i (cstr base)"])
  fix j st
  assume inv: "case st of (off, d) \<Rightarrow> off = j \<and> j \<le> length (cstr base) \<and> j \<le> sz - 1 \<and>
      length d = sz \<and> take j d = take j (cstr base)"
    and j: "j < MAX_PATH_SIZE"
  obtain d where st: "st = (j, d)" "j \<le> length (cstr base)" "j \<le> sz - 1" "length d = sz"
    "take j d = take j (cstr base)"
    using inv by (cases st) auto
  show "case join_base_body sz base j st of None \<Rightarrow> False
     | Some (Next (off, d)) \<Rightarrow> off = Suc j \<and> Suc j \<le> length (cstr base) \<and> Suc j \<le> sz - 1 \<and>
         length d = sz \<and> take (Suc j) d = take (Suc j) (cstr base)
     | Some (Break st') \<Rightarrow> base_copied sz base (Inl st')
     | Some (Return r) \<Rightarrow> base_copied sz base (Inr r)"
  proof (cases "sz - 1 \<le> j")
    case True
    with st assms(2) show ?thesis
      by (auto simp: join_base_body_def)
  next
    case False
    show ?thesis
    proof (cases "j = length (cstr base)")
      case True
      with False st assms(3,4) j nth_length_cstr show ?thesis
        by (simp add: join_base_body_def)
    next
      case False
      with \<open>\<not> sz - 1 \<le> j\<close> st assms(2,4) j nth_before_nul [of j base] show ?thesis
        by (simp add: join_base_body_def take_update_snoc take_Suc_cstr)
    qed
  qed
qed (use assms length_cstr_less [of base] in auto)

lemma join_relative_loop:
  assumes "length dst = sz" and "off < sz" and "nul_terminated relative"
    and "length relative = MAX_PATH_SIZE"
  shows "\<exists>r. c_for MAX_PATH_SIZE (join_relative_body sz relative) (off, dst) = Some r \<and>
    (case r of Inr _ \<Rightarrow> False
     | Inl (off', d) \<Rightarrow> off' < sz \<and> length d = sz \<and>
         take off' d = take (sz - 1) (take off dst @ cstr relative))"
  (is "\<exists>r. _ \<and> ?Q r")
proof (rule c_for_rule [where I = "\<lambda>i (o', d). o' = off + i \<and> i \<le> length (cstr relative) \<and>
      o' < sz \<and> length d = sz \<and> take o' d = take off dst @ take i (cstr relative)"])
  fix j st
  assume inv: "case st of (o', d) \<Rightarrow> o' = off + j \<and> j \<le> length (cstr relative) \<and> o' < sz \<and>
      length d = sz \<and> take o' d = take off dst @ take j (cstr relative)"
    and j: "j < MAX_PATH_SIZE"
  obtain d where st: "st = (off + j, d)" "j \<le> length (cstr relative)" "off + j < sz" "length d = sz"
    "take (off + j) d = take off dst @ take j (cstr relative)"
    using inv by (cases st) auto
  show "case join_relative_body sz relative j st of None \<Rightarrow> False
     | Some (Next (o', d)) \<Rightarrow> o' = off + Suc j \<and> Suc j \<le> length (cstr relative) \<and> o' < sz \<and>
         length d = sz \<and> take o' d = take off dst @ take (Suc j) (cstr relative)
     | Some (Break st') \<Rightarrow> ?Q (Inl st')
     | Some (Return r) \<Rightarrow> ?Q (Inr r)"
  proof (cases "sz - 1 \<le> off + j")
    case True
    with st(3) have "sz - Suc off = j" by simp
    with True st assms(1,2) show ?thesis
      by (auto simp: join_relative_body_def min_absorb2)
  next
    case False
    show ?thesis
    proof (cases "j = length (cstr relative)")
      case True
      with False st assms j nth_length_cstr show ?thesis
        by (simp add: join_relative_body_def)
    next
      case False
      with \<open>\<not> sz - 1 \<le> off + j\<close> st assms j nth_before_nul [of j relative] show ?thesis
        by (simp add: join_relative_body_def take_update_snoc take_Suc_cstr)
    qed
  qed
qed (use assms length_cstr_less [of relative] in auto)

text \<open>The string a join is meant to produce: one slash between the two parts.\<close>

definition joined :: "bytes \<Rightarrow> bytes \<Rightarrow> bytes" where
  "joined b r = b @ (if last b = byte_of_char CHR ''/'' then [] else [byte_of_char CHR ''/'']) @ r"

lemma join_paths_empty_base:
  assumes "length dst = sz" and "1 < sz" and "nul_terminated base" and "length base = MAX_PATH_SIZE"
    and "cstr base = []"
  shows "\<exists>dst'. join_paths dst sz base relative = Some (-1, dst')"
proof -
  have "0 < sz" using assms(2) by simp
  from join_base_loop [OF assms(1) this assms(3,4)]
  obtain r where loop: "c_for MAX_PATH_SIZE (join_base_body sz base) (0, dst) = Some r"
    and r: "base_copied sz base r"
    by blast
  show ?thesis
    using loop r assms(2,5) by (cases r) (auto simp: join_paths_def)
qed

lemma join_paths_joined:
  assumes dst: "length dst = sz" "1 < sz"
    and base: "nul_terminated base" "length base = MAX_PATH_SIZE" "cstr base \<noteq> []"
    and rel: "nul_terminated relative" "length relative = MAX_PATH_SIZE"
  shows "\<exists>dst'. join_paths dst sz base relative = Some (0, dst') \<and> length dst' = sz \<and>
    nul_terminated dst' \<and> cstr dst' = take (sz - 1) (joined (cstr base) (cstr relative))"
proof -
  have sz: "0 < sz" using dst(2) by simp
  obtain r where loop: "c_for MAX_PATH_SIZE (join_base_body sz base) (0, dst) = Some r" and
    r: "base_copied sz base r"
    using join_base_loop [OF dst(1) sz base(1,2)] by blast
  show ?thesis
  proof (cases r)
    case (Inr d)
    then obtain d' where d': "d = d'[sz - 1 := 0]" "length d' = sz" "sz - 1 \<le> length (cstr base)"
      "take (sz - 1) d' = take (sz - 1) (cstr base)"
      using r by auto
    have "0 \<notin> set (take (sz - 1) (cstr base))"
      using cstr_no_nul set_take_subset by fastforce
    then have "cstr d = take (sz - 1) (cstr base)" "nul_terminated d"
      using cstr_cut [of "sz - 1" d'] d' sz by simp_all
    with Inr loop sz d' show ?thesis by (simp add: join_paths_def joined_def)
  next
    case (Inl p)
    then obtain d where p: "p = (length (cstr base), d)" "length (cstr base) < sz - 1" "length d = sz"
      "take (length (cstr base)) d = cstr base"
      using r by (cases p) auto
    let ?n = "length (cstr base)"
    have last: "d ! (?n - 1) = last (cstr base)"
      using base(3) p(4) by (metis diff_less last_conv_nth length_greater_0_conv nth_take zero_less_one)
    define q where "q = (if last (cstr base) \<noteq> byte_of_char CHR ''/''
      then (?n + 1, d[?n := byte_of_char CHR ''/'']) else (?n, d))"
    have q: "fst q < sz" "length (snd q) = sz"
      "take (fst q) (snd q) = joined (cstr base) []"
      using p by (auto simp: q_def joined_def take_update_snoc)
    obtain o' d' where loop2: "c_for MAX_PATH_SIZE (join_relative_body sz relative) q = Some (Inl (o', d'))"
      and d': "o' < sz" "length d' = sz"
        "take o' d' = take (sz - 1) (take (fst q) (snd q) @ cstr relative)"
    proof -
      obtain r where "c_for MAX_PATH_SIZE (join_relative_body sz relative) q = Some r"
        "case r of Inr _ \<Rightarrow> False
         | Inl (o', d) \<Rightarrow> o' < sz \<and> length d = sz \<and>
             take o' d = take (sz - 1) (take (fst q) (snd q) @ cstr relative)"
        using join_relative_loop [OF q(2,1) rel] by auto
      then show ?thesis by (cases r) (auto intro: that)
    qed
    have res: "take o' d' = take (sz - 1) (joined (cstr base) (cstr relative))"
      unfolding d'(3) q(3) by (simp add: joined_def)
    have "0 \<notin> set (take o' d')"
    proof -
      have "0 \<notin> set (joined (cstr base) (cstr relative))"
        by (simp add: joined_def char_nonzero)
      then show ?thesis unfolding res using set_take_subset by fastforce
    qed
    then have "cstr (d'[o' := 0]) = take o' d'" "nul_terminated (d'[o' := 0])"
      using cstr_cut [of o' d'] d' by simp_all
    moreover have "join_paths dst sz base relative = Some (0, d'[o' := 0])"
      using loop Inl p loop2 d' sz base(3) last
      by (auto simp: join_paths_def q_def split: if_splits)
    ultimately show ?thesis using res d' by simp
  qed
qed

end
