(* ===== verification/Fileop.thy ===== *)
theory Fileop
  imports Fileop_Paths
begin

text \<open>
  The file-operation probe, \<^verbatim>\<open>fileop/fileop.bpf.c\<close>: its maps as one state record and each of
  its tracepoint programs as a function from the environment, the tracepoint context and the
  state to the next state.  Every program returns 0, so only the state is kept.  The value
  \<open>None\<close> is an access outside of a buffer.  A program runs without interleaving.
\<close>

section \<open>Data\<close>

definition MAX_ENTRIES :: nat where "MAX_ENTRIES = 16384"
definition AT_FDCWD :: s64 where "AT_FDCWD = -100"
definition PROT_WRITE :: u64 where "PROT_WRITE = 2"

datatype file_op_type =
  FILE_OP_OPEN | FILE_OP_WRITE | FILE_OP_DELETE | FILE_OP_RENAME
| FILE_OP_MMAP_READ | FILE_OP_MMAP_WRITE | FILE_OP_HARDLINK | FILE_OP_SYMLINK

primrec op_code :: "file_op_type \<Rightarrow> u8" where
  "op_code FILE_OP_OPEN = 1"
| "op_code FILE_OP_WRITE = 2"
| "op_code FILE_OP_DELETE = 3"
| "op_code FILE_OP_RENAME = 4"
| "op_code FILE_OP_MMAP_READ = 5"
| "op_code FILE_OP_MMAP_WRITE = 6"
| "op_code FILE_OP_HARDLINK = 7"
| "op_code FILE_OP_SYMLINK = 8"

definition FD_SEEN_WRITE :: u8 where "FD_SEEN_WRITE = 1"
definition FD_SEEN_MMAP_READ :: u8 where "FD_SEEN_MMAP_READ = 2"
definition FD_SEEN_MMAP_WRITE :: u8 where "FD_SEEN_MMAP_WRITE = 4"

record fd_key =
  key_tgid :: u32
  key_fd :: u32

record path_value =
  pv_path :: bytes
  pv_write_bytes :: u64
  pv_open_flags :: u64
  pv_seen_flags :: u8

record fileop_event =
  fe_timestamp_ns :: u64
  fe_pid_tgid :: u64
  fe_uid_gid :: u64
  fe_cgroup_id :: u64
  fe_bytes :: u64
  fe_flags :: u64
  fe_op :: u8
  fe_comm :: bytes
  fe_path :: bytes
  fe_new_path :: bytes

text \<open>\<^verbatim>\<open>__builtin_memset(p, 0, sizeof(*p))\<close> for the two structures.\<close>

definition path_value_memset0 :: "path_value \<Rightarrow> path_value" where
  "path_value_memset0 pv =
     \<lparr>pv_path = replicate MAX_PATH_SIZE 0, pv_write_bytes = 0, pv_open_flags = 0, pv_seen_flags = 0\<rparr>"

definition zero_event :: fileop_event where
  "zero_event =
     \<lparr>fe_timestamp_ns = 0, fe_pid_tgid = 0, fe_uid_gid = 0, fe_cgroup_id = 0, fe_bytes = 0,
      fe_flags = 0, fe_op = 0, fe_comm = replicate TASK_COMM_LEN 0,
      fe_path = replicate MAX_PATH_SIZE 0, fe_new_path = replicate MAX_PATH_SIZE 0\<rparr>"

definition event_memset0 :: "fileop_event \<Rightarrow> fileop_event" where
  "event_memset0 evt = zero_event"

text \<open>The maps of the probe.  \<^verbatim>\<open>_fake_event_map\<close> only makes the build emit a type.\<close>

record fileop_state =
  inflight_open :: "(u64, path_value) bpf_hash"
  inflight_write :: "(u64, u32) bpf_hash"
  path_heap :: "nat \<Rightarrow> path_value list"
  fd_paths :: "(fd_key, path_value) bpf_hash"
  events :: "fileop_event ringbuf"

type_synonym fileop_env = "(fileop_event, fd_key) bpf_env"

text \<open>Tracepoint contexts: the padding fields and the syscall arguments.\<close>

record enter_open_ctx =
  eo_common :: s64
  eo_syscall_nr :: s64
  eo_filename :: u64
  eo_flags :: s32
  eo_mode :: u16

record enter_openat_ctx =
  eoa_common :: s64
  eoa_syscall_nr :: s64
  eoa_dfd :: s64
  eoa_filename :: u64
  eoa_flags :: s32
  eoa_mode :: u16

record enter_openat2_ctx =
  eo2_common :: s64
  eo2_syscall_nr :: s64
  eo2_dfd :: s64
  eo2_filename :: u64
  eo2_how :: u64
  eo2_usize :: u64

record open_how =
  how_flags :: u64
  how_mode :: u64
  how_resolve :: u64

record exit_ctx =
  ex_common :: s64
  ex_syscall_nr :: s64
  ex_ret :: s64

record enter_rw_ctx =
  rw_common :: s64
  rw_syscall_nr :: s64
  rw_fd :: u64
  rw_buf :: u64
  rw_count :: u64

record enter_mmap_ctx =
  mm_common :: s64
  mm_syscall_nr :: s64
  mm_addr :: u64
  mm_len :: u64
  mm_prot :: u64
  mm_flags :: u64
  mm_fd :: u64
  mm_off :: u64

record enter_close_ctx =
  cl_common :: s64
  cl_syscall_nr :: s64
  cl_fd :: u32

record enter_unlinkat_ctx =
  ul_common :: s64
  ul_syscall_nr :: s64
  ul_dfd :: s64
  ul_pathname :: u64
  ul_flag :: s32

record enter_rename_ctx =
  rn_common :: s64
  rn_syscall_nr :: s64
  rn_oldname :: u64
  rn_newname :: u64

record enter_renameat_ctx =
  rna_common :: s64
  rna_syscall_nr :: s64
  rna_olddfd :: s64
  rna_oldname :: u64
  rna_newdfd :: s64
  rna_newname :: u64

record enter_renameat2_ctx = enter_renameat_ctx +
  rna2_flags :: u32

record enter_link_ctx =
  ln_common :: s64
  ln_syscall_nr :: s64
  ln_oldname :: u64
  ln_newname :: u64

record enter_linkat_ctx =
  lna_common :: s64
  lna_syscall_nr :: s64
  lna_olddfd :: s64
  lna_oldname :: u64
  lna_newdfd :: s64
  lna_newname :: u64
  lna_flags :: s32

record enter_symlink_ctx =
  sl_common :: s64
  sl_syscall_nr :: s64
  sl_oldname :: u64
  sl_newname :: u64

record enter_symlinkat_ctx =
  sla_common :: s64
  sla_syscall_nr :: s64
  sla_oldname :: u64
  sla_newdfd :: s64
  sla_newname :: u64

section \<open>Path lookup\<close>

definition copy_user_path :: "fileop_env \<Rightarrow> bytes \<Rightarrow> nat \<Rightarrow> u64 \<Rightarrow> int \<times> bytes" where
  "copy_user_path env dst sz src =
     (if src = 0 then (-1, dst)
      else let (copied, w) = bpf_probe_read_user_str env sz src;
               dst = mem_write dst w
           in if copied \<le> 1 then (-1, dst) else (0, dst))"

definition resolve_dirfd_path ::
  "fileop_env \<Rightarrow> bytes \<Rightarrow> nat \<Rightarrow> u32 \<Rightarrow> s64 \<Rightarrow> u64 \<Rightarrow> fileop_state
     \<Rightarrow> (int \<times> bytes \<times> fileop_state) option" where
  "resolve_dirfd_path env dst sz tgid dirfd src st =
     (if src = 0 then Some (-1, dst, st)
      else let (rc, dst) = copy_user_path env dst sz src in
      if rc \<noteq> 0 then Some (-1, dst, st)
      else do {
        absolute \<leftarrow> is_absolute_path dst;
        if absolute \<or> dirfd = AT_FDCWD \<or> sint dirfd < 0 then Some (0, dst, st)
        else case percpu_lookup (path_heap st) (bpf_get_smp_processor_id env) 1 of
          None \<Rightarrow> Some (0, dst, st)
        | Some relative \<Rightarrow> do {
            rel_path \<leftarrow> c_memcpy (pv_path relative) dst MAX_PATH_SIZE;
            let st = st\<lparr>path_heap := percpu_store (bpf_get_smp_processor_id env) 1
                          (relative\<lparr>pv_path := rel_path\<rparr>) (path_heap st)\<rparr>;
            case bpf_map_lookup_elem (fd_paths st) \<lparr>key_tgid = tgid, key_fd = ucast dirfd\<rparr> of
              None \<Rightarrow> do { dst \<leftarrow> c_memcpy dst rel_path MAX_PATH_SIZE; Some (0, dst, st) }
            | Some base \<Rightarrow> do {
                (rc, dst) \<leftarrow> join_paths dst sz (pv_path base) rel_path;
                Some (rc, dst, st) } } })"

section \<open>Emitting events\<close>

definition should_drop_fd_event :: "path_value \<Rightarrow> u8 \<Rightarrow> bool option" where
  "should_drop_fd_event path op =
     do { so \<leftarrow> (if op = op_code FILE_OP_MMAP_READ \<or> op = op_code FILE_OP_MMAP_WRITE
                 then path_looks_like_shared_object (pv_path path) else Some False);
          if so then Some True else path_is_runtime_overlay_noise (pv_path path) }"

definition has_seen_flag :: "path_value \<Rightarrow> u8 \<Rightarrow> bool" where
  "has_seen_flag path flag \<longleftrightarrow> pv_seen_flags path AND flag \<noteq> 0"

definition set_seen_flag :: "path_value \<Rightarrow> u8 \<Rightarrow> path_value" where
  "set_seen_flag path flag = path\<lparr>pv_seen_flags := pv_seen_flags path OR flag\<rparr>"

text \<open>The assignments every emitter makes after zeroing the reserved record.\<close>

definition fill_event :: "fileop_env \<Rightarrow> u8 \<Rightarrow> u64 \<Rightarrow> fileop_event \<Rightarrow> fileop_event" where
  "fill_event env op n evt =
     evt\<lparr>fe_timestamp_ns := bpf_ktime_get_ns env,
         fe_pid_tgid := bpf_get_current_pid_tgid env,
         fe_uid_gid := bpf_get_current_uid_gid env,
         fe_cgroup_id := bpf_get_current_cgroup_id env,
         fe_bytes := n,
         fe_op := op,
         fe_comm := bpf_get_current_comm env TASK_COMM_LEN\<rparr>"

definition submit_fd_event ::
  "fileop_env \<Rightarrow> path_value \<Rightarrow> u8 \<Rightarrow> u64 \<Rightarrow> fileop_state \<Rightarrow> fileop_state option" where
  "submit_fd_event env path op n st =
     do { drop \<leftarrow> should_drop_fd_event path op;
          if drop then Some st
          else case bpf_ringbuf_reserve env 0 of
            None \<Rightarrow> Some st
          | Some evt \<Rightarrow> do {
              let st = st\<lparr>events := ringbuf_reserved (events st)\<rparr>;
              let evt = (fill_event env op n (event_memset0 evt))\<lparr>fe_flags := pv_open_flags path\<rparr>;
              p \<leftarrow> c_memcpy (fe_path evt) (pv_path path) MAX_PATH_SIZE;
              Some (st\<lparr>events := bpf_ringbuf_submit (evt\<lparr>fe_path := p\<rparr>) (events st)\<rparr>) } }"

definition submit_open_event :: "fileop_env \<Rightarrow> path_value \<Rightarrow> fileop_state \<Rightarrow> fileop_state option" where
  "submit_open_event env path st = submit_fd_event env path (op_code FILE_OP_OPEN) 0 st"

text \<open>\<open>rc != 0 || is_noise_path(p) || path_is_systemd_private_tmp_noise(p)\<close>, left to right.\<close>

definition reject_path :: "int \<Rightarrow> bytes \<Rightarrow> bool option" where
  "reject_path rc p =
     (if rc \<noteq> 0 then Some True
      else do { n \<leftarrow> is_noise_path p;
                if n then Some True else path_is_systemd_private_tmp_noise p })"

definition submit_delete_path ::
  "fileop_env \<Rightarrow> u64 \<Rightarrow> s64 \<Rightarrow> fileop_state \<Rightarrow> fileop_state option" where
  "submit_delete_path env path dirfd st =
     (case bpf_ringbuf_reserve env 0 of
        None \<Rightarrow> Some st
      | Some evt \<Rightarrow> do {
          let st = st\<lparr>events := ringbuf_reserved (events st)\<rparr>;
          let evt = fill_event env (op_code FILE_OP_DELETE) 0 (event_memset0 evt);
          (rc, p, st) \<leftarrow> resolve_dirfd_path env (fe_path evt) MAX_PATH_SIZE (current_tgid env) dirfd path st;
          rej \<leftarrow> reject_path rc p;
          Some (if rej then st\<lparr>events := bpf_ringbuf_discard (events st)\<rparr>
                else st\<lparr>events := bpf_ringbuf_submit (evt\<lparr>fe_path := p\<rparr>) (events st)\<rparr>) })"

text \<open>
  \<^verbatim>\<open>submit_rename_paths\<close> and \<^verbatim>\<open>submit_hardlink_paths\<close> differ in the operation code only.
\<close>

definition submit_two_paths ::
  "u8 \<Rightarrow> fileop_env \<Rightarrow> u64 \<Rightarrow> s64 \<Rightarrow> u64 \<Rightarrow> fileop_state \<Rightarrow> fileop_state option" where
  "submit_two_paths op env old_path old_dirfd new_path st =
     (case bpf_ringbuf_reserve env 0 of
        None \<Rightarrow> Some st
      | Some evt \<Rightarrow> do {
          let st = st\<lparr>events := ringbuf_reserved (events st)\<rparr>;
          let evt = fill_event env op 0 (event_memset0 evt);
          (rc, p, st) \<leftarrow> resolve_dirfd_path env (fe_path evt) MAX_PATH_SIZE (current_tgid env)
                            old_dirfd old_path st;
          rej \<leftarrow> reject_path rc p;
          if rej then Some (st\<lparr>events := bpf_ringbuf_discard (events st)\<rparr>)
          else let (rc, q) = (if new_path \<noteq> 0
                              then copy_user_path env (fe_new_path evt) MAX_PATH_SIZE new_path
                              else (0, fe_new_path evt))
          in if rc \<noteq> 0 then Some (st\<lparr>events := bpf_ringbuf_discard (events st)\<rparr>)
          else Some (st\<lparr>events := bpf_ringbuf_submit (evt\<lparr>fe_path := p, fe_new_path := q\<rparr>) (events st)\<rparr>) })"

definition submit_rename_paths ::
  "fileop_env \<Rightarrow> u64 \<Rightarrow> s64 \<Rightarrow> u64 \<Rightarrow> fileop_state \<Rightarrow> fileop_state option" where
  "submit_rename_paths = submit_two_paths (op_code FILE_OP_RENAME)"

definition submit_hardlink_paths ::
  "fileop_env \<Rightarrow> u64 \<Rightarrow> s64 \<Rightarrow> u64 \<Rightarrow> fileop_state \<Rightarrow> fileop_state option" where
  "submit_hardlink_paths = submit_two_paths (op_code FILE_OP_HARDLINK)"

definition submit_symlink_paths ::
  "fileop_env \<Rightarrow> u64 \<Rightarrow> u64 \<Rightarrow> s64 \<Rightarrow> fileop_state \<Rightarrow> fileop_state option" where
  "submit_symlink_paths env old_path new_path new_dirfd st =
     (case bpf_ringbuf_reserve env 0 of
        None \<Rightarrow> Some st
      | Some evt \<Rightarrow> do {
          let st = st\<lparr>events := ringbuf_reserved (events st)\<rparr>;
          let evt = fill_event env (op_code FILE_OP_SYMLINK) 0 (event_memset0 evt);
          let (rc, p) = copy_user_path env (fe_path evt) MAX_PATH_SIZE old_path;
          if rc \<noteq> 0 then Some (st\<lparr>events := bpf_ringbuf_discard (events st)\<rparr>)
          else do {
            (rc, q, st) \<leftarrow> resolve_dirfd_path env (fe_new_path evt) MAX_PATH_SIZE (current_tgid env)
                              new_dirfd new_path st;
            rej \<leftarrow> reject_path rc q;
            Some (if rej then st\<lparr>events := bpf_ringbuf_discard (events st)\<rparr>
                  else st\<lparr>events := bpf_ringbuf_submit (evt\<lparr>fe_path := p, fe_new_path := q\<rparr>) (events st)\<rparr>) } })"

section \<open>Opening files\<close>

definition remember_open_path ::
  "fileop_env \<Rightarrow> u64 \<Rightarrow> s64 \<Rightarrow> u64 \<Rightarrow> fileop_state \<Rightarrow> fileop_state option" where
  "remember_open_path env filename dirfd flags st =
     (let cpu = bpf_get_smp_processor_id env; pid_tgid = bpf_get_current_pid_tgid env in
      case percpu_lookup (path_heap st) cpu 0 of
        None \<Rightarrow> Some st
      | Some path \<Rightarrow> do {
          let path = path_value_memset0 path;
          (rc, p, st) \<leftarrow> resolve_dirfd_path env (pv_path path) MAX_PATH_SIZE (tgid_of pid_tgid)
                            dirfd filename st;
          let path = path\<lparr>pv_path := p\<rparr>;
          let st = st\<lparr>path_heap := percpu_store cpu 0 path (path_heap st)\<rparr>;
          if rc \<noteq> 0 then Some st
          else do {
            n \<leftarrow> is_noise_path p;
            if n then Some st
            else do {
              let path = path\<lparr>pv_open_flags := flags\<rparr>;
              let st = st\<lparr>path_heap := percpu_store cpu 0 path (path_heap st)\<rparr>;
              Some (st\<lparr>inflight_open :=
                         hash_update MAX_ENTRIES pid_tgid path (inflight_open st)\<rparr>) } } })"

definition read_openat2_flags :: "fileop_env \<Rightarrow> enter_openat2_ctx \<Rightarrow> u64" where
  "read_openat2_flags env ctx =
     (if eo2_how ctx = 0 then 0
      else let (rc, w) = bpf_probe_read_user env 24 (eo2_how ctx);
               b = mem_write (replicate 24 0) w;
               how = \<lparr>how_flags = le_word (take 8 b), how_mode = le_word (take 8 (drop 8 b)),
                      how_resolve = le_word (take 8 (drop 16 b))\<rparr>
           in if rc \<noteq> 0 then 0 else how_flags how)"

definition finalize_open_fd :: "fileop_env \<Rightarrow> exit_ctx \<Rightarrow> fileop_state \<Rightarrow> fileop_state option" where
  "finalize_open_fd env ctx st =
     (let pid_tgid = bpf_get_current_pid_tgid env in
      case bpf_map_lookup_elem (inflight_open st) pid_tgid of
        None \<Rightarrow> Some st
      | Some path \<Rightarrow> do {
          st \<leftarrow> (if 0 \<le> sint (ex_ret ctx)
            then let key = \<lparr>key_tgid = tgid_of pid_tgid, key_fd = ucast (ex_ret ctx)\<rparr>;
                     st = st\<lparr>fd_paths := lru_update MAX_ENTRIES (lru_evict env) key path (fd_paths st)\<rparr>
                 in submit_open_event env path st
            else Some st);
          Some (st\<lparr>inflight_open := bpf_map_delete_elem pid_tgid (inflight_open st)\<rparr>) })"

section \<open>The tracepoint programs\<close>

definition trace_enter_open :: "fileop_env \<Rightarrow> enter_open_ctx \<Rightarrow> fileop_state \<Rightarrow> fileop_state option" where
  "trace_enter_open env ctx st =
     remember_open_path env (eo_filename ctx) AT_FDCWD (scast (eo_flags ctx)) st"

definition trace_enter_openat :: "fileop_env \<Rightarrow> enter_openat_ctx \<Rightarrow> fileop_state \<Rightarrow> fileop_state option" where
  "trace_enter_openat env ctx st =
     remember_open_path env (eoa_filename ctx) (eoa_dfd ctx) (scast (eoa_flags ctx)) st"

definition trace_enter_openat2 :: "fileop_env \<Rightarrow> enter_openat2_ctx \<Rightarrow> fileop_state \<Rightarrow> fileop_state option" where
  "trace_enter_openat2 env ctx st =
     remember_open_path env (eo2_filename ctx) (eo2_dfd ctx) (read_openat2_flags env ctx) st"

definition trace_exit_open :: "fileop_env \<Rightarrow> exit_ctx \<Rightarrow> fileop_state \<Rightarrow> fileop_state option" where
  "trace_exit_open env ctx st = finalize_open_fd env ctx st"

definition trace_exit_openat :: "fileop_env \<Rightarrow> exit_ctx \<Rightarrow> fileop_state \<Rightarrow> fileop_state option" where
  "trace_exit_openat env ctx st = finalize_open_fd env ctx st"

definition trace_exit_openat2 :: "fileop_env \<Rightarrow> exit_ctx \<Rightarrow> fileop_state \<Rightarrow> fileop_state option" where
  "trace_exit_openat2 env ctx st = finalize_open_fd env ctx st"

definition trace_write :: "fileop_env \<Rightarrow> enter_rw_ctx \<Rightarrow> fileop_state \<Rightarrow> fileop_state option" where
  "trace_write env ctx st =
     (if rw_count ctx = 0 then Some st
      else Some (st\<lparr>inflight_write :=
        hash_update MAX_ENTRIES (bpf_get_current_pid_tgid env) (ucast (rw_fd ctx)) (inflight_write st)\<rparr>))"

definition trace_exit_write :: "fileop_env \<Rightarrow> exit_ctx \<Rightarrow> fileop_state \<Rightarrow> fileop_state option" where
  "trace_exit_write env ctx st =
     (let pid_tgid = bpf_get_current_pid_tgid env in
      case bpf_map_lookup_elem (inflight_write st) pid_tgid of
        None \<Rightarrow> Some st
      | Some fd \<Rightarrow>
          let st = (if 0 < sint (ex_ret ctx)
            then let key = \<lparr>key_tgid = tgid_of pid_tgid, key_fd = fd\<rparr> in
              case bpf_map_lookup_elem (fd_paths st) key of
                None \<Rightarrow> st
              | Some path \<Rightarrow>
                  let path = path\<lparr>pv_write_bytes := pv_write_bytes path + ex_ret ctx\<rparr>;
                      path = set_seen_flag path FD_SEEN_WRITE
                  in st\<lparr>fd_paths := map_store key path (fd_paths st)\<rparr>
            else st)
          in Some (st\<lparr>inflight_write := bpf_map_delete_elem pid_tgid (inflight_write st)\<rparr>))"

definition trace_mmap :: "fileop_env \<Rightarrow> enter_mmap_ctx \<Rightarrow> fileop_state \<Rightarrow> fileop_state option" where
  "trace_mmap env ctx st =
     (let key = \<lparr>key_tgid = current_tgid env, key_fd = ucast (mm_fd ctx)\<rparr> in
      if sint (mm_fd ctx) < 0 then Some st
      else case bpf_map_lookup_elem (fd_paths st) key of
        None \<Rightarrow> Some st
      | Some path \<Rightarrow> do {
          (path, st) \<leftarrow> (if mm_prot ctx AND PROT_WRITE = 0 \<and> \<not> has_seen_flag path FD_SEEN_MMAP_READ
            then do { let path = set_seen_flag path FD_SEEN_MMAP_READ;
                      st \<leftarrow> submit_fd_event env path (op_code FILE_OP_MMAP_READ) 0
                               (st\<lparr>fd_paths := map_store key path (fd_paths st)\<rparr>);
                      Some (path, st) }
            else Some (path, st));
          if mm_prot ctx AND PROT_WRITE \<noteq> 0 \<and> \<not> has_seen_flag path FD_SEEN_MMAP_WRITE
          then do { let path = set_seen_flag path FD_SEEN_MMAP_WRITE;
                    submit_fd_event env path (op_code FILE_OP_MMAP_WRITE) 0
                      (st\<lparr>fd_paths := map_store key path (fd_paths st)\<rparr>) }
          else Some st })"

definition trace_close :: "fileop_env \<Rightarrow> enter_close_ctx \<Rightarrow> fileop_state \<Rightarrow> fileop_state option" where
  "trace_close env ctx st =
     (let key = \<lparr>key_tgid = current_tgid env, key_fd = cl_fd ctx\<rparr> in
      case bpf_map_lookup_elem (fd_paths st) key of
        None \<Rightarrow> Some st
      | Some path \<Rightarrow> do {
          st \<leftarrow> (if has_seen_flag path FD_SEEN_WRITE
                 then submit_fd_event env path (op_code FILE_OP_WRITE) (pv_write_bytes path) st
                 else Some st);
          Some (st\<lparr>fd_paths := bpf_map_delete_elem key (fd_paths st)\<rparr>) })"

definition trace_delete :: "fileop_env \<Rightarrow> enter_unlinkat_ctx \<Rightarrow> fileop_state \<Rightarrow> fileop_state option" where
  "trace_delete env ctx st = submit_delete_path env (ul_pathname ctx) (ul_dfd ctx) st"

definition trace_rename :: "fileop_env \<Rightarrow> enter_rename_ctx \<Rightarrow> fileop_state \<Rightarrow> fileop_state option" where
  "trace_rename env ctx st = submit_rename_paths env (rn_oldname ctx) AT_FDCWD (rn_newname ctx) st"

definition trace_renameat :: "fileop_env \<Rightarrow> enter_renameat_ctx \<Rightarrow> fileop_state \<Rightarrow> fileop_state option" where
  "trace_renameat env ctx st =
     submit_rename_paths env (rna_oldname ctx) (rna_olddfd ctx) (rna_newname ctx) st"

definition trace_renameat2 :: "fileop_env \<Rightarrow> enter_renameat2_ctx \<Rightarrow> fileop_state \<Rightarrow> fileop_state option" where
  "trace_renameat2 env ctx st =
     submit_rename_paths env (rna_oldname ctx) (rna_olddfd ctx) (rna_newname ctx) st"

definition trace_link :: "fileop_env \<Rightarrow> enter_link_ctx \<Rightarrow> fileop_state \<Rightarrow> fileop_state option" where
  "trace_link env ctx st = submit_hardlink_paths env (ln_oldname ctx) AT_FDCWD (ln_newname ctx) st"

definition trace_linkat :: "fileop_env \<Rightarrow> enter_linkat_ctx \<Rightarrow> fileop_state \<Rightarrow> fileop_state option" where
  "trace_linkat env ctx st =
     submit_hardlink_paths env (lna_oldname ctx) (lna_olddfd ctx) (lna_newname ctx) st"

definition trace_symlink :: "fileop_env \<Rightarrow> enter_symlink_ctx \<Rightarrow> fileop_state \<Rightarrow> fileop_state option" where
  "trace_symlink env ctx st = submit_symlink_paths env (sl_oldname ctx) (sl_newname ctx) AT_FDCWD st"

definition trace_symlinkat :: "fileop_env \<Rightarrow> enter_symlinkat_ctx \<Rightarrow> fileop_state \<Rightarrow> fileop_state option" where
  "trace_symlinkat env ctx st =
     submit_symlink_paths env (sla_oldname ctx) (sla_newname ctx) (sla_newdfd ctx) st"

end
