(* ===== verification/Fileop_Invariant.thy ===== *)
theory Fileop_Invariant
  imports Fileop
begin

text \<open>
  The invariant of the file-operation probe and its preservation by every program: the maps
  respect their capacity, every stored path is a non-empty C string that passed the noise
  filter, no ring-buffer reservation is left open, and every emitted event carries the paths
  its operation is documented to carry.  The preservation lemmas show at the same time that
  no program accesses memory outside of its buffers.
\<close>

section \<open>Well-formed states\<close>

definition good_path :: "bytes \<Rightarrow> bool" where
  "good_path p \<longleftrightarrow> length p = MAX_PATH_SIZE \<and> nul_terminated p \<and> cstr p \<noteq> []"

definition tracked_path :: "path_value \<Rightarrow> bool" where
  "tracked_path v \<longleftrightarrow> good_path (pv_path v) \<and> \<not> noisy_path (pv_path v)"

definition heap_ok :: "(nat \<Rightarrow> path_value list) \<Rightarrow> bool" where
  "heap_ok h \<longleftrightarrow> (\<forall>cpu. length (h cpu) = 2 \<and> (\<forall>v \<in> set (h cpu). length (pv_path v) = MAX_PATH_SIZE))"

text \<open>What a reader of the ring buffer may rely on, per operation.\<close>

definition kept_path :: "bytes \<Rightarrow> bool" where
  "kept_path p \<longleftrightarrow> good_path p \<and> \<not> noisy_path p \<and> \<not> systemd_private_path p"

definition fd_event_path :: "bytes \<Rightarrow> bool" where
  "fd_event_path p \<longleftrightarrow> good_path p \<and> \<not> noisy_path p \<and> \<not> overlay_path p"

definition no_path :: "bytes \<Rightarrow> bool" where
  "no_path p \<longleftrightarrow> p = replicate MAX_PATH_SIZE 0"

text \<open>
  Only the path that decides whether an event is relevant passes the filters.  The destination of a rename
  or hard link and the target of a symbolic link are what the process named; a destination is absent when
  the process passed a null pointer.
\<close>

primrec op_paths_ok :: "file_op_type \<Rightarrow> fileop_event \<Rightarrow> bool" where
  "op_paths_ok FILE_OP_OPEN e \<longleftrightarrow> fd_event_path (fe_path e) \<and> no_path (fe_new_path e) \<and> fe_bytes e = 0"
| "op_paths_ok FILE_OP_WRITE e \<longleftrightarrow> fd_event_path (fe_path e) \<and> no_path (fe_new_path e)"
| "op_paths_ok FILE_OP_MMAP_READ e \<longleftrightarrow>
     fd_event_path (fe_path e) \<and> \<not> shared_object_name (cstr (fe_path e)) \<and> no_path (fe_new_path e) \<and> fe_bytes e = 0"
| "op_paths_ok FILE_OP_MMAP_WRITE e \<longleftrightarrow>
     fd_event_path (fe_path e) \<and> \<not> shared_object_name (cstr (fe_path e)) \<and> no_path (fe_new_path e) \<and> fe_bytes e = 0"
| "op_paths_ok FILE_OP_DELETE e \<longleftrightarrow> kept_path (fe_path e) \<and> no_path (fe_new_path e) \<and> fe_bytes e = 0"
| "op_paths_ok FILE_OP_RENAME e \<longleftrightarrow>
     kept_path (fe_path e) \<and> (good_path (fe_new_path e) \<or> no_path (fe_new_path e)) \<and> fe_bytes e = 0"
| "op_paths_ok FILE_OP_HARDLINK e \<longleftrightarrow>
     kept_path (fe_path e) \<and> (good_path (fe_new_path e) \<or> no_path (fe_new_path e)) \<and> fe_bytes e = 0"
| "op_paths_ok FILE_OP_SYMLINK e \<longleftrightarrow>
     good_path (fe_path e) \<and> kept_path (fe_new_path e) \<and> fe_bytes e = 0"

definition event_ok :: "fileop_event \<Rightarrow> bool" where
  "event_ok e \<longleftrightarrow> length (fe_comm e) = TASK_COMM_LEN \<and> length (fe_path e) = MAX_PATH_SIZE \<and>
     length (fe_new_path e) = MAX_PATH_SIZE \<and> (\<exists>op. fe_op e = op_code op \<and> op_paths_ok op e)"

definition fileop_inv :: "fileop_state \<Rightarrow> bool" where
  "fileop_inv st \<longleftrightarrow>
     hash_ok MAX_ENTRIES (inflight_open st) \<and> hash_ok MAX_ENTRIES (inflight_write st) \<and>
     hash_ok MAX_ENTRIES (fd_paths st) \<and>
     hash.all_entries (\<lambda>_. tracked_path) (inflight_open st) \<and>
     hash.all_entries (\<lambda>_. tracked_path) (fd_paths st) \<and>
     heap_ok (path_heap st) \<and> rb_pending (events st) = 0 \<and>
     (\<forall>e \<in> set (rb_log (events st)). event_ok e)"

lemma fileop_invD:
  assumes "fileop_inv st"
  shows "map_of (inflight_open st) k = Some v \<Longrightarrow> tracked_path v"
    and "map_of (fd_paths st) key = Some v \<Longrightarrow> tracked_path v"
    and "heap_ok (path_heap st)"
  using assms by (auto simp: fileop_inv_def hash.all_entries_def)

text \<open>Appending a record to the log.\<close>

definition emit :: "fileop_event \<Rightarrow> fileop_state \<Rightarrow> fileop_state" where
  "emit e st = st\<lparr>events := (events st)\<lparr>rb_log := rb_log (events st) @ [e]\<rparr>\<rparr>"

lemma emit_sel [simp]:
  "inflight_open (emit e st) = inflight_open st" "inflight_write (emit e st) = inflight_write st"
  "path_heap (emit e st) = path_heap st" "fd_paths (emit e st) = fd_paths st"
  "rb_log (events (emit e st)) = rb_log (events st) @ [e]"
  "rb_pending (events (emit e st)) = rb_pending (events st)"
  by (simp_all add: emit_def)

lemma fileop_inv_heap [wf_intros]:
  "fileop_inv st \<Longrightarrow> heap_ok h \<Longrightarrow> fileop_inv (st\<lparr>path_heap := h\<rparr>)"
  by (simp add: fileop_inv_def)

lemma fileop_inv_emit [wf_intros]:
  "fileop_inv st \<Longrightarrow> event_ok e \<Longrightarrow>
     fileop_inv (emit e st)"
  by (simp add: fileop_inv_def)

lemma fileop_inv_open [wf_intros]:
  "fileop_inv st \<Longrightarrow> tracked_path v \<Longrightarrow>
     fileop_inv (st\<lparr>inflight_open := hash_update MAX_ENTRIES k v (inflight_open st)\<rparr>)"
  by (simp add: fileop_inv_def hash_ok_update hash.all_entries_update)

lemma fileop_inv_remember [wf_intros]:
  "fileop_inv st \<Longrightarrow> heap_ok h \<Longrightarrow> tracked_path v \<Longrightarrow>
     fileop_inv (st\<lparr>path_heap := h, inflight_open := hash_update MAX_ENTRIES k v (inflight_open st)\<rparr>)"
  using fileop_inv_open [OF fileop_inv_heap [of st h], of v k] by simp

lemma fileop_inv_open_delete [wf_intros]:
  "fileop_inv st \<Longrightarrow> fileop_inv (st\<lparr>inflight_open := AList.delete k (inflight_open st)\<rparr>)"
  by (simp add: fileop_inv_def hash_ok_delete hash.all_entries_delete [of MAX_ENTRIES])

lemma fileop_inv_write [wf_intros]:
  "fileop_inv st \<Longrightarrow> fileop_inv (st\<lparr>inflight_write := hash_update MAX_ENTRIES k v (inflight_write st)\<rparr>)"
  by (simp add: fileop_inv_def hash_ok_update)

lemma fileop_inv_write_delete [wf_intros]:
  "fileop_inv st \<Longrightarrow> fileop_inv (st\<lparr>inflight_write := AList.delete k (inflight_write st)\<rparr>)"
  by (simp add: fileop_inv_def hash_ok_delete)

lemma fileop_inv_fd [wf_intros]:
  "fileop_inv st \<Longrightarrow> tracked_path v \<Longrightarrow>
     fileop_inv (st\<lparr>fd_paths := lru_update MAX_ENTRIES ev k v (fd_paths st)\<rparr>)"
  by (simp add: fileop_inv_def hash_ok_lru lru.all_entries_update)

lemma fileop_inv_fd_delete [wf_intros]:
  "fileop_inv st \<Longrightarrow> fileop_inv (st\<lparr>fd_paths := AList.delete k (fd_paths st)\<rparr>)"
  by (simp add: fileop_inv_def hash_ok_delete hash.all_entries_delete [of MAX_ENTRIES])

lemma fileop_inv_fd_store [wf_intros]:
  assumes "fileop_inv st" and "map_of (fd_paths st) k = Some w" and "tracked_path v"
  shows "fileop_inv (st\<lparr>fd_paths := map_store k v (fd_paths st)\<rparr>)"
  using assms by (auto simp: fileop_inv_def hash_ok_store hash.all_entries_def)

lemma fileop_inv_wrote [wf_intros]:
  assumes "fileop_inv st" and "map_of (fd_paths st) k = Some w" and "tracked_path v"
  shows "fileop_inv (st\<lparr>fd_paths := map_store k v (fd_paths st),
                       inflight_write := AList.delete i (inflight_write st)\<rparr>)"
  using fileop_inv_write_delete [OF fileop_inv_fd_store [OF assms], of i] by simp

section \<open>Path lookup\<close>

lemma copy_user_path_cases:
  assumes "env_ok byte env" and "length dst = MAX_PATH_SIZE"
  obtains (ok) d where "copy_user_path env dst MAX_PATH_SIZE src = (0, d)" "good_path d" "src \<noteq> 0"
  | (fail) d where "copy_user_path env dst MAX_PATH_SIZE src = (-1, d)" "length d = MAX_PATH_SIZE"
proof -
  let ?r = "bpf_probe_read_user_str env MAX_PATH_SIZE src"
  let ?d = "mem_write dst (snd ?r)"
  note mem = env_okD(1) [OF assms(1)]
  show thesis
  proof (cases "src \<noteq> 0 \<and> 1 < fst ?r")
    case True
    then have "0 < fst ?r" by simp
    note w = probe_memory.str_written [OF mem this assms(2)]
    have "good_path ?d"
      using w(1,2,4) True by (auto simp: good_path_def)
    with True show thesis
      by (intro ok [of ?d]) (auto simp: copy_user_path_def split: prod.splits)
  next
    case False
    have "length ?d = MAX_PATH_SIZE"
      using probe_memory.str_size [OF mem, of MAX_PATH_SIZE src] assms(2) by simp
    with False assms(2) show thesis
      by (intro fail [of "if src = 0 then dst else ?d"])
         (auto simp: copy_user_path_def split: prod.splits)
  qed
qed

lemma copy_user_path_ok:
  assumes "env_ok byte env" and "length dst = MAX_PATH_SIZE"
  obtains rc d where "copy_user_path env dst MAX_PATH_SIZE src = (rc, d)" "length d = MAX_PATH_SIZE"
    "rc = 0 \<Longrightarrow> good_path d"
  by (rule copy_user_path_cases [OF assms, of src]) (auto intro: that simp: good_path_def)

lemma is_absolute_path_spec [buf_simps]:
  "length p = MAX_PATH_SIZE \<Longrightarrow> is_absolute_path p = Some (p ! 0 = byte_of_char CHR ''/'')"
  by (simp add: is_absolute_path_def MAX_PATH_SIZE_def)

lemma heap_ok_lookup:
  assumes "heap_ok h" and "unat idx < 2"
  shows "\<exists>v. percpu_lookup h cpu idx = Some v \<and> length (pv_path v) = MAX_PATH_SIZE"
proof -
  have "h cpu ! unat idx \<in> set (h cpu)"
    using assms by (simp add: heap_ok_def)
  then have "length (pv_path (h cpu ! unat idx)) = MAX_PATH_SIZE"
    using assms(1) unfolding heap_ok_def by blast
  with assms show ?thesis by (simp add: heap_ok_def percpu_lookup_def)
qed

lemma heap_ok_store [wf_intros]:
  assumes "heap_ok h" and "length (pv_path v) = MAX_PATH_SIZE"
  shows "heap_ok (percpu_store cpu idx v h)"
  using assms set_update_subset_insert [of "h cpu" "unat idx" v]
  by (force simp: heap_ok_def percpu_store_def)

lemma join_paths_good:
  assumes "length dst = MAX_PATH_SIZE" and "good_path base" and "good_path rel"
  shows "\<exists>d. join_paths dst MAX_PATH_SIZE base rel = Some (0, d) \<and> good_path d \<and>
    cstr d = take (MAX_PATH_SIZE - 1) (joined (cstr base) (cstr rel))"
  using join_paths_joined [of dst MAX_PATH_SIZE base rel] assms
  by (auto simp: good_path_def MAX_PATH_SIZE_def joined_def)

text \<open>
  What resolution gives: a non-empty path or the code -1, and no change of state outside of
  the per-CPU scratch array.
\<close>

lemma resolve_dirfd_path_ok:
  assumes env: "env_ok byte env" and dst: "length dst = MAX_PATH_SIZE"
    and heap: "heap_ok (path_heap st)"
    and fds: "\<And>k v. map_of (fd_paths st) k = Some v \<Longrightarrow> good_path (pv_path v)"
  shows "\<exists>rc p h. resolve_dirfd_path env dst MAX_PATH_SIZE tgid dirfd src st =
      Some (rc, p, st\<lparr>path_heap := h\<rparr>) \<and>
    heap_ok h \<and> length p = MAX_PATH_SIZE \<and> (rc = 0 \<longrightarrow> good_path p)"
proof -
  consider (ok) d where "copy_user_path env dst MAX_PATH_SIZE src = (0, d)" "good_path d" "src \<noteq> 0"
    | (fail) d where "copy_user_path env dst MAX_PATH_SIZE src = (-1, d)" "length d = MAX_PATH_SIZE"
    by (rule copy_user_path_cases [OF env dst])
  then show ?thesis
  proof cases
    case (fail d)
    with heap dst show ?thesis
      by (intro exI [of _ "-1"] exI [of _ "if src = 0 then dst else d"] exI [of _ "path_heap st"])
        (simp add: resolve_dirfd_path_def)
  next
    case (ok d)
    then have d: "length d = MAX_PATH_SIZE" by (simp add: good_path_def)
    show ?thesis
    proof (cases "d ! 0 = byte_of_char CHR ''/'' \<or> dirfd = AT_FDCWD \<or> sint dirfd < 0")
      case True
      with ok d heap show ?thesis
        by (intro exI [of _ 0] exI [of _ d] exI [of _ "path_heap st"])
          (simp add: resolve_dirfd_path_def is_absolute_path_spec)
    next
      case False
      let ?cpu = "bpf_get_smp_processor_id env"
      obtain v where v: "percpu_lookup (path_heap st) ?cpu 1 = Some v" "length (pv_path v) = MAX_PATH_SIZE"
        using heap_ok_lookup [OF heap, of 1 ?cpu] by auto
      let ?h = "percpu_store ?cpu 1 (v\<lparr>pv_path := d\<rparr>) (path_heap st)"
      have h: "heap_ok ?h" using heap d by (simp add: heap_ok_store)
      show ?thesis
      proof (cases "map_of (fd_paths st) \<lparr>key_tgid = tgid, key_fd = ucast dirfd\<rparr>")
        case None
        with False ok d v h show ?thesis
          by (intro exI [of _ 0] exI [of _ d] exI [of _ ?h])
            (simp add: resolve_dirfd_path_def is_absolute_path_spec)
      next
        case (Some base)
        then have "good_path (pv_path base)"
          by (rule fds)
        from join_paths_good [OF d this ok(2)] obtain e where
          "join_paths d MAX_PATH_SIZE (pv_path base) d = Some (0, e)" "good_path e" by blast
        with Some False ok d v h show ?thesis
          by (intro exI [of _ 0] exI [of _ e] exI [of _ ?h])
            (simp add: resolve_dirfd_path_def is_absolute_path_spec good_path_def)
      qed
    qed
    qed
qed

section \<open>Emitting events\<close>

lemma event_memset0_eq [simp]: "event_memset0 evt = zero_event"
  by (simp add: event_memset0_def)

lemma length_zero_event [simp]:
  "length (fe_comm zero_event) = TASK_COMM_LEN" "length (fe_path zero_event) = MAX_PATH_SIZE"
  "length (fe_new_path zero_event) = MAX_PATH_SIZE" "fe_flags zero_event = 0"
  by (simp_all add: zero_event_def)

lemma fill_event_sel [simp]:
  "fe_op (fill_event env op n e) = op" "fe_bytes (fill_event env op n e) = n"
  "fe_path (fill_event env op n e) = fe_path e" "fe_new_path (fill_event env op n e) = fe_new_path e"
  "fe_comm (fill_event env op n e) = bpf_get_current_comm env TASK_COMM_LEN"
  by (simp_all add: fill_event_def)

text \<open>The event a tracked descriptor gives, and when it is suppressed.\<close>

definition fd_event :: "fileop_env \<Rightarrow> path_value \<Rightarrow> file_op_type \<Rightarrow> u64 \<Rightarrow> fileop_event" where
  "fd_event env path op n =
     (fill_event env (op_code op) n zero_event)\<lparr>fe_flags := pv_open_flags path, fe_path := pv_path path\<rparr>"

definition suppressed :: "path_value \<Rightarrow> file_op_type \<Rightarrow> bool" where
  "suppressed path op \<longleftrightarrow>
     op \<in> {FILE_OP_MMAP_READ, FILE_OP_MMAP_WRITE} \<and> shared_object_name (cstr (pv_path path)) \<or>
     overlay_path (pv_path path)"

lemma op_code_inj [simp]: "op_code a = op_code b \<longleftrightarrow> a = b"
  by (cases a; cases b) simp_all

lemma should_drop_fd_event_spec:
  "good_path (pv_path path) \<Longrightarrow>
     should_drop_fd_event path (op_code op) = Some (suppressed path op)"
  by (auto simp: should_drop_fd_event_def good_path_def suppressed_def overlay_noise_spec
      path_looks_like_shared_object_spec simp del: op_code.simps)

lemma submit_fd_event_spec:
  assumes "good_path (pv_path path)"
  shows "submit_fd_event env path (op_code op) n st =
    Some (if suppressed path op \<or> bpf_ringbuf_reserve env 0 = None then st
          else emit (fd_event env path op n) st)"
  using assms
  by (auto simp: submit_fd_event_def should_drop_fd_event_spec fd_event_def good_path_def emit_def
      split: option.splits)

lemma fd_event_ok:
  assumes "env_ok byte env" and "tracked_path path" and "\<not> suppressed path op"
    and "op \<in> {FILE_OP_OPEN, FILE_OP_WRITE, FILE_OP_MMAP_READ, FILE_OP_MMAP_WRITE}"
    and "op \<noteq> FILE_OP_WRITE \<Longrightarrow> n = 0"
  shows "event_ok (fd_event env path op n)"
proof -
  have "op_paths_ok op (fd_event env path op n)"
    using assms(2-5)
    by (auto simp: fd_event_def suppressed_def tracked_path_def fd_event_path_def no_path_def zero_event_def
        fill_event_def)
  with assms(1,2) show ?thesis
    by (auto simp: event_ok_def fd_event_def tracked_path_def good_path_def env_ok_def)
qed

lemma submit_fd_event_ok:
  assumes "env_ok byte env" and "fileop_inv st" and "tracked_path path"
    and "op \<in> {FILE_OP_OPEN, FILE_OP_WRITE, FILE_OP_MMAP_READ, FILE_OP_MMAP_WRITE}"
    and "op \<noteq> FILE_OP_WRITE \<Longrightarrow> n = 0"
  shows "\<exists>st'. submit_fd_event env path (op_code op) n st = Some st' \<and> fileop_inv st'"
  using assms fd_event_ok [OF assms(1,3) _ assms(4,5)]
  by (simp add: submit_fd_event_spec tracked_path_def fileop_inv_emit)

lemma reject_path_spec:
  "length p = MAX_PATH_SIZE \<Longrightarrow>
     reject_path rc p = Some (rc \<noteq> 0 \<or> noisy_path p \<or> systemd_private_path p)"
  by (auto simp: reject_path_def is_noise_path_spec systemd_noise_spec)

text \<open>A state in which one record is reserved: what the emitters of paths resolve in.\<close>

abbreviation reserving :: "fileop_state \<Rightarrow> fileop_state" where
  "reserving st \<equiv> st\<lparr>events := ringbuf_reserved (events st)\<rparr>"

lemma resolve_reserving:
  assumes "env_ok byte env" and "fileop_inv st" and "length dst = MAX_PATH_SIZE"
  obtains rc p h where
    "resolve_dirfd_path env dst MAX_PATH_SIZE tgid dirfd src (reserving st) =
       Some (rc, p, (reserving st)\<lparr>path_heap := h\<rparr>)"
    "heap_ok h" "length p = MAX_PATH_SIZE" "rc = 0 \<Longrightarrow> good_path p"
  using resolve_dirfd_path_ok [OF assms(1,3), of "reserving st" tgid dirfd src]
    fileop_invD(2,3) [OF assms(2)]
  by (auto simp: tracked_path_def)

lemma event_ok_path:
  assumes "env_ok byte env" and "op_paths_ok op e" and "fe_op e = op_code op"
    and "fe_comm e = bpf_get_current_comm env TASK_COMM_LEN"
    and "length (fe_path e) = MAX_PATH_SIZE" and "length (fe_new_path e) = MAX_PATH_SIZE"
  shows "event_ok e"
  using assms by (auto simp: event_ok_def env_ok_def)

lemma submit_delete_path_ok:
  assumes "env_ok byte env" and "fileop_inv st"
  shows "\<exists>st'. submit_delete_path env path dirfd st = Some st' \<and> fileop_inv st'"
proof (cases "bpf_ringbuf_reserve env 0")
  case None
  with assms show ?thesis by (simp add: submit_delete_path_def)
next
  case (Some evt)
  have "length (fe_path (fill_event env 3 0 zero_event)) = MAX_PATH_SIZE" by simp
  from resolve_reserving [OF assms this, of "current_tgid env" dirfd path]
  obtain rc p h where r: "resolve_dirfd_path env (fe_path zero_event) MAX_PATH_SIZE (current_tgid env)
      dirfd path (reserving st) = Some (rc, p, (reserving st)\<lparr>path_heap := h\<rparr>)"
    "heap_ok h" "length p = MAX_PATH_SIZE" "rc = 0 \<Longrightarrow> good_path p"
    by auto
  let ?e = "(fill_event env (op_code FILE_OP_DELETE) 0 zero_event)\<lparr>fe_path := p\<rparr>"
  have "event_ok ?e" if "rc = 0" "\<not> noisy_path p" "\<not> systemd_private_path p"
    using that r
    by (intro event_ok_path [OF assms(1), of FILE_OP_DELETE])
      (auto simp: kept_path_def no_path_def zero_event_def fill_event_def)
  then have "fileop_inv (emit ?e (st\<lparr>path_heap := h\<rparr>))"
    if "rc = 0" "\<not> noisy_path p" "\<not> systemd_private_path p"
    using that assms(2) r(2) by (simp add: wf_intros)
  with Some r assms(2) show ?thesis
    by (auto simp: submit_delete_path_def reject_path_spec emit_def wf_intros)
qed

text \<open>Rename and hard link: two paths, the first of which must be relevant.\<close>

lemma submit_two_paths_ok:
  assumes "env_ok byte env" and "fileop_inv st" and "op \<in> {FILE_OP_RENAME, FILE_OP_HARDLINK}"
  shows "\<exists>st'. submit_two_paths (op_code op) env old old_dirfd new st = Some st' \<and> fileop_inv st'"
proof (cases "bpf_ringbuf_reserve env 0")
  case None
  with assms show ?thesis by (simp add: submit_two_paths_def)
next
  case (Some evt)
  have len: "length (fe_path zero_event) = MAX_PATH_SIZE" "length (fe_new_path zero_event) = MAX_PATH_SIZE"
    by simp_all
  from resolve_reserving [OF assms(1,2) len(1), of "current_tgid env" old_dirfd old]
  obtain rc p h where r: "resolve_dirfd_path env (fe_path zero_event) MAX_PATH_SIZE (current_tgid env)
      old_dirfd old (reserving st) = Some (rc, p, (reserving st)\<lparr>path_heap := h\<rparr>)"
    "heap_ok h" "length p = MAX_PATH_SIZE" "rc = 0 \<Longrightarrow> good_path p"
    by auto
  obtain rc2 q where q: "(if new \<noteq> 0 then copy_user_path env (fe_new_path zero_event) MAX_PATH_SIZE new
      else (0, fe_new_path zero_event)) = (rc2, q)" "length q = MAX_PATH_SIZE" "rc2 = 0 \<Longrightarrow> good_path q \<or> no_path q"
  proof (cases "new = 0")
    case True
    then show ?thesis using len(2) by (intro that [of 0 "fe_new_path zero_event"]) (simp_all add: no_path_def zero_event_def)
  next
    case False
    obtain rc2 q where "copy_user_path env (fe_new_path zero_event) MAX_PATH_SIZE new = (rc2, q)"
      "length q = MAX_PATH_SIZE" "rc2 = 0 \<Longrightarrow> good_path q"
      by (rule copy_user_path_ok [OF assms(1) len(2), of new]) (rule that)
    then show ?thesis using False by (intro that [of rc2 q]) simp_all
  qed
  let ?e = "(fill_event env (op_code op) 0 zero_event)\<lparr>fe_path := p, fe_new_path := q\<rparr>"
  have "event_ok ?e" if "rc = 0" "rc2 = 0" "\<not> noisy_path p" "\<not> systemd_private_path p"
    using that r q(2,3) assms(3)
    by (intro event_ok_path [OF assms(1), of op]) (auto simp: kept_path_def)
  then have "fileop_inv (emit ?e (st\<lparr>path_heap := h\<rparr>))"
    if "rc = 0" "rc2 = 0" "\<not> noisy_path p" "\<not> systemd_private_path p"
    using that assms(2) r(2) by (simp add: wf_intros)
  with Some r q assms(2) show ?thesis
    by (auto simp: submit_two_paths_def Let_def reject_path_spec emit_def wf_intros)
qed

lemma submit_symlink_paths_ok:
  assumes "env_ok byte env" and "fileop_inv st"
  shows "\<exists>st'. submit_symlink_paths env old new new_dirfd st = Some st' \<and> fileop_inv st'"
proof (cases "bpf_ringbuf_reserve env 0")
  case None
  with assms show ?thesis by (simp add: submit_symlink_paths_def)
next
  case (Some evt)
  have len: "length (fe_path zero_event) = MAX_PATH_SIZE" "length (fe_new_path zero_event) = MAX_PATH_SIZE"
    by simp_all
  obtain rc1 p where p: "copy_user_path env (fe_path zero_event) MAX_PATH_SIZE old = (rc1, p)"
    "rc1 = 0 \<Longrightarrow> good_path p"
    by (rule copy_user_path_ok [OF assms(1) len(1), of old]) (rule that)
  from resolve_reserving [OF assms len(2), of "current_tgid env" new_dirfd new]
  obtain rc q h where r: "resolve_dirfd_path env (fe_new_path zero_event) MAX_PATH_SIZE (current_tgid env)
      new_dirfd new (reserving st) = Some (rc, q, (reserving st)\<lparr>path_heap := h\<rparr>)"
    "heap_ok h" "length q = MAX_PATH_SIZE" "rc = 0 \<Longrightarrow> good_path q"
    by auto
  let ?e = "(fill_event env (op_code FILE_OP_SYMLINK) 0 zero_event)\<lparr>fe_path := p, fe_new_path := q\<rparr>"
  have "event_ok ?e" if "rc1 = 0" "rc = 0" "\<not> noisy_path q" "\<not> systemd_private_path q"
    using that r p(2)
    by (intro event_ok_path [OF assms(1), of FILE_OP_SYMLINK]) (auto simp: kept_path_def good_path_def)
  then have "fileop_inv (emit ?e (st\<lparr>path_heap := h\<rparr>))"
    if "rc1 = 0" "rc = 0" "\<not> noisy_path q" "\<not> systemd_private_path q"
    using that assms(2) r(2) by (simp add: wf_intros)
  with Some r p assms(2) show ?thesis
    by (auto simp: submit_symlink_paths_def Let_def reject_path_spec emit_def wf_intros)
qed

section \<open>Opening, writing, mapping, closing\<close>

lemma remember_open_path_ok:
  assumes "env_ok byte env" and "fileop_inv st"
  shows "\<exists>st'. remember_open_path env filename dirfd flags st = Some st' \<and> fileop_inv st'"
proof -
  let ?cpu = "bpf_get_smp_processor_id env"
  note heap = fileop_invD(3) [OF assms(2)]
  obtain v where v: "percpu_lookup (path_heap st) ?cpu 0 = Some v"
    using heap_ok_lookup [OF heap, of 0] by auto
  have "length (pv_path (path_value_memset0 v)) = MAX_PATH_SIZE"
    by (simp add: path_value_memset0_def)
  from resolve_dirfd_path_ok [OF assms(1) this heap, of "current_tgid env" dirfd filename]
  obtain rc p h where r: "resolve_dirfd_path env (pv_path (path_value_memset0 v)) MAX_PATH_SIZE
      (current_tgid env) dirfd filename st = Some (rc, p, st\<lparr>path_heap := h\<rparr>)"
    "heap_ok h" "length p = MAX_PATH_SIZE" "rc = 0 \<longrightarrow> good_path p"
    using fileop_invD(2) [OF assms(2)] by (auto simp: tracked_path_def)
  have "heap_ok (percpu_store ?cpu 0 w h)" "heap_ok (percpu_store ?cpu 0 w' (percpu_store ?cpu 0 w h))"
    if "pv_path w = p" "pv_path w' = p" for w w'
    using that r by (simp_all add: heap_ok_store)
  moreover have "tracked_path (path_value_memset0 v\<lparr>pv_path := p, pv_open_flags := flags\<rparr>)"
    if "rc = 0" "\<not> noisy_path p"
    using that r by (simp add: tracked_path_def)
  ultimately show ?thesis
    using v r assms(2)
    by (auto simp: remember_open_path_def Let_def is_noise_path_spec intro!: wf_intros)
qed

lemma finalize_open_fd_ok:
  assumes "env_ok byte env" and "fileop_inv st"
  shows "\<exists>st'. finalize_open_fd env ctx st = Some st' \<and> fileop_inv st'"
proof (cases "map_of (inflight_open st) (bpf_get_current_pid_tgid env)")
  case None
  with assms show ?thesis by (simp add: finalize_open_fd_def)
next
  case (Some path)
  then have path: "tracked_path path"
    using fileop_invD(1) [OF assms(2)] by blast
  let ?st = "st\<lparr>fd_paths := lru_update MAX_ENTRIES (lru_evict env)
    \<lparr>key_tgid = current_tgid env, key_fd = ucast (ex_ret ctx)\<rparr> path (fd_paths st)\<rparr>"
  have "fileop_inv ?st" using assms path by (simp add: wf_intros)
  from submit_fd_event_ok [OF assms(1) this path, of FILE_OP_OPEN 0]
  obtain st' where "submit_open_event env path ?st = Some st'" "fileop_inv st'"
    by (auto simp: submit_open_event_def)
  with Some assms show ?thesis
    by (auto simp: finalize_open_fd_def Let_def intro!: wf_intros)
qed

lemma tracked_path_seen [simp]: "tracked_path (set_seen_flag path f) = tracked_path path"
  by (simp add: set_seen_flag_def tracked_path_def)

lemma tracked_path_bytes [simp]: "tracked_path (path\<lparr>pv_write_bytes := n\<rparr>) = tracked_path path"
  by (simp add: tracked_path_def)

lemma trace_exit_write_ok:
  assumes "fileop_inv st"
  shows "\<exists>st'. trace_exit_write env ctx st = Some st' \<and> fileop_inv st'"
  using assms fileop_invD(2) [OF assms]
  by (auto simp: trace_exit_write_def Let_def split: option.splits intro!: wf_intros)

lemma trace_mmap_ok:
  assumes "env_ok byte env" and "fileop_inv st"
  shows "\<exists>st'. trace_mmap env ctx st = Some st' \<and> fileop_inv st'"
proof (cases "map_of (fd_paths st) \<lparr>key_tgid = current_tgid env, key_fd = ucast (mm_fd ctx)\<rparr>")
  case None
  with assms show ?thesis by (simp add: trace_mmap_def Let_def)
next
  case (Some path)
  let ?key = "\<lparr>key_tgid = current_tgid env, key_fd = ucast (mm_fd ctx)\<rparr>"
  have path: "tracked_path path"
    using fileop_invD(2) [OF assms(2) Some] .
  have sub: "\<exists>st'. submit_fd_event env (set_seen_flag path f) (op_code op) 0
      (st\<lparr>fd_paths := map_store ?key (set_seen_flag path f) (fd_paths st)\<rparr>) = Some st' \<and> fileop_inv st'"
    if "op \<in> {FILE_OP_MMAP_READ, FILE_OP_MMAP_WRITE}" for f op
  proof -
    have "fileop_inv (st\<lparr>fd_paths := map_store ?key (set_seen_flag path f) (fd_paths st)\<rparr>)"
      using assms(2) Some path by (simp add: fileop_inv_fd_store)
    from submit_fd_event_ok [OF assms(1) this, of "set_seen_flag path f" op 0] that path
    show ?thesis by auto
  qed
  show ?thesis
    using sub [of FILE_OP_MMAP_READ] sub [of FILE_OP_MMAP_WRITE] assms(2) Some
    by (auto simp: trace_mmap_def Let_def simp del: op_code.simps)
qed

lemma trace_close_ok:
  assumes "env_ok byte env" and "fileop_inv st"
  shows "\<exists>st'. trace_close env ctx st = Some st' \<and> fileop_inv st'"
proof (cases "map_of (fd_paths st) \<lparr>key_tgid = current_tgid env, key_fd = cl_fd ctx\<rparr>")
  case None
  with assms show ?thesis by (simp add: trace_close_def Let_def)
next
  case (Some path)
  have "tracked_path path" using fileop_invD(2) [OF assms(2) Some] .
  with submit_fd_event_ok [OF assms this, of FILE_OP_WRITE "pv_write_bytes path"] Some assms(2)
  show ?thesis
    by (auto simp: trace_close_def Let_def intro!: wf_intros simp del: op_code.simps)
qed

section \<open>One step of the probe\<close>

text \<open>A run of the probe is a sequence of tracepoint hits, each with its environment.\<close>

datatype fileop_call =
  EnterOpen enter_open_ctx | EnterOpenat enter_openat_ctx | EnterOpenat2 enter_openat2_ctx
| ExitOpen exit_ctx | ExitOpenat exit_ctx | ExitOpenat2 exit_ctx
| EnterWrite enter_rw_ctx | ExitWrite exit_ctx | EnterMmap enter_mmap_ctx
| EnterClose enter_close_ctx | EnterUnlinkat enter_unlinkat_ctx
| EnterRename enter_rename_ctx | EnterRenameat enter_renameat_ctx | EnterRenameat2 enter_renameat2_ctx
| EnterLink enter_link_ctx | EnterLinkat enter_linkat_ctx
| EnterSymlink enter_symlink_ctx | EnterSymlinkat enter_symlinkat_ctx

primrec fileop_prog :: "fileop_call \<Rightarrow> fileop_env \<Rightarrow> fileop_state \<Rightarrow> fileop_state option" where
  "fileop_prog (EnterOpen c) env = trace_enter_open env c"
| "fileop_prog (EnterOpenat c) env = trace_enter_openat env c"
| "fileop_prog (EnterOpenat2 c) env = trace_enter_openat2 env c"
| "fileop_prog (ExitOpen c) env = trace_exit_open env c"
| "fileop_prog (ExitOpenat c) env = trace_exit_openat env c"
| "fileop_prog (ExitOpenat2 c) env = trace_exit_openat2 env c"
| "fileop_prog (EnterWrite c) env = trace_write env c"
| "fileop_prog (ExitWrite c) env = trace_exit_write env c"
| "fileop_prog (EnterMmap c) env = trace_mmap env c"
| "fileop_prog (EnterClose c) env = trace_close env c"
| "fileop_prog (EnterUnlinkat c) env = trace_delete env c"
| "fileop_prog (EnterRename c) env = trace_rename env c"
| "fileop_prog (EnterRenameat c) env = trace_renameat env c"
| "fileop_prog (EnterRenameat2 c) env = trace_renameat2 env c"
| "fileop_prog (EnterLink c) env = trace_link env c"
| "fileop_prog (EnterLinkat c) env = trace_linkat env c"
| "fileop_prog (EnterSymlink c) env = trace_symlink env c"
| "fileop_prog (EnterSymlinkat c) env = trace_symlinkat env c"

lemmas fileop_prog_defs =
  trace_enter_open_def trace_enter_openat_def trace_enter_openat2_def trace_exit_open_def
  trace_exit_openat_def trace_exit_openat2_def trace_write_def trace_delete_def trace_rename_def
  trace_renameat_def trace_renameat2_def trace_link_def trace_linkat_def trace_symlink_def
  trace_symlinkat_def submit_rename_paths_def submit_hardlink_paths_def

lemma fileop_prog_ok:
  assumes "env_ok byte env" and "fileop_inv st"
  shows "\<exists>st'. fileop_prog c env st = Some st' \<and> fileop_inv st'"
  using assms remember_open_path_ok [OF assms] finalize_open_fd_ok [OF assms]
    trace_exit_write_ok [OF assms(2)] trace_mmap_ok [OF assms] trace_close_ok [OF assms]
    submit_delete_path_ok [OF assms] submit_two_paths_ok [OF assms]
    submit_symlink_paths_ok [OF assms]
  by (cases c) (simp_all add: fileop_prog_defs fileop_inv_write del: op_code.simps)

inductive fileop_reachable :: "fileop_state \<Rightarrow> bool" where
  start: "heap_ok h \<Longrightarrow> fileop_reachable
    \<lparr>inflight_open = [], inflight_write = [], path_heap = h, fd_paths = [],
     events = \<lparr>rb_pending = 0, rb_log = []\<rparr>\<rparr>"
| step: "fileop_reachable st \<Longrightarrow> env_ok byte env \<Longrightarrow> fileop_prog c env st = Some st' \<Longrightarrow>
    fileop_reachable st'"

lemma fileop_reachable_inv: "fileop_reachable st \<Longrightarrow> fileop_inv st"
proof (induction rule: fileop_reachable.induct)
  case (start h)
  then show ?case by (simp add: fileop_inv_def hash.all_entries_def hash_ok_def)
next
  case (step st byte env c st')
  with fileop_prog_ok [OF step.hyps(2) step.IH, of c] show ?case by auto
qed

interpretation file_probe: safe_probe "\<lambda>(c, env). fileop_prog c env" "\<lambda>(c, env). \<exists>byte. env_ok byte env" fileop_inv
  by unfold_locales (auto dest: fileop_prog_ok)

end
