(* ===== verification/Fileop_Sessions.thy ===== *)
theory Fileop_Sessions
  imports Fileop_Invariant
begin

text \<open>
  What sequences of tracepoint hits of the file-operation probe amount to: the life of a
  descriptor from open through writes and mappings to close, the separation of processes and
  threads, and what a filtered open leaves behind.
\<close>

section \<open>Frames\<close>

lemma resolve_frame:
  "resolve_dirfd_path env dst sz tgid dirfd src st = Some (rc, p, st') \<Longrightarrow>
     st' = st\<lparr>path_heap := path_heap st'\<rparr>"
  by (auto simp: resolve_dirfd_path_def Let_def bind_eq_Some_conv split: if_splits prod.splits option.splits)

lemma submit_fd_event_frame:
  assumes "submit_fd_event env path op n st = Some st'"
  shows "st' = st\<lparr>events := events st'\<rparr>"
  using assms
  by (auto simp: submit_fd_event_def Let_def bind_eq_Some_conv split: if_splits option.splits)

text \<open>The emitters of paths change the log and the scratch array only.\<close>

definition keeps_maps :: "fileop_state \<Rightarrow> fileop_state \<Rightarrow> bool" where
  "keeps_maps st st' \<longleftrightarrow> inflight_open st' = inflight_open st \<and>
     inflight_write st' = inflight_write st \<and> fd_paths st' = fd_paths st"

lemma keeps_maps_resolve:
  "resolve_dirfd_path env dst sz tgid dirfd src st = Some (rc, p, st') \<Longrightarrow> keeps_maps st st'"
  using resolve_frame [of env dst sz tgid dirfd src st rc p st']
  by (metis (no_types, lifting) fileop_state.select_convs(1,2,4) fileop_state.surjective
      fileop_state.update_convs(3) keeps_maps_def)

lemma keeps_maps_delete:
  "submit_delete_path env path dirfd st = Some st' \<Longrightarrow> keeps_maps st st'"
  by (auto simp: submit_delete_path_def bind_eq_Some_conv keeps_maps_def Let_def
      dest!: keeps_maps_resolve split: option.splits if_splits)

lemma keeps_maps_two:
  "submit_two_paths op env old old_dirfd new st = Some st' \<Longrightarrow> keeps_maps st st'"
  by (auto simp: submit_two_paths_def bind_eq_Some_conv keeps_maps_def Let_def
      dest!: keeps_maps_resolve split: option.splits if_splits prod.splits)

lemma keeps_maps_symlink:
  "submit_symlink_paths env old new new_dirfd st = Some st' \<Longrightarrow> keeps_maps st st'"
  by (auto simp: submit_symlink_paths_def bind_eq_Some_conv keeps_maps_def Let_def
      dest!: keeps_maps_resolve split: option.splits if_splits prod.splits)

section \<open>Threads and processes do not disturb each other\<close>

text \<open>
  A run in one thread leaves the in-flight entries of every other thread alone, and the
  descriptors of every other process too, unless the LRU map evicts them.
\<close>

definition isolated :: "fileop_env \<Rightarrow> fileop_state \<Rightarrow> fileop_state \<Rightarrow> bool" where
  "isolated env st st' \<longleftrightarrow>
     (\<forall>p. p \<noteq> bpf_get_current_pid_tgid env \<longrightarrow>
        map_of (inflight_open st') p = map_of (inflight_open st) p \<and>
        map_of (inflight_write st') p = map_of (inflight_write st) p) \<and>
     (\<forall>k. key_tgid k \<noteq> current_tgid env \<longrightarrow>
        map_of (fd_paths st') k = map_of (fd_paths st) k \<or>
        lru_evict env k \<and> map_of (fd_paths st') k = None)"

lemma isolated_keeps_maps: "keeps_maps st st' \<Longrightarrow> isolated env st st'"
  by (simp add: isolated_def keeps_maps_def)

lemma isolated_remember:
  assumes "fileop_inv st" and "remember_open_path env filename dirfd flags st = Some st'"
  shows "isolated env st st'"
  using assms
  by (auto simp: remember_open_path_def Let_def bind_eq_Some_conv isolated_def keeps_maps_def
      fileop_inv_def hash.update_frame [of MAX_ENTRIES]
      dest!: keeps_maps_resolve split: option.splits if_splits)

lemma submit_fd_event_keeps:
  "submit_fd_event env path op n st = Some st' \<Longrightarrow>
     fd_paths st' = fd_paths st \<and> inflight_open st' = inflight_open st \<and>
     inflight_write st' = inflight_write st"
  using submit_fd_event_frame [of env path op n st st']
  by (metis (no_types, lifting) fileop_state.select_convs(1,2,4) fileop_state.surjective
      fileop_state.update_convs(5))

lemma isolated_finalize:
  assumes "fileop_inv st" and "finalize_open_fd env ctx st = Some st'"
  shows "isolated env st st'"
proof -
  have ok: "hash_ok MAX_ENTRIES (fd_paths st)"
    using assms(1) by (simp add: fileop_inv_def)
  show ?thesis
    using assms(2)
    by (auto simp: finalize_open_fd_def Let_def bind_eq_Some_conv isolated_def delete_conv'
        map_of_lru_update [OF ok] submit_open_event_def
        dest!: submit_fd_event_keeps split: option.splits if_splits)
qed

lemma isolated_exit_write:
  "trace_exit_write env ctx st = Some st' \<Longrightarrow> isolated env st st'"
  by (auto simp: trace_exit_write_def Let_def isolated_def delete_conv' split: option.splits if_splits)

lemma isolated_mmap:
  "trace_mmap env ctx st = Some st' \<Longrightarrow> isolated env st st'"
  by (auto simp: trace_mmap_def Let_def bind_eq_Some_conv isolated_def
      dest!: submit_fd_event_keeps split: option.splits if_splits)

lemma isolated_close:
  "trace_close env ctx st = Some st' \<Longrightarrow> isolated env st st'"
  by (auto simp: trace_close_def Let_def bind_eq_Some_conv isolated_def delete_conv'
      dest!: submit_fd_event_keeps split: option.splits if_splits)

lemma isolated_write:
  assumes "fileop_inv st" and "trace_write env ctx st = Some st'"
  shows "isolated env st st'"
  using assms
  by (auto simp: trace_write_def isolated_def fileop_inv_def hash.update_frame [of MAX_ENTRIES]
      split: if_splits)

lemma fileop_prog_isolated:
  assumes "fileop_inv st" and "fileop_prog c env st = Some st'"
  shows "isolated env st st'"
  using assms isolated_remember [OF assms(1), of env _ _ _ st'] isolated_finalize [OF assms(1), of env _ st']
    isolated_exit_write [of env _ st st'] isolated_mmap [of env _ st st'] isolated_close [of env _ st st']
    isolated_write [OF assms(1), of env _ st']
    keeps_maps_delete [of env _ _ st st', THEN isolated_keeps_maps]
    keeps_maps_two [of _ env _ _ _ st st', THEN isolated_keeps_maps]
    keeps_maps_symlink [of env _ _ _ st st', THEN isolated_keeps_maps]
  by (cases c) (auto simp: trace_enter_open_def trace_enter_openat_def trace_enter_openat2_def
      trace_exit_open_def trace_exit_openat_def trace_exit_openat2_def trace_delete_def
      trace_rename_def trace_renameat_def trace_renameat2_def trace_link_def trace_linkat_def
      trace_symlink_def trace_symlinkat_def submit_rename_paths_def submit_hardlink_paths_def)

section \<open>Writing and closing\<close>

primrec fileop_run :: "(fileop_call \<times> fileop_env) list \<Rightarrow> fileop_state \<Rightarrow> fileop_state option" where
  "fileop_run [] st = Some st"
| "fileop_run (x # xs) st = do { st \<leftarrow> fileop_prog (fst x) (snd x) st; fileop_run xs st }"

lemma fileop_run_append:
  "fileop_run (xs @ ys) st = do { st \<leftarrow> fileop_run xs st; fileop_run ys st }"
  by (induction xs arbitrary: st) (auto split: bind_splits)

text \<open>A write system call of one thread: its entry and its exit, back to back.\<close>

type_synonym write_call = "(enter_rw_ctx \<times> fileop_env) \<times> (exit_ctx \<times> fileop_env)"

definition write_steps :: "write_call \<Rightarrow> (fileop_call \<times> fileop_env) list" where
  "write_steps w = [(EnterWrite (fst (fst w)), snd (fst w)), (ExitWrite (fst (snd w)), snd (snd w))]"

definition write_on :: "fd_key \<Rightarrow> write_call \<Rightarrow> bool" where
  "write_on key w \<longleftrightarrow>
     bpf_get_current_pid_tgid (snd (fst w)) = bpf_get_current_pid_tgid (snd (snd w)) \<and>
     current_tgid (snd (snd w)) = key_tgid key \<and>
     ucast (rw_fd (fst (fst w))) = key_fd key \<and> rw_count (fst (fst w)) \<noteq> 0"

definition written :: "write_call \<Rightarrow> u64" where
  "written w = (if 0 < sint (ex_ret (fst (snd w))) then ex_ret (fst (snd w)) else 0)"

text \<open>What the writes leave in the descriptor's entry.\<close>

definition wrote :: "write_call \<Rightarrow> path_value \<Rightarrow> path_value" where
  "wrote w path =
     (if 0 < sint (ex_ret (fst (snd w)))
      then set_seen_flag (path\<lparr>pv_write_bytes := pv_write_bytes path + written w\<rparr>) FD_SEEN_WRITE
      else path)"

lemma write_once:
  assumes "length (inflight_write st) < MAX_ENTRIES"
    and "map_of (fd_paths st) key = Some path" and "write_on key w"
  shows "\<exists>st'. fileop_run (write_steps w) st = Some st' \<and>
    map_of (fd_paths st') key = Some (wrote w path) \<and> events st' = events st \<and>
    length (inflight_write st') < MAX_ENTRIES"
proof -
  obtain c1 e1 c2 e2 where w: "w = ((c1, e1), (c2, e2))"
    by (cases w) auto
  let ?pid = "bpf_get_current_pid_tgid e2"
  have key: "key = \<lparr>key_tgid = current_tgid e2, key_fd = ucast (rw_fd c1)\<rparr>"
    using assms(3) by (cases key) (simp add: write_on_def w)
  have "hash_update MAX_ENTRIES ?pid fd (inflight_write st) = AList.update ?pid fd (inflight_write st)" for fd
    using assms(1) by (simp add: hash_update_def)
  moreover have "length (AList.delete ?pid (inflight_write st)) < MAX_ENTRIES"
    using assms(1) length_delete_le [of ?pid "inflight_write st"] by simp
  ultimately show ?thesis
    using assms
    by (simp add: write_steps_def w write_on_def trace_write_def trace_exit_write_def key
        update_conv' wrote_def written_def Let_def delete_update_same)
qed

lemma write_many:
  assumes "length (inflight_write st) < MAX_ENTRIES"
    and "map_of (fd_paths st) key = Some path" and "\<forall>w \<in> set ws. write_on key w"
  shows "\<exists>st'. fileop_run (concat (map write_steps ws)) st = Some st' \<and>
    map_of (fd_paths st') key = Some (fold wrote ws path) \<and> events st' = events st"
  using assms
proof (induction ws arbitrary: st path)
  case (Cons w ws)
  obtain st1 where st1: "fileop_run (write_steps w) st = Some st1"
    "map_of (fd_paths st1) key = Some (wrote w path)" "events st1 = events st"
    "length (inflight_write st1) < MAX_ENTRIES"
    using write_once [OF Cons.prems(1,2), of w] Cons.prems(3) by auto
  from Cons.IH [OF st1(4,2)] Cons.prems(3) st1(1,3) show ?case
    by (auto simp: fileop_run_append)
qed simp

lemma fold_wrote_bytes:
  "pv_write_bytes (fold wrote ws path) = pv_write_bytes path + sum_list (map written ws)"
  by (induction ws arbitrary: path) (auto simp: wrote_def written_def set_seen_flag_def)

lemma fold_wrote_path [simp]:
  "pv_path (fold wrote ws path) = pv_path path" "pv_open_flags (fold wrote ws path) = pv_open_flags path"
  by (induction ws arbitrary: path) (auto simp: wrote_def set_seen_flag_def)

lemma seen_after_set: "has_seen_flag (set_seen_flag path f) f \<longleftrightarrow> f \<noteq> 0"
  by (simp add: has_seen_flag_def set_seen_flag_def bit.conj_disj_distrib2)

lemma has_seen_wrote:
  "has_seen_flag (wrote w path) FD_SEEN_WRITE \<longleftrightarrow>
     has_seen_flag path FD_SEEN_WRITE \<or> 0 < sint (ex_ret (fst (snd w)))"
  by (auto simp: wrote_def seen_after_set FD_SEEN_WRITE_def)

lemma fold_wrote_seen:
  "has_seen_flag (fold wrote ws path) FD_SEEN_WRITE \<longleftrightarrow>
     has_seen_flag path FD_SEEN_WRITE \<or> (\<exists>w \<in> set ws. 0 < sint (ex_ret (fst (snd w))))"
  by (induction ws arbitrary: path) (auto simp: has_seen_wrote)

lemma trace_close_spec:
  assumes "map_of (fd_paths st) \<lparr>key_tgid = current_tgid env, key_fd = cl_fd ctx\<rparr> = Some path"
    and "good_path (pv_path path)"
  shows "trace_close env ctx st = Some
    ((if has_seen_flag path FD_SEEN_WRITE \<and> \<not> suppressed path FILE_OP_WRITE \<and>
         bpf_ringbuf_reserve env 0 \<noteq> None
      then emit (fd_event env path FILE_OP_WRITE (pv_write_bytes path)) st else st)
     \<lparr>fd_paths := AList.delete \<lparr>key_tgid = current_tgid env, key_fd = cl_fd ctx\<rparr> (fd_paths st)\<rparr>)"
  using assms
  by (auto simp: trace_close_def Let_def submit_fd_event_spec simp del: op_code.simps)

section \<open>Opening\<close>

text \<open>
  The path an open records: the string read from the process, joined to the path of the
  directory descriptor when it is relative and that descriptor is tracked.
\<close>

definition opened_path :: "fileop_state \<Rightarrow> u32 \<Rightarrow> s64 \<Rightarrow> bytes \<Rightarrow> bytes" where
  "opened_path st tgid dirfd s =
     (if s ! 0 = byte_of_char CHR ''/'' \<or> dirfd = AT_FDCWD \<or> sint dirfd < 0 then s
      else case map_of (fd_paths st) \<lparr>key_tgid = tgid, key_fd = ucast dirfd\<rparr> of
        None \<Rightarrow> s
      | Some base \<Rightarrow> take (MAX_PATH_SIZE - 1) (joined (cstr (pv_path base)) s))"

lemma resolve_dirfd_path_spec:
  assumes env: "env_ok byte env" and dst: "length dst = MAX_PATH_SIZE"
    and heap: "heap_ok (path_heap st)"
    and fds: "\<And>k v. map_of (fd_paths st) k = Some v \<Longrightarrow> good_path (pv_path v)"
    and src: "src \<noteq> 0" "1 < fst (bpf_probe_read_user_str env MAX_PATH_SIZE src)"
  defines "s \<equiv> butlast (snd (bpf_probe_read_user_str env MAX_PATH_SIZE src))"
  shows "\<exists>p h. resolve_dirfd_path env dst MAX_PATH_SIZE tgid dirfd src st =
      Some (0, p, st\<lparr>path_heap := h\<rparr>) \<and> heap_ok h \<and> good_path p \<and>
      cstr p = opened_path st tgid dirfd s"
proof -
  let ?r = "bpf_probe_read_user_str env MAX_PATH_SIZE src"
  let ?d = "mem_write dst (snd ?r)"
  let ?cpu = "bpf_get_smp_processor_id env"
  have "0 < fst ?r" using src(2) by simp
  note w = probe_memory.str_written [OF env_okD(1) [OF env] this dst]
  have copy: "copy_user_path env dst MAX_PATH_SIZE src = (0, ?d)"
    using src by (auto simp: copy_user_path_def Let_def split: prod.splits)
  have cs: "cstr ?d = s" using w(3) by (simp add: s_def)
  have good: "good_path ?d"
    using w(1,2,4) src(2) by (auto simp: good_path_def)
  have first: "s ! 0 = ?d ! 0"
    using nth_cstr [of 0 ?d] good cs by (simp add: good_path_def)
  obtain v where v: "percpu_lookup (path_heap st) ?cpu 1 = Some v" "length (pv_path v) = MAX_PATH_SIZE"
    using heap_ok_lookup [OF heap, of 1 ?cpu] by auto
  let ?h = "percpu_store ?cpu 1 (v\<lparr>pv_path := ?d\<rparr>) (path_heap st)"
  have h: "heap_ok ?h" using heap w(1) by (simp add: heap_ok_store)
  show ?thesis
  proof (cases "?d ! 0 = byte_of_char CHR ''/'' \<or> dirfd = AT_FDCWD \<or> sint dirfd < 0")
    case True
    with copy src good cs first heap w(1) show ?thesis
      by (intro exI [of _ ?d] exI [of _ "path_heap st"])
        (auto simp: resolve_dirfd_path_def is_absolute_path_spec opened_path_def)
  next
    case False
    show ?thesis
    proof (cases "map_of (fd_paths st) \<lparr>key_tgid = tgid, key_fd = ucast dirfd\<rparr>")
      case None
      with False copy src good cs first v h w(1) show ?thesis
        by (intro exI [of _ ?d] exI [of _ ?h])
          (simp add: resolve_dirfd_path_def is_absolute_path_spec opened_path_def)
    next
      case (Some base)
      from join_paths_good [OF w(1) fds [OF Some] good] obtain e where
        "join_paths ?d MAX_PATH_SIZE (pv_path base) ?d = Some (0, e)" "good_path e"
        "cstr e = take (MAX_PATH_SIZE - 1) (joined (cstr (pv_path base)) s)"
        using cs by auto
      with Some False copy src good cs first v h w(1) show ?thesis
        by (intro exI [of _ e] exI [of _ ?h])
          (simp add: resolve_dirfd_path_def is_absolute_path_spec opened_path_def)
    qed
  qed
qed

text \<open>The noise test looks at the string in the buffer only.\<close>

lemma starts_with_cstr:
  assumes "0 \<notin> set (bytes_of_string lit)"
  shows "starts_with lit (cstr p) \<longleftrightarrow> starts_with lit p"
proof
  assume "starts_with lit (cstr p)"
  moreover from this have "length lit \<le> length (cstr p)"
    using starts_with_nth(1) by (metis le_eq_less_or_eq nat_le_linear nat_less_le nth_mem order_refl)
  ultimately show "starts_with lit p"
    using cstr_take [of p] by (metis min_absorb1 starts_with_def take_take)
next
  assume p: "starts_with lit p"
  have "length lit \<le> length (cstr p)"
  proof (rule ccontr)
    assume neg: "\<not> length lit \<le> length (cstr p)"
    then have l: "length (cstr p) < length lit" by simp
    then have "p ! length (cstr p) = 0"
      using starts_with_nth(1) [OF p l] nth_length_takeWhile [of "\<lambda>c. c \<noteq> 0" p] by (simp add: cstr_def)
    then have "byte_of_char (lit ! length (cstr p)) = 0"
      using starts_with_nth(2) [OF p l] by simp
    with assms l show False
      by (force simp: bytes_of_string_def byte_of_char_def in_set_conv_nth)
  qed
  with p show "starts_with lit (cstr p)"
    using cstr_take [of p] by (metis min_absorb1 starts_with_def take_take)
qed

lemma noisy_path_cstr: "noisy_path (cstr p) \<longleftrightarrow> noisy_path p"
  unfolding noisy_path_def by (simp add: starts_with_cstr bytes_of_string_def)

lemma overlay_path_cstr: "overlay_path (cstr p) \<longleftrightarrow> overlay_path p"
  unfolding overlay_path_def by (simp add: starts_with_cstr bytes_of_string_def)

definition fresh_value :: "bytes \<Rightarrow> u64 \<Rightarrow> path_value" where
  "fresh_value p flags = \<lparr>pv_path = p, pv_write_bytes = 0, pv_open_flags = flags, pv_seen_flags = 0\<rparr>"

lemma remember_open_path_spec:
  fixes dirfd :: s64
  assumes env: "env_ok byte env" and inv: "fileop_inv st"
    and src: "src \<noteq> 0" "1 < fst (bpf_probe_read_user_str env MAX_PATH_SIZE src)"
  defines "s \<equiv> opened_path st (current_tgid env) dirfd
    (butlast (snd (bpf_probe_read_user_str env MAX_PATH_SIZE src)))"
  shows "\<exists>p h. good_path p \<and> cstr p = s \<and> heap_ok h \<and>
    remember_open_path env src dirfd flags st = Some
      (if noisy_path s then st\<lparr>path_heap := h\<rparr>
       else st\<lparr>path_heap := h, inflight_open := hash_update MAX_ENTRIES (bpf_get_current_pid_tgid env)
                 (fresh_value p flags) (inflight_open st)\<rparr>)"
proof -
  let ?cpu = "bpf_get_smp_processor_id env"
  note heap = fileop_invD(3) [OF inv]
  obtain v where v: "percpu_lookup (path_heap st) ?cpu 0 = Some v"
    using heap_ok_lookup [OF heap, of 0] by auto
  have len: "length (pv_path (path_value_memset0 v)) = MAX_PATH_SIZE"
    by (simp add: path_value_memset0_def)
  have fds: "good_path (pv_path w)" if "map_of (fd_paths st) k = Some w" for k w
    using fileop_invD(2) [OF inv that] by (simp add: tracked_path_def)
  have "\<exists>p h. resolve_dirfd_path env (pv_path (path_value_memset0 v)) MAX_PATH_SIZE
      (current_tgid env) dirfd src st = Some (0, p, st\<lparr>path_heap := h\<rparr>) \<and>
      heap_ok h \<and> good_path p \<and> cstr p = s"
    unfolding s_def by (rule resolve_dirfd_path_spec [OF env len heap _ src]) (rule fds)
  then
  obtain p h where r: "resolve_dirfd_path env (pv_path (path_value_memset0 v)) MAX_PATH_SIZE
      (current_tgid env) dirfd src st = Some (0, p, st\<lparr>path_heap := h\<rparr>)"
    "heap_ok h" "good_path p" "cstr p = s"
    by blast
  have n: "noisy_path s \<longleftrightarrow> noisy_path p"
    using r(4) noisy_path_cstr by metis
  have p: "length p = MAX_PATH_SIZE" using r(3) by (simp add: good_path_def)
  let ?h1 = "percpu_store ?cpu 0 (path_value_memset0 v\<lparr>pv_path := p\<rparr>) h"
  let ?h2 = "percpu_store ?cpu 0 (fresh_value p flags) ?h1"
  have "heap_ok ?h1" "heap_ok ?h2"
    using r(2) p by (simp_all add: heap_ok_store fresh_value_def)
  with v r n p show ?thesis
    by (intro exI [of _ p] exI [of _ "if noisy_path p then ?h1 else ?h2"])
      (simp add: remember_open_path_def Let_def is_noise_path_spec fresh_value_def path_value_memset0_def)
qed

lemma finalize_open_fd_spec:
  assumes "map_of (inflight_open st) (bpf_get_current_pid_tgid env) = Some path"
    and "good_path (pv_path path)" and "0 \<le> sint (ex_ret ctx)"
  defines "key \<equiv> \<lparr>key_tgid = current_tgid env, key_fd = ucast (ex_ret ctx)\<rparr>"
  shows "finalize_open_fd env ctx st = Some
    ((if suppressed path FILE_OP_OPEN \<or> bpf_ringbuf_reserve env 0 = None then st
      else emit (fd_event env path FILE_OP_OPEN 0) st)
     \<lparr>fd_paths := lru_update MAX_ENTRIES (lru_evict env) key path (fd_paths st),
      inflight_open := AList.delete (bpf_get_current_pid_tgid env) (inflight_open st)\<rparr>)"
  using assms
  by (simp add: finalize_open_fd_def Let_def submit_open_event_def submit_fd_event_spec emit_def
      del: op_code.simps)

lemma filtered_open_run:
  assumes "env_ok byte e1" and "fileop_inv st"
    and "bpf_get_current_pid_tgid e1 = bpf_get_current_pid_tgid e2"
    and "eoa_filename c1 \<noteq> 0" and "1 < fst (bpf_probe_read_user_str e1 MAX_PATH_SIZE (eoa_filename c1))"
    and "map_of (inflight_open st) (bpf_get_current_pid_tgid e1) = None"
    and "noisy_path (opened_path st (current_tgid e1) (eoa_dfd c1)
      (butlast (snd (bpf_probe_read_user_str e1 MAX_PATH_SIZE (eoa_filename c1)))))"
  shows "\<exists>h. fileop_run [(EnterOpenat c1, e1), (ExitOpenat c2, e2)] st = Some (st\<lparr>path_heap := h\<rparr>)"
proof -
  obtain h where "remember_open_path e1 (eoa_filename c1) (eoa_dfd c1) (scast (eoa_flags c1)) st =
      Some (st\<lparr>path_heap := h\<rparr>)"
    using remember_open_path_spec [OF assms(1,2,4,5), of "eoa_dfd c1" "scast (eoa_flags c1)"] assms(7)
    by auto
  with assms(3,6) show ?thesis
    by (auto simp: trace_enter_openat_def trace_exit_openat_def finalize_open_fd_def Let_def)
qed

section \<open>Mapping\<close>

lemma trace_mmap_spec:
  assumes "fileop_inv st"
  defines "key \<equiv> \<lambda>env ctx. \<lparr>key_tgid = current_tgid env, key_fd = ucast (mm_fd ctx)\<rparr>"
  assumes "0 \<le> sint (mm_fd ctx)" and "map_of (fd_paths st) (key env ctx) = Some path"
  shows "trace_mmap env ctx st =
    (let (flag, op) = (if mm_prot ctx AND PROT_WRITE = 0 then (FD_SEEN_MMAP_READ, FILE_OP_MMAP_READ)
                       else (FD_SEEN_MMAP_WRITE, FILE_OP_MMAP_WRITE));
         path' = set_seen_flag path flag;
         st' = st\<lparr>fd_paths := map_store (key env ctx) path' (fd_paths st)\<rparr>
     in Some (if has_seen_flag path flag then st
              else if suppressed path' op \<or> bpf_ringbuf_reserve env 0 = None then st'
              else emit (fd_event env path' op 0) st'))"
proof -
  have "good_path (pv_path (set_seen_flag path f))" for f
    using fileop_invD(2) [OF assms(1) assms(4)] by (simp add: tracked_path_def set_seen_flag_def)
  then show ?thesis
    using assms(3,4)
    by (auto simp: trace_mmap_def Let_def submit_fd_event_spec key_def simp del: op_code.simps)
qed

end
