(* ===== verification/Fileop_Properties.thy ===== *)
theory Fileop_Properties
  imports Fileop_Sessions
begin

text \<open>
  The properties of the file-operation probe: it is memory safe and keeps its invariant, an
  open is tracked under the path the process named, writes are summed up and reported once at
  close, mappings are reported once, noise is filtered, and neither other threads nor stale
  bytes of the ring buffer influence what is reported.
\<close>

section \<open>Opens and writes in flight\<close>

definition fileop_thread_step :: "u64 \<Rightarrow> fileop_state \<Rightarrow> fileop_state \<Rightarrow> bool" where
  "fileop_thread_step p st st' \<longleftrightarrow> (\<exists>byte env c. env_ok byte env \<and>
     bpf_get_current_pid_tgid env = p \<and> fileop_prog c env st = Some st')"

definition open_exit :: "u64 \<Rightarrow> fileop_state \<Rightarrow> fileop_state \<Rightarrow> bool" where
  "open_exit p st st' \<longleftrightarrow> (\<exists>byte env c. env_ok byte env \<and>
     bpf_get_current_pid_tgid env = p \<and> fileop_prog (ExitOpenat c) env st = Some st')"

definition write_exit :: "u64 \<Rightarrow> fileop_state \<Rightarrow> fileop_state \<Rightarrow> bool" where
  "write_exit p st st' \<longleftrightarrow> (\<exists>byte env c. env_ok byte env \<and>
     bpf_get_current_pid_tgid env = p \<and> fileop_prog (ExitWrite c) env st = Some st')"

lemma fileop_thread_step_ok:
  assumes "fileop_inv s" and "fileop_thread_step p s s'"
  shows "fileop_inv s'"
    and "q \<noteq> p \<Longrightarrow> map_of (inflight_open s') q = map_of (inflight_open s) q"
    and "q \<noteq> p \<Longrightarrow> map_of (inflight_write s') q = map_of (inflight_write s) q"
proof -
  obtain byte env c where c: "env_ok byte env" "bpf_get_current_pid_tgid env = p" "fileop_prog c env s = Some s'"
    using assms(2) by (auto simp: fileop_thread_step_def)
  show "fileop_inv s'" using fileop_prog_ok [OF c(1) assms(1), of c] c(3) by auto
  show "q \<noteq> p \<Longrightarrow> map_of (inflight_open s') q = map_of (inflight_open s) q"
    and "q \<noteq> p \<Longrightarrow> map_of (inflight_write s') q = map_of (inflight_write s) q"
    using fileop_prog_isolated [OF assms(1) c(3)] c(2) by (simp_all add: isolated_def)
qed

lemma open_exit_clears: "open_exit p s s' \<Longrightarrow> map_of (inflight_open s') p = None"
  by (cases "map_of (inflight_open s) p")
    (auto simp: open_exit_def trace_exit_openat_def finalize_open_fd_def Let_def bind_eq_Some_conv delete_conv')

lemma write_exit_clears: "write_exit p s s' \<Longrightarrow> map_of (inflight_write s') p = None"
  by (cases "map_of (inflight_write s) p")
    (auto simp: write_exit_def trace_exit_write_def Let_def delete_conv')

lemma fileop_exit_steps:
  "open_exit p s s' \<Longrightarrow> fileop_thread_step p s s'" "write_exit p s s' \<Longrightarrow> fileop_thread_step p s s'"
  unfolding open_exit_def write_exit_def fileop_thread_step_def by blast+

interpretation open_calls: call_tracker "\<lambda>st. map_of (inflight_open st)" fileop_thread_step open_exit fileop_inv
  by unfold_locales
    (auto dest: fileop_thread_step_ok fileop_exit_steps open_exit_clears)

interpretation write_calls: call_tracker "\<lambda>st. map_of (inflight_write st)" fileop_thread_step write_exit fileop_inv
  by unfold_locales
    (auto dest: fileop_thread_step_ok fileop_exit_steps write_exit_clears)

section \<open>A concrete process\<close>

text \<open>
  Witnesses run process 7, whose memory holds one string at \<open>0x1000\<close>, from the empty maps.
\<close>

definition demo_file_env :: "string \<Rightarrow> fileop_env" where
  "demo_file_env s = memory_env 0x700000007 (memory_at 0x1000 (bytes_of_string s @ [0])) (\<lambda>_. Some zero_event)"

definition demo_file_state :: fileop_state where
  "demo_file_state = \<lparr>inflight_open = [], inflight_write = [],
     path_heap = (\<lambda>_. replicate 2 (fresh_value (replicate MAX_PATH_SIZE 0) 0)), fd_paths = [],
     events = \<lparr>rb_pending = 0, rb_log = []\<rparr>\<rparr>"

definition demo_openat :: enter_openat_ctx where
  "demo_openat = \<lparr>eoa_common = 0, eoa_syscall_nr = 257, eoa_dfd = AT_FDCWD, eoa_filename = 0x1000, eoa_flags = 2, eoa_mode = 0\<rparr>"

definition demo_exit :: "s64 \<Rightarrow> exit_ctx" where
  "demo_exit r = \<lparr>ex_common = 0, ex_syscall_nr = 0, ex_ret = r\<rparr>"

definition demo_path :: bytes where
  "demo_path = bytes_of_string ''/tmp/a'' @ replicate 250 0"

definition demo_write :: "s64 \<Rightarrow> write_call" where
  "demo_write r = ((\<lparr>rw_common = 0, rw_syscall_nr = 1, rw_fd = 3, rw_buf = 0x2000, rw_count = 9\<rparr>,
     demo_file_env ''a''), (demo_exit r, demo_file_env ''a''))"

definition demo_close :: enter_close_ctx where
  "demo_close = \<lparr>cl_common = 0, cl_syscall_nr = 3, cl_fd = 3\<rparr>"

definition demo_mmap :: enter_mmap_ctx where
  "demo_mmap = \<lparr>mm_common = 0, mm_syscall_nr = 9, mm_addr = 0, mm_len = 4096, mm_prot = 1, mm_flags = 2,
     mm_fd = 3, mm_off = 0\<rparr>"

lemma demo_path_good:
  "length demo_path = MAX_PATH_SIZE" "nul_terminated demo_path" "cstr demo_path = bytes_of_string ''/tmp/a''"
  "good_path demo_path" "\<not> overlay_path demo_path"
  by (simp_all add: demo_path_def good_path_def overlay_path_def starts_with_def bytes_of_string_def
      byte_of_char_def MAX_PATH_SIZE_def cstr_def nul_terminated_def)

lemma demo_file_env_ok: "env_ok (memory_at 0x1000 (bytes_of_string s @ [0])) (demo_file_env s)"
  by (simp add: demo_file_env_def memory_env_ok)

lemma demo_file_reachable: "fileop_reachable demo_file_state"
  unfolding demo_file_state_def by (rule fileop_reachable.start) (simp add: heap_ok_def fresh_value_def)

lemma demo_file_fields [simp]:
  "bpf_get_current_pid_tgid (demo_file_env s) = 0x700000007"
  "bpf_ringbuf_reserve (demo_file_env s) n = Some zero_event"
  "eoa_filename demo_openat = 0x1000" "eoa_dfd demo_openat = AT_FDCWD" "eoa_flags demo_openat = 2"
  "ex_ret (demo_exit r) = r" "inflight_open demo_file_state = []" "fd_paths demo_file_state = []"
  "inflight_write demo_file_state = []" "events demo_file_state = \<lparr>rb_pending = 0, rb_log = []\<rparr>"
  by (simp_all add: demo_file_env_def memory_env_def demo_openat_def demo_exit_def demo_file_state_def)

lemma demo_file_read:
  assumes "0 \<notin> set (bytes_of_string s)" and "length s < MAX_PATH_SIZE"
  shows "bpf_probe_read_user_str (demo_file_env s) MAX_PATH_SIZE 0x1000 =
    (int (length s) + 1, bytes_of_string s @ [0])"
proof -
  have "length s < 2 ^ 63" using assms(2) by (simp add: MAX_PATH_SIZE_def)
  then show ?thesis
    using mem_read_str_at [of "bytes_of_string s" MAX_PATH_SIZE "0x1000"] assms
    by (simp add: demo_file_env_def memory_env_def)
qed

section \<open>Properties\<close>

text \<open>
  C3: in every state the file-operation probe can reach, every program of it runs without an
  access outside of a buffer, leaves no ring-buffer reservation open, keeps the maps within
  their capacity, and every event in the ring is well formed: its operation code is one of the
  eight, and the path that decides its relevance, which is the link name for a symbolic link and the
  first path otherwise, is a non-empty C string that the filters of its operation let pass.  The target
  of a symbolic link is a non-empty C string, the destination of a rename or hard link is one or
  absent, both as the process named them and not filtered; the other operations report no second path.
\<close>

theorem fileop_safe:
  assumes "fileop_reachable st" and "env_ok byte env"
  shows "\<exists>st'. fileop_prog c env st = Some st' \<and> fileop_reachable st' \<and> rb_pending (events st') = 0 \<and>
    length (inflight_open st') \<le> MAX_ENTRIES \<and> length (inflight_write st') \<le> MAX_ENTRIES \<and>
    length (fd_paths st') \<le> MAX_ENTRIES \<and> (\<forall>e \<in> set (rb_log (events st')). event_ok e)"
proof -
  obtain st' where st': "fileop_prog c env st = Some st'" "fileop_inv st'"
    using fileop_prog_ok [OF assms(2) fileop_reachable_inv [OF assms(1)]] by blast
  moreover have "fileop_reachable st'"
    using assms st'(1) by (rule fileop_reachable.step)
  ultimately show ?thesis by (auto simp: fileop_inv_def hash_ok_def)
qed

theorem fileop_safe_witness:
  "\<exists>st'. fileop_prog (EnterOpenat demo_openat) (demo_file_env ''/etc/hosts'') demo_file_state = Some st' \<and>
     rb_pending (events st') = 0"
  using fileop_safe [OF demo_file_reachable demo_file_env_ok] by blast

lemma open_stores:
  assumes "env_ok byte e1" and "fileop_inv st"
    and "eoa_filename c1 \<noteq> 0" and "1 < fst (bpf_probe_read_user_str e1 MAX_PATH_SIZE (eoa_filename c1))"
    and "length (inflight_open st) < MAX_ENTRIES"
    and "\<not> noisy_path (opened_path st (current_tgid e1) (eoa_dfd c1)
      (butlast (snd (bpf_probe_read_user_str e1 MAX_PATH_SIZE (eoa_filename c1)))))"
    and "trace_enter_openat e1 c1 st = Some st1"
  shows "\<exists>p. good_path p \<and> cstr p = opened_path st (current_tgid e1) (eoa_dfd c1)
      (butlast (snd (bpf_probe_read_user_str e1 MAX_PATH_SIZE (eoa_filename c1)))) \<and>
    map_of (inflight_open st1) (bpf_get_current_pid_tgid e1) = Some (fresh_value p (scast (eoa_flags c1))) \<and>
    events st1 = events st \<and> fd_paths st1 = fd_paths st"
  using remember_open_path_spec [OF assms(1-4), of "eoa_dfd c1" "scast (eoa_flags c1)"] assms(5-7)
  by (auto simp: trace_enter_openat_def map_of_hash_update)

lemma open_session:
  assumes "env_ok byte e1" and "fileop_inv st"
    and "eoa_filename c1 \<noteq> 0" and "1 < fst (bpf_probe_read_user_str e1 MAX_PATH_SIZE (eoa_filename c1))"
    and "length (inflight_open st) < MAX_ENTRIES"
    and "\<not> noisy_path (opened_path st (current_tgid e1) (eoa_dfd c1)
      (butlast (snd (bpf_probe_read_user_str e1 MAX_PATH_SIZE (eoa_filename c1)))))"
    and "trace_enter_openat e1 c1 st = Some st1"
    and "open_calls.others (bpf_get_current_pid_tgid e1) st1 st2"
    and "bpf_get_current_pid_tgid e2 = bpf_get_current_pid_tgid e1" and "0 \<le> sint (ex_ret c2)"
    and "length (fd_paths st2) < MAX_ENTRIES"
  shows "\<exists>p st3. trace_exit_openat e2 c2 st2 = Some st3 \<and>
    cstr p = opened_path st (current_tgid e1) (eoa_dfd c1)
      (butlast (snd (bpf_probe_read_user_str e1 MAX_PATH_SIZE (eoa_filename c1)))) \<and>
    map_of (fd_paths st3) \<lparr>key_tgid = current_tgid e2, key_fd = ucast (ex_ret c2)\<rparr> =
      Some (fresh_value p (scast (eoa_flags c1))) \<and>
    rb_log (events st3) = rb_log (events st2) @
      (if overlay_path p \<or> bpf_ringbuf_reserve e2 0 = None then []
       else [fd_event e2 (fresh_value p (scast (eoa_flags c1))) FILE_OP_OPEN 0]) \<and>
    map_of (inflight_open st3) (bpf_get_current_pid_tgid e1) = None"
proof -
  let ?pid = "bpf_get_current_pid_tgid e1"
  note inv = assms(2)
  obtain p where p: "good_path p" "cstr p = opened_path st (current_tgid e1) (eoa_dfd c1)
      (butlast (snd (bpf_probe_read_user_str e1 MAX_PATH_SIZE (eoa_filename c1))))"
    "map_of (inflight_open st1) ?pid = Some (fresh_value p (scast (eoa_flags c1)))"
    using open_stores [OF assms(1) inv assms(3-7)] by blast
  have "fileop_inv st1"
    using fileop_prog_ok [OF assms(1) inv, of "EnterOpenat c1"] assms(7) by auto
  then have st2: "fileop_inv st2" "map_of (inflight_open st2) ?pid = Some (fresh_value p (scast (eoa_flags c1)))"
    using open_calls.others_keep [OF assms(8)] p(3) by simp_all
  have room: "map_of (lru_update MAX_ENTRIES (lru_evict e2) k v (fd_paths st2)) k = Some v" for k v
    using lru_room [OF _ assms(11)] st2(1) by (simp add: fileop_inv_def)
  have "finalize_open_fd e2 c2 st2 = Some
    ((if suppressed (fresh_value p (scast (eoa_flags c1))) FILE_OP_OPEN \<or> bpf_ringbuf_reserve e2 0 = None then st2
      else emit (fd_event e2 (fresh_value p (scast (eoa_flags c1))) FILE_OP_OPEN 0) st2)
     \<lparr>fd_paths := lru_update MAX_ENTRIES (lru_evict e2) \<lparr>key_tgid = current_tgid e2, key_fd = ucast (ex_ret c2)\<rparr>
        (fresh_value p (scast (eoa_flags c1))) (fd_paths st2),
      inflight_open := AList.delete (bpf_get_current_pid_tgid e2) (inflight_open st2)\<rparr>)"
    using st2 p(1) assms(9,10) by (intro finalize_open_fd_spec) (simp_all add: fresh_value_def)
  then show ?thesis
    using p(2) room assms(9)
    by (intro exI [of _ p]) (simp add: trace_exit_openat_def suppressed_def fresh_value_def delete_conv')
qed

lemma noisy_open_exit:
  assumes "env_ok byte e1" and "fileop_inv st"
    and "eoa_filename c1 \<noteq> 0" and "1 < fst (bpf_probe_read_user_str e1 MAX_PATH_SIZE (eoa_filename c1))"
    and "noisy_path (opened_path st (current_tgid e1) (eoa_dfd c1)
      (butlast (snd (bpf_probe_read_user_str e1 MAX_PATH_SIZE (eoa_filename c1)))))"
    and "trace_enter_openat e1 c1 st = Some st1"
    and "open_calls.others (bpf_get_current_pid_tgid e1) st1 st2"
    and "bpf_get_current_pid_tgid e2 = bpf_get_current_pid_tgid e1"
    and "map_of (inflight_open st) (bpf_get_current_pid_tgid e1) = None"
  shows "trace_exit_openat e2 c2 st2 = Some st2"
proof -
  obtain h where "st1 = st\<lparr>path_heap := h\<rparr>"
    using remember_open_path_spec [OF assms(1-4), of "eoa_dfd c1" "scast (eoa_flags c1)"] assms(5,6)
    by (auto simp: trace_enter_openat_def)
  then have "map_of (inflight_open st1) (bpf_get_current_pid_tgid e1) = None" using assms(9) by simp
  moreover have "fileop_inv st1"
    using fileop_prog_ok [OF assms(1,2), of "EnterOpenat c1"] assms(6) by auto
  ultimately have "map_of (inflight_open st2) (bpf_get_current_pid_tgid e1) = None"
    using open_calls.others_keep [OF assms(7)] by simp
  then show ?thesis using assms(8) by (simp add: trace_exit_openat_def finalize_open_fd_def)
qed

lemma demo_hosts_path:
  "0 \<notin> set (bytes_of_string ''/etc/hosts'')" "\<not> noisy_path (bytes_of_string ''/etc/hosts'')"
  by (simp_all add: noisy_path_def starts_with_def bytes_of_string_def byte_of_char_def)

lemma demo_hosts [simp]:
  "bpf_probe_read_user_str (demo_file_env ''/etc/hosts'') MAX_PATH_SIZE 0x1000 =
     (11, bytes_of_string ''/etc/hosts'' @ [0])"
  using demo_file_read [OF demo_hosts_path(1)] by (simp add: MAX_PATH_SIZE_def)

lemma demo_open_facts [simp]:
  "opened_path st tgid AT_FDCWD p = p" "0 < MAX_ENTRIES"
  "scast (2 :: s32) = (2 :: u64)" "tgid_of 0x700000007 = 7"
  by (simp_all add: opened_path_def MAX_ENTRIES_def tgid_of_def)

lemma demo_enter:
  obtains st1 where "trace_enter_openat (demo_file_env ''/etc/hosts'') demo_openat demo_file_state = Some st1"
    and "fd_paths st1 = []"
proof -
  have inv: "fileop_inv demo_file_state" by (rule fileop_reachable_inv [OF demo_file_reachable])
  obtain st1 where st1: "trace_enter_openat (demo_file_env ''/etc/hosts'') demo_openat demo_file_state = Some st1"
    using fileop_prog_ok [OF demo_file_env_ok [of "''/etc/hosts''"] inv, of "EnterOpenat demo_openat"] by auto
  have "fd_paths st1 = []"
    using open_stores [OF demo_file_env_ok inv _ _ _ _ st1] by (auto simp: demo_hosts_path)
  with st1 show ?thesis by (rule that)
qed

text \<open>
  C4: a successful \<^verbatim>\<open>openat\<close> is tracked.  The process names a path; programs of other threads
  run between entry and exit; the exit returns a descriptor; the maps of opens in flight and of tracked
  descriptors have room.  Unless the path is noise, the descriptor is recorded
  with the named path, resolved against a tracked directory descriptor, with the open flags and
  no bytes written; one open event with this path is reported unless the path is a container
  overlay or the ring is full; and nothing of the call stays in flight.  When the path is noise and no
  earlier open of the thread is in flight, the exit changes nothing.
\<close>

theorem open_tracked:
  assumes "env_ok byte e1" and "fileop_reachable st"
    and "eoa_filename c1 \<noteq> 0" and "1 < fst (bpf_probe_read_user_str e1 MAX_PATH_SIZE (eoa_filename c1))"
    and "length (inflight_open st) < MAX_ENTRIES"
    and "trace_enter_openat e1 c1 st = Some st1"
    and "open_calls.others (bpf_get_current_pid_tgid e1) st1 st2"
    and "bpf_get_current_pid_tgid e2 = bpf_get_current_pid_tgid e1" and "0 \<le> sint (ex_ret c2)"
    and "length (fd_paths st2) < MAX_ENTRIES"
  shows "let s = opened_path st (current_tgid e1) (eoa_dfd c1)
      (butlast (snd (bpf_probe_read_user_str e1 MAX_PATH_SIZE (eoa_filename c1)))) in
    if noisy_path s
    then map_of (inflight_open st) (bpf_get_current_pid_tgid e1) = None \<longrightarrow> trace_exit_openat e2 c2 st2 = Some st2
    else \<exists>p st3. trace_exit_openat e2 c2 st2 = Some st3 \<and> cstr p = s \<and>
      map_of (fd_paths st3) \<lparr>key_tgid = current_tgid e2, key_fd = ucast (ex_ret c2)\<rparr> =
        Some (fresh_value p (scast (eoa_flags c1))) \<and>
      rb_log (events st3) = rb_log (events st2) @
        (if overlay_path p \<or> bpf_ringbuf_reserve e2 0 = None then []
         else [fd_event e2 (fresh_value p (scast (eoa_flags c1))) FILE_OP_OPEN 0]) \<and>
      map_of (inflight_open st3) (bpf_get_current_pid_tgid e1) = None"
proof -
  note inv = fileop_reachable_inv [OF assms(2)]
  show ?thesis
    unfolding Let_def
    using noisy_open_exit [OF assms(1) inv assms(3,4) _ assms(6-8)]
      open_session [OF assms(1) inv assms(3-5) _ assms(6-10)]
    by (simp split: if_split)
qed

theorem open_tracked_witness:
  "\<exists>p st1 st3. trace_enter_openat (demo_file_env ''/etc/hosts'') demo_openat demo_file_state = Some st1 \<and>
     trace_exit_openat (demo_file_env ''/etc/hosts'') (demo_exit 3) st1 = Some st3 \<and>
     cstr p = bytes_of_string ''/etc/hosts'' \<and>
     map_of (fd_paths st3) \<lparr>key_tgid = 7, key_fd = 3\<rparr> = Some (fresh_value p 2)"
proof -
  let ?E = "demo_file_env ''/etc/hosts''"
  obtain st1 where st1: "trace_enter_openat ?E demo_openat demo_file_state = Some st1" "fd_paths st1 = []"
    by (rule demo_enter)
  from open_tracked [OF demo_file_env_ok demo_file_reachable _ _ _ st1(1) open_calls.others_refl,
      of ?E "demo_exit 3"] st1
  show ?thesis by (simp add: demo_hosts_path Let_def) blast
qed

text \<open>
  C5: the writes of a tracked descriptor add up.  After any number of write calls on it, each
  with its own result, the close reports one write event that carries the recorded path and the
  sum of the positive results (modulo \<open>2 ^ 64\<close>) on top of what was recorded before.  There is no
  event when nothing was written, the path is a container overlay or the ring is full; the
  descriptor is forgotten in any case.
\<close>

theorem writes_reported_at_close:
  assumes "length (inflight_write st) < MAX_ENTRIES"
    and "map_of (fd_paths st) key = Some path" and "good_path (pv_path path)"
    and "\<forall>w \<in> set ws. write_on key w"
    and "current_tgid env = key_tgid key" and "cl_fd ctx = key_fd key"
  shows "\<exists>st'. fileop_run (concat (map write_steps ws) @ [(EnterClose ctx, env)]) st = Some st' \<and>
    map_of (fd_paths st') key = None \<and>
    rb_log (events st') = rb_log (events st) @
      (if (has_seen_flag path FD_SEEN_WRITE \<or> (\<exists>w \<in> set ws. written w \<noteq> 0)) \<and>
          \<not> overlay_path (pv_path path) \<and> bpf_ringbuf_reserve env 0 \<noteq> None
       then [fd_event env path FILE_OP_WRITE (pv_write_bytes path + sum_list (map written ws))] else [])"
proof -
  have key: "key = \<lparr>key_tgid = current_tgid env, key_fd = cl_fd ctx\<rparr>"
    using assms(5,6) by (cases key) simp
  obtain st1 where st1: "fileop_run (concat (map write_steps ws)) st = Some st1"
    "map_of (fd_paths st1) key = Some (fold wrote ws path)" "events st1 = events st"
    using write_many [OF assms(1,2,4)] by blast
  have seen: "written w \<noteq> 0 \<longleftrightarrow> 0 < sint (ex_ret (fst (snd w)))" for w
    by (auto simp: written_def)
  have ev: "fd_event env (fold wrote ws path) FILE_OP_WRITE n = fd_event env path FILE_OP_WRITE n" for n
    by (simp add: fd_event_def)
  show ?thesis
    using st1 trace_close_spec [of st1 env ctx "fold wrote ws path"] assms(3)
    by (simp add: fileop_run_append key suppressed_def fold_wrote_seen seen fold_wrote_bytes ev delete_conv')
qed

theorem writes_reported_at_close_witness:
  "\<exists>st'. fileop_run (concat (map write_steps [demo_write 5, demo_write (-1), demo_write 7]) @
       [(EnterClose demo_close, demo_file_env ''a'')])
     (demo_file_state\<lparr>fd_paths := [(\<lparr>key_tgid = 7, key_fd = 3\<rparr>, fresh_value demo_path 1)]\<rparr>) = Some st' \<and>
     map_of (fd_paths st') \<lparr>key_tgid = 7, key_fd = 3\<rparr> = None \<and>
     rb_log (events st') = [fd_event (demo_file_env ''a'') (fresh_value demo_path 1) FILE_OP_WRITE 12]"
  using writes_reported_at_close [of "demo_file_state\<lparr>fd_paths := [(\<lparr>key_tgid = 7, key_fd = 3\<rparr>, fresh_value demo_path 1)]\<rparr>"
      "\<lparr>key_tgid = 7, key_fd = 3\<rparr>" "fresh_value demo_path 1" "[demo_write 5, demo_write (-1), demo_write 7]"
      "demo_file_env ''a''" demo_close] demo_path_good
  by (simp add: fresh_value_def write_on_def demo_write_def written_def demo_close_def)

lemma demo_opened:
  obtains st p where "fileop_reachable st" and "map_of (fd_paths st) \<lparr>key_tgid = 7, key_fd = 3\<rparr> = Some (fresh_value p 2)"
proof -
  let ?E = "demo_file_env ''/etc/hosts''"
  note inv = fileop_reachable_inv [OF demo_file_reachable]
  obtain st1 where st1: "trace_enter_openat ?E demo_openat demo_file_state = Some st1" "fd_paths st1 = []"
    by (rule demo_enter)
  obtain p st3 where "trace_exit_openat ?E (demo_exit 3) st1 = Some st3"
    "map_of (fd_paths st3) \<lparr>key_tgid = 7, key_fd = 3\<rparr> = Some (fresh_value p 2)"
    using open_session [OF demo_file_env_ok inv _ _ _ _ st1(1) open_calls.others_refl,
      of ?E "demo_exit 3"] st1(2) by (auto simp: demo_hosts_path)
  moreover have "fileop_reachable st1"
    using fileop_reachable.step [OF demo_file_reachable demo_file_env_ok, of "EnterOpenat demo_openat" "''/etc/hosts''"] st1 by simp
  ultimately show ?thesis
    using fileop_reachable.step [OF _ demo_file_env_ok, of st1 "ExitOpenat (demo_exit 3)" "''/etc/hosts''" st3] that by simp
qed

text \<open>
  A mapping of a tracked descriptor is reported at most once per direction: a second \<^verbatim>\<open>mmap\<close>
  with the same kind of protection changes nothing and reports nothing, whether or not the first
  one was reported.
\<close>

lemma mmap_reported_once:
  assumes "fileop_reachable st" and "env_ok byte env" and "trace_mmap env ctx st = Some st1"
    and "current_tgid env2 = current_tgid env" and "mm_fd ctx2 = mm_fd ctx"
    and "mm_prot ctx2 AND PROT_WRITE = mm_prot ctx AND PROT_WRITE"
  shows "trace_mmap env2 ctx2 st1 = Some st1"
proof -
  let ?key = "\<lparr>key_tgid = current_tgid env, key_fd = ucast (mm_fd ctx)\<rparr>"
  have inv: "fileop_inv st" by (rule fileop_reachable_inv [OF assms(1)])
  have inv1: "fileop_inv st1" using trace_mmap_ok [OF assms(2) inv, of ctx] assms(3) by auto
  show ?thesis
  proof (cases "0 \<le> sint (mm_fd ctx) \<and> map_of (fd_paths st) ?key \<noteq> None")
    case False
    then show ?thesis using assms(3-5) by (auto simp: trace_mmap_def Let_def split: option.splits)
  next
    case True
    then obtain path where path: "map_of (fd_paths st) ?key = Some path" "0 \<le> sint (mm_fd ctx)" by auto
    define flag where "flag = (if mm_prot ctx AND PROT_WRITE = 0 then FD_SEEN_MMAP_READ else FD_SEEN_MMAP_WRITE)"
    have nz: "flag \<noteq> 0" by (simp add: flag_def FD_SEEN_MMAP_READ_def FD_SEEN_MMAP_WRITE_def)
    have "\<exists>path1. map_of (fd_paths st1) ?key = Some path1 \<and> has_seen_flag path1 flag"
      using trace_mmap_spec [OF inv path(2,1)] assms(3) path nz
      by (auto simp: Let_def flag_def seen_after_set split: if_splits)
    then obtain path1 where "map_of (fd_paths st1) ?key = Some path1" "has_seen_flag path1 flag" by blast
    then show ?thesis
      using trace_mmap_spec [OF inv1, of ctx2 env2 path1] path(2) assms(4-6)
      by (simp add: flag_def Let_def split: if_splits)
  qed
qed

lemma mmap_reported_once_example:
  "\<exists>st p st1. fileop_reachable st \<and> map_of (fd_paths st) \<lparr>key_tgid = 7, key_fd = 3\<rparr> = Some (fresh_value p 2) \<and>
     trace_mmap (demo_file_env ''a'') demo_mmap st = Some st1 \<and>
     trace_mmap (demo_file_env ''a'') demo_mmap st1 = Some st1"
proof -
  obtain st p where st: "fileop_reachable st" "map_of (fd_paths st) \<lparr>key_tgid = 7, key_fd = 3\<rparr> = Some (fresh_value p 2)"
    by (rule demo_opened)
  obtain st1 where st1: "trace_mmap (demo_file_env ''a'') demo_mmap st = Some st1"
    using trace_mmap_ok [OF demo_file_env_ok fileop_reachable_inv [OF st(1)]] by blast
  have "trace_mmap (demo_file_env ''a'') demo_mmap st1 = Some st1"
    by (rule mmap_reported_once [OF st(1) demo_file_env_ok st1]) simp_all
  with st st1 show ?thesis by blast
qed

text \<open>
  An open whose path is noise leaves no trace: after entry and exit every map and the ring
  are what they were, only the scratch array differs.
\<close>

lemma noise_open_ignored:
  assumes "env_ok byte e1" and "fileop_reachable st"
    and "bpf_get_current_pid_tgid e1 = bpf_get_current_pid_tgid e2"
    and "eoa_filename c1 \<noteq> 0" and "1 < fst (bpf_probe_read_user_str e1 MAX_PATH_SIZE (eoa_filename c1))"
    and "map_of (inflight_open st) (bpf_get_current_pid_tgid e1) = None"
    and "noisy_path (opened_path st (current_tgid e1) (eoa_dfd c1)
      (butlast (snd (bpf_probe_read_user_str e1 MAX_PATH_SIZE (eoa_filename c1)))))"
  shows "\<exists>h. fileop_run [(EnterOpenat c1, e1), (ExitOpenat c2, e2)] st = Some (st\<lparr>path_heap := h\<rparr>)"
  by (rule filtered_open_run [OF assms(1) fileop_reachable_inv [OF assms(2)] assms(3-7)])

lemma noise_open_ignored_example:
  "\<exists>h. fileop_run [(EnterOpenat demo_openat, demo_file_env ''/proc/1''), (ExitOpenat (demo_exit 3), demo_file_env ''/proc/1'')]
     demo_file_state = Some (demo_file_state\<lparr>path_heap := h\<rparr>)"
proof -
  have "0 \<notin> set (bytes_of_string ''/proc/1'')" "noisy_path (bytes_of_string ''/proc/1'')"
    by (simp_all add: noisy_path_def starts_with_def bytes_of_string_def byte_of_char_def)
  then show ?thesis
    using noise_open_ignored [OF demo_file_env_ok [of "''/proc/1''"] demo_file_reachable,
        of "demo_file_env ''/proc/1''" demo_openat "demo_exit 3"] demo_file_read [of "''/proc/1''"]
    by (simp add: MAX_PATH_SIZE_def)
qed

text \<open>
  C28: processes and threads are isolated: a program that runs in one thread does not change the
  opens and writes in flight of any other thread, nor the tracked descriptors of any other
  process, except that the LRU map may drop entries it evicts.
\<close>

theorem fileop_isolated:
  assumes "fileop_reachable st" and "fileop_prog c env st = Some st'"
  shows "(\<forall>p. p \<noteq> bpf_get_current_pid_tgid env \<longrightarrow>
      map_of (inflight_open st') p = map_of (inflight_open st) p \<and>
      map_of (inflight_write st') p = map_of (inflight_write st) p) \<and>
    (\<forall>k. key_tgid k \<noteq> current_tgid env \<longrightarrow>
      map_of (fd_paths st') k = map_of (fd_paths st) k \<or> lru_evict env k \<and> map_of (fd_paths st') k = None)"
  using fileop_prog_isolated [OF fileop_reachable_inv [OF assms(1)] assms(2)]
  by (simp add: isolated_def)

theorem fileop_isolated_witness:
  "\<exists>st st'. fileop_reachable st \<and> map_of (fd_paths st) \<lparr>key_tgid = 7, key_fd = 3\<rparr> \<noteq> None \<and>
     fileop_prog (EnterClose demo_close) ((demo_file_env ''a'')\<lparr>bpf_get_current_pid_tgid := 0x900000009\<rparr>) st = Some st' \<and>
     map_of (fd_paths st') \<lparr>key_tgid = 7, key_fd = 3\<rparr> = map_of (fd_paths st) \<lparr>key_tgid = 7, key_fd = 3\<rparr>"
proof -
  let ?E = "(demo_file_env ''a'')\<lparr>bpf_get_current_pid_tgid := 0x900000009\<rparr>"
  have ok: "env_ok (memory_at 0x1000 (bytes_of_string ''a'' @ [0])) ?E"
    using demo_file_env_ok [of "''a''"] by (simp add: env_ok_def)
  obtain st p where st: "fileop_reachable st" "map_of (fd_paths st) \<lparr>key_tgid = 7, key_fd = 3\<rparr> = Some (fresh_value p 2)"
    by (rule demo_opened)
  obtain st' where st': "fileop_prog (EnterClose demo_close) ?E st = Some st'"
    using fileop_prog_ok [OF ok fileop_reachable_inv [OF st(1)]] by blast
  have "\<not> lru_evict ?E k" for k by (simp add: demo_file_env_def memory_env_def)
  then have "map_of (fd_paths st') \<lparr>key_tgid = 7, key_fd = 3\<rparr> = map_of (fd_paths st) \<lparr>key_tgid = 7, key_fd = 3\<rparr>"
    using fileop_isolated [OF st(1) st'] by (simp add: tgid_of_def)
  with st st' show ?thesis by blast
qed

section \<open>The ring buffer's old bytes\<close>

abbreviation with_garbage :: "(fileop_event \<Rightarrow> fileop_event) \<Rightarrow> fileop_env \<Rightarrow> fileop_env" where
  "with_garbage g env \<equiv> env\<lparr>bpf_ringbuf_reserve := \<lambda>n. map_option g (bpf_ringbuf_reserve env n)\<rparr>"

lemma garbage_fields:
  "bpf_get_current_pid_tgid (with_garbage g env) = bpf_get_current_pid_tgid env"
  "bpf_get_current_uid_gid (with_garbage g env) = bpf_get_current_uid_gid env"
  "bpf_get_current_cgroup_id (with_garbage g env) = bpf_get_current_cgroup_id env"
  "bpf_get_current_comm (with_garbage g env) = bpf_get_current_comm env"
  "bpf_ktime_get_ns (with_garbage g env) = bpf_ktime_get_ns env"
  "bpf_get_smp_processor_id (with_garbage g env) = bpf_get_smp_processor_id env"
  "bpf_probe_read_user (with_garbage g env) = bpf_probe_read_user env"
  "bpf_probe_read_user_str (with_garbage g env) = bpf_probe_read_user_str env"
  "lru_evict (with_garbage g env) = lru_evict env"
  "bpf_ringbuf_reserve (with_garbage g env) n = map_option g (bpf_ringbuf_reserve env n)"
  by simp_all

lemma garbage_helpers:
  "copy_user_path (with_garbage g env) = copy_user_path env"
  "fill_event (with_garbage g env) = fill_event env"
  "read_openat2_flags (with_garbage g env) = read_openat2_flags env"
  by (unfold copy_user_path_def fill_event_def read_openat2_flags_def garbage_fields, (rule refl)+)

lemma garbage_resolve: "resolve_dirfd_path (with_garbage g env) = resolve_dirfd_path env"
  by (unfold resolve_dirfd_path_def garbage_fields garbage_helpers, rule refl)

lemma garbage_submit:
  "submit_fd_event (with_garbage g env) = submit_fd_event env"
  "submit_delete_path (with_garbage g env) = submit_delete_path env"
  "submit_two_paths op (with_garbage g env) = submit_two_paths op env"
  "submit_symlink_paths (with_garbage g env) = submit_symlink_paths env"
  by (unfold submit_fd_event_def submit_delete_path_def submit_two_paths_def submit_symlink_paths_def
      garbage_fields garbage_helpers garbage_resolve case_map_option comp_def event_memset0_def,
      (rule refl)+)

lemma garbage_open:
  "remember_open_path (with_garbage g env) = remember_open_path env"
  "finalize_open_fd (with_garbage g env) = finalize_open_fd env"
  by (unfold remember_open_path_def finalize_open_fd_def submit_open_event_def
      garbage_fields garbage_helpers garbage_resolve garbage_submit, (rule refl)+)

lemmas garbage_programs = garbage_fields garbage_helpers garbage_submit garbage_open

text \<open>
  C29: no byte of an old record leaks: a reservation hands out memory with whatever the ring held
  there before, and whatever that is, the maps and the reported events are the same.
\<close>

theorem ring_garbage_irrelevant:
  "fileop_prog c (env\<lparr>bpf_ringbuf_reserve := \<lambda>n. map_option g (bpf_ringbuf_reserve env n)\<rparr>) st =
     fileop_prog c env st"
  by (cases c) (hypsubst, unfold fileop_prog.simps fileop_prog_defs trace_exit_write_def trace_mmap_def
      trace_close_def garbage_programs, rule refl)+

section \<open>Paths\<close>

text \<open>
  C30: joining a relative path to a directory gives the two strings with exactly one slash added
  where the directory does not end in one, cut to what the destination holds with its final NUL;
  the only error is an empty directory.
\<close>

theorem join_paths_correct:
  assumes "length dst = sz" and "1 < sz"
    and "nul_terminated base" and "length base = MAX_PATH_SIZE"
    and "nul_terminated relative" and "length relative = MAX_PATH_SIZE"
  shows "\<exists>rc dst'. join_paths dst sz base relative = Some (rc, dst') \<and>
    (if cstr base = [] then rc = -1
     else rc = 0 \<and> length dst' = sz \<and> nul_terminated dst' \<and>
       cstr dst' = take (sz - 1) (joined (cstr base) (cstr relative)))"
proof (cases "cstr base = []")
  case True
  then show ?thesis using join_paths_empty_base [OF assms(1-4) True, of relative] by auto
next
  case False
  then show ?thesis using join_paths_joined [OF assms(1-4) False assms(5,6)] by auto
qed

theorem join_paths_correct_witness:
  "\<exists>dst'. join_paths (replicate 256 7) 256 demo_path demo_path = Some (0, dst') \<and>
     cstr dst' = bytes_of_string ''/tmp/a//tmp/a''"
  using join_paths_correct [of "replicate 256 7" 256 demo_path demo_path] demo_path_good
  by (auto simp: joined_def bytes_of_string_def byte_of_char_def)

text \<open>
  The test for shared objects is exact on every path buffer: it holds of the strings that
  contain \<^verbatim>\<open>.so\<close> at their end or before another dot.
\<close>

lemma shared_object_test_exact:
  assumes "length p = MAX_PATH_SIZE" and "nul_terminated p"
  shows "path_looks_like_shared_object p = Some
    (\<exists>a b. cstr p = a @ bytes_of_string ''.so'' @ b \<and> (b = [] \<or> hd b = byte_of_char CHR ''.''))"
  using path_looks_like_shared_object_spec [of p] assms by (simp add: shared_object_name_def)

lemma shared_object_test_exact_example:
  "path_looks_like_shared_object (bytes_of_string ''/lib/c.so.6'' @ replicate 245 0) = Some True"
proof -
  have "cstr (bytes_of_string ''/lib/c.so.6'' @ replicate 245 0) =
      bytes_of_string ''/lib/c'' @ bytes_of_string ''.so'' @ bytes_of_string ''.6''"
    by (simp add: cstr_def bytes_of_string_def byte_of_char_def)
  moreover have "hd (bytes_of_string ''.6'') = byte_of_char CHR ''.''"
    by (simp add: bytes_of_string_def byte_of_char_def)
  ultimately show ?thesis
    using shared_object_test_exact [of "bytes_of_string ''/lib/c.so.6'' @ replicate 245 0"]
    by (simp add: MAX_PATH_SIZE_def nul_terminated_def) blast
qed

lemma starts_with_prefix: "starts_with lit b \<longleftrightarrow> prefix (bytes_of_string lit) b"
  unfolding starts_with_def prefix_def
  by (metis append_eq_conv_conj append_take_drop_id length_bytes_of_string)

text \<open>
  The noise filters decide prefixes of the string in the buffer: a path is noise exactly
  when it starts with one of the five listed directories, and private to systemd exactly when
  it starts with one of the two.
\<close>

lemma noise_tests_exact:
  assumes "length p = MAX_PATH_SIZE"
  shows "is_noise_path p = Some (\<exists>lit \<in> {''/proc/'', ''/sys/'', ''/dev/pts/'', ''/dev/shm/'', ''/run/''}.
      prefix (bytes_of_string lit) (cstr p)) \<and>
    path_is_systemd_private_tmp_noise p = Some (\<exists>lit \<in> {''/tmp/systemd-private-'', ''/var/tmp/systemd-private-''}.
      prefix (bytes_of_string lit) (cstr p))"
proof -
  have "starts_with lit p \<longleftrightarrow> prefix (bytes_of_string lit) (cstr p)" if "0 \<notin> set (bytes_of_string lit)" for lit
    using starts_with_cstr [OF that, of p] by (simp add: starts_with_prefix)
  then have "noisy_path p \<longleftrightarrow> (\<exists>lit \<in> {''/proc/'', ''/sys/'', ''/dev/pts/'', ''/dev/shm/'', ''/run/''}.
      prefix (bytes_of_string lit) (cstr p))"
    and "systemd_private_path p \<longleftrightarrow> (\<exists>lit \<in> {''/tmp/systemd-private-'', ''/var/tmp/systemd-private-''}.
      prefix (bytes_of_string lit) (cstr p))"
    by (simp_all add: noisy_path_def systemd_private_path_def bytes_of_string_def)
  with assms show ?thesis by (simp only: is_noise_path_spec systemd_noise_spec)
qed

lemma noise_tests_exact_example:
  "is_noise_path demo_path = Some False \<and> path_is_systemd_private_tmp_noise demo_path = Some False"
  using noise_tests_exact [of demo_path] demo_path_good
  by (simp add: bytes_of_string_def byte_of_char_def)

text \<open>
  The overlay filter names the containerd snapshotter directory, but its 36 characters fill all 36
  steps of the comparison loop, so the filter keeps every path below that directory.
\<close>

lemma containerd_overlay_not_filtered:
  assumes "length p = MAX_PATH_SIZE"
    and "starts_with ''/var/lib/containerd/io.containerd.snapshotter'' p"
  shows "path_is_runtime_overlay_noise p = Some False"
proof -
  have "p ! 9 = byte_of_char CHR ''c''" "p ! 18 = byte_of_char CHR ''d''"
    using starts_with_nth(2) [OF assms(2), of 9] starts_with_nth(2) [OF assms(2), of 18] by simp_all
  then have "\<not> overlay_path p"
    using starts_with_nth(2) [of _ p 9] starts_with_nth(2) [of _ p 18]
    by (fastforce simp: overlay_path_def byte_of_char_def)
  with assms(1) show ?thesis by (simp add: overlay_noise_spec)
qed

end
