(* ===== verification/Go_Prelude.thy ===== *)
theory Go_Prelude
  imports Bpf_Prelude "HOL-Library.Sublist"
begin

text \<open>
  The part of the Go language and of its standard library that the user-space agent uses: strings
  and byte slices as byte lists, slice expressions that panic out of range, and the functions of
  the packages \<^verbatim>\<open>strings\<close>, \<^verbatim>\<open>bytes\<close>, \<^verbatim>\<open>strconv\<close> and \<^verbatim>\<open>encoding/binary\<close>.  A function whose result
  type is an \<open>option\<close> returns \<open>None\<close> where the Go code panics, unless its text says otherwise.
\<close>

named_theorems go_simps \<open>facts about Go strings, slices and numbers\<close>

abbreviation str :: "string \<Rightarrow> bytes" where
  "str \<equiv> bytes_of_string"

section \<open>Slices\<close>

text \<open>
  \<^verbatim>\<open>s[lo:hi]\<close>.  The bounds are Go \<^verbatim>\<open>int\<close> values, which may be negative.  The upper bound is
  checked against the length; the slices the agent cuts this way are bounded by their length first.
\<close>

definition go_slice :: "'a list \<Rightarrow> int \<Rightarrow> int \<Rightarrow> 'a list option" where
  "go_slice s lo hi =
     (if 0 \<le> lo \<and> lo \<le> hi \<and> hi \<le> int (length s)
      then Some (take (nat hi - nat lo) (drop (nat lo) s)) else None)"

lemma go_slice_in [go_simps]:
  "lo \<le> hi \<Longrightarrow> hi \<le> length s \<Longrightarrow> go_slice s (int lo) (int hi) = Some (take (hi - lo) (drop lo s))"
  by (simp add: go_slice_def)

lemma go_slice_head [go_simps]: "hi \<le> length s \<Longrightarrow> go_slice s 0 (int hi) = Some (take hi s)"
  by (simp add: go_slice_def)

lemma go_slice_middle [go_simps]:
  "lo = int (length a) \<Longrightarrow> hi = int (length a + length b) \<Longrightarrow> go_slice (a @ b @ c) lo hi = Some b"
  by (simp add: go_slice_def)

lemma go_slice_None:
  "go_slice s lo hi = None \<longleftrightarrow> lo < 0 \<or> hi < lo \<or> int (length s) < hi"
  by (auto simp: go_slice_def)

section \<open>Strings\<close>

text \<open>\<^verbatim>\<open>HasPrefix\<close>, \<^verbatim>\<open>HasSuffix\<close>, \<^verbatim>\<open>CutPrefix\<close> and \<^verbatim>\<open>TrimPrefix\<close> of the packages \<^verbatim>\<open>strings\<close> and \<^verbatim>\<open>bytes\<close>.\<close>

definition HasPrefix :: "bytes \<Rightarrow> bytes \<Rightarrow> bool" where
  "HasPrefix s p \<longleftrightarrow> length p \<le> length s \<and> take (length p) s = p"

definition HasSuffix :: "bytes \<Rightarrow> bytes \<Rightarrow> bool" where
  "HasSuffix s p \<longleftrightarrow> length p \<le> length s \<and> drop (length s - length p) s = p"

text \<open>Here \<open>None\<close> is the second result \<^verbatim>\<open>false\<close>.\<close>

definition CutPrefix :: "bytes \<Rightarrow> bytes \<Rightarrow> bytes option" where
  "CutPrefix s p = (if HasPrefix s p then Some (drop (length p) s) else None)"

definition TrimPrefix :: "bytes \<Rightarrow> bytes \<Rightarrow> bytes" where
  "TrimPrefix s p = (if HasPrefix s p then drop (length p) s else s)"

text \<open>\<^verbatim>\<open>Index\<close>, with \<open>None\<close> for the result -1, \<^verbatim>\<open>Cut\<close>, with \<open>None\<close> for \<^verbatim>\<open>found = false\<close>, and \<^verbatim>\<open>Contains\<close>.\<close>

fun Index :: "bytes \<Rightarrow> bytes \<Rightarrow> nat option" where
  "Index [] sub = (if sub = [] then Some 0 else None)"
| "Index (c # s) sub = (if HasPrefix (c # s) sub then Some 0 else map_option Suc (Index s sub))"

definition Cut :: "bytes \<Rightarrow> bytes \<Rightarrow> (bytes \<times> bytes) option" where
  "Cut s sep = (case Index s sep of None \<Rightarrow> None | Some i \<Rightarrow> Some (take i s, drop (i + length sep) s))"

definition Contains :: "bytes \<Rightarrow> bytes \<Rightarrow> bool" where
  "Contains s sub \<longleftrightarrow> Index s sub \<noteq> None"

lemma HasPrefix_iff [go_simps]: "HasPrefix s p \<longleftrightarrow> prefix p s"
  by (auto simp: HasPrefix_def prefix_def) (metis append_take_drop_id)

lemma HasSuffix_iff [go_simps]: "HasSuffix s p \<longleftrightarrow> suffix p s"
  by (auto simp: HasSuffix_def suffix_def) (metis append_take_drop_id)

lemma CutPrefix_iff: "CutPrefix s p = Some r \<longleftrightarrow> s = p @ r"
  by (auto simp: CutPrefix_def HasPrefix_iff prefix_def)

lemma CutPrefix_None: "CutPrefix s p = None \<longleftrightarrow> \<not> prefix p s"
  by (simp add: CutPrefix_def HasPrefix_iff)

lemma Index_split:
  assumes "Index s sub = Some i"
  shows "s = take i s @ sub @ drop (i + length sub) s" and "i + length sub \<le> length s"
proof -
  have "\<exists>a b. s = a @ sub @ b \<and> length a = i" using assms
  proof (induction s arbitrary: i)
    case (Cons c s)
    show ?case
    proof (cases "HasPrefix (c # s) sub")
      case True
      with Cons.prems show ?thesis by (auto simp: HasPrefix_iff prefix_def)
    next
      case False
      with Cons.prems obtain j where j: "Index s sub = Some j" "i = Suc j" by auto
      from Cons.IH [OF j(1)] obtain a b where "s = a @ sub @ b" "length a = j" by blast
      with j(2) have "c # s = (c # a) @ sub @ b \<and> length (c # a) = i" by simp
      then show ?thesis by blast
    qed
  qed (auto split: if_splits)
  then obtain a b where "s = a @ sub @ b" "length a = i" by blast
  then show "s = take i s @ sub @ drop (i + length sub) s" "i + length sub \<le> length s" by auto
qed

lemma Index_Some_iff: "(\<exists>i. Index s sub = Some i) \<longleftrightarrow> (\<exists>a b. s = a @ sub @ b)"
proof
  assume "\<exists>a b. s = a @ sub @ b"
  then obtain a b where "s = a @ sub @ b" by blast
  then show "\<exists>i. Index s sub = Some i"
  proof (induction a arbitrary: s)
    case Nil
    then have "HasPrefix s sub" by (simp add: HasPrefix_iff)
    then have "Index s sub = Some 0" by (cases s) (auto simp: HasPrefix_def)
    then show ?case by blast
  qed auto
qed (metis Index_split(1))

lemma Contains_iff [go_simps]: "Contains s sub \<longleftrightarrow> sublist sub s"
  using Index_Some_iff [of s sub] by (auto simp: Contains_def sublist_def)

text \<open>The first separator is found when its first byte does not occur before it.\<close>

lemma Index_fresh [go_simps]: "c \<notin> set a \<Longrightarrow> Index (a @ c # sub @ b) (c # sub) = Some (length a)"
  by (induction a) (auto simp: HasPrefix_iff)

lemma Index_byte [go_simps]:
  "Index s [c] = (if c \<in> set s then Some (length (takeWhile (\<lambda>d. d \<noteq> c) s)) else None)"
  by (induction s) (auto simp: HasPrefix_iff)

lemma Cut_fresh [go_simps]: "c \<notin> set a \<Longrightarrow> Cut (a @ c # b) [c] = Some (a, b)"
  using Index_fresh [of c a "[]" b] by (simp add: Cut_def)

lemma Cut_byte: "Cut s [c] = Some (a, b) \<longleftrightarrow> s = a @ c # b \<and> c \<notin> set a"
proof
  assume cut: "Cut s [c] = Some (a, b)"
  then have "c \<in> set s" by (auto simp: Cut_def Index_byte split: if_splits)
  then obtain a' b' where "s = a' @ c # b'" "c \<notin> set a'" by (meson split_list_first)
  with cut show "s = a @ c # b \<and> c \<notin> set a" by (simp add: Cut_fresh)
qed (simp add: Cut_fresh)

lemma Cut_None: "Cut s [c] = None \<longleftrightarrow> c \<notin> set s"
  by (simp add: Cut_def Index_byte)

text \<open>\<^verbatim>\<open>CharsToString\<close> of \<^verbatim>\<open>internal/tool/tool.go\<close>: the loop over a C character array.\<close>

primrec CharsToString_loop :: "bytes \<Rightarrow> bytes \<Rightarrow> bytes" where
  "CharsToString_loop b [] = b"
| "CharsToString_loop b (v # arr) = (if v = 0 then b else CharsToString_loop (b @ [v]) arr)"

definition CharsToString :: "bytes \<Rightarrow> bytes" where
  "CharsToString arr = CharsToString_loop [] arr"

lemma CharsToString_cstr [go_simps]: "CharsToString arr = cstr arr"
proof -
  have "CharsToString_loop b arr = b @ cstr arr" for b
    by (induction arr arbitrary: b) (simp_all add: cstr_def)
  then show ?thesis by (simp add: CharsToString_def)
qed

section \<open>Numbers\<close>

text \<open>\<^verbatim>\<open>binary.BigEndian.Uint32\<close> and \<^verbatim>\<open>PutUint32\<close>; fewer than four bytes panic.\<close>

definition Uint32 :: "bytes \<Rightarrow> u32 option" where
  "Uint32 b = (if length b < 4 then None
     else Some (ucast (b ! 3) OR push_bit 8 (ucast (b ! 2)) OR push_bit 16 (ucast (b ! 1)) OR
       push_bit 24 (ucast (b ! 0))))"

definition PutUint32 :: "u32 \<Rightarrow> bytes" where
  "PutUint32 w = [ucast (drop_bit 24 w), ucast (drop_bit 16 w), ucast (drop_bit 8 w), ucast w]"

lemma length_PutUint32 [simp]: "length (PutUint32 w) = 4"
  by (simp add: PutUint32_def)

lemma Uint32_PutUint32 [go_simps]: "Uint32 (PutUint32 w @ s) = Some w"
proof -
  have "(ucast (ucast w :: u8) OR push_bit 8 (ucast (ucast (drop_bit 8 w) :: u8)) OR
     push_bit 16 (ucast (ucast (drop_bit 16 w) :: u8)) OR
     push_bit 24 (ucast (ucast (drop_bit 24 w) :: u8)) :: u32) = w"
    by (rule bit_word_eqI, rename_tac n, case_tac "24 \<le> n", case_tac [2] "16 \<le> n") (auto simp: bit_simps not_le not_less)
  then show ?thesis by (simp add: Uint32_def PutUint32_def or.assoc)
qed

text \<open>The wrap-around of a Go \<^verbatim>\<open>int\<close>, which has 64 bits on both build targets.\<close>

definition int64 :: "int \<Rightarrow> int" where
  "int64 x = signed_take_bit 63 x"

lemma unat_u64: "unat (w :: u64) < 2 ^ 64"
  by (rule order_less_le_trans [OF unsigned_less]) simp

lemma int64_id [go_simps]: "- (2 ^ 63) \<le> x \<Longrightarrow> x < 2 ^ 63 \<Longrightarrow> int64 x = x"
  unfolding int64_def by (rule signed_take_bit_int_eq_self) simp_all

lemma int64_over: "2 ^ 63 \<le> x \<Longrightarrow> x < 2 ^ 64 \<Longrightarrow> int64 x = x - 2 ^ 64"
proof -
  assume "2 ^ 63 \<le> x" "x < 2 ^ 64"
  moreover have "(y + 18446744073709551616) mod 18446744073709551616 = y" if "0 \<le> y" "y < 18446744073709551616" for y :: int
    using that by simp
  note this [of "x - 9223372036854775808"]
  ultimately show ?thesis
    by (simp add: int64_def signed_take_bit_eq_take_bit_shift take_bit_eq_mod add.commute)
qed

text \<open>
  \<^verbatim>\<open>strconv.ParseUint(s, 16, 64)\<close>: at least one hexadecimal digit of either case and nothing else, and
  a value that fits 64 bits.  Both kinds of error are \<open>None\<close>.
\<close>

definition hex_digit :: "u8 \<Rightarrow> nat option" where
  "hex_digit c = (let n = unat c in
     if 48 \<le> n \<and> n \<le> 57 then Some (n - 48)
     else if 97 \<le> n \<and> n \<le> 102 then Some (n - 87)
     else if 65 \<le> n \<and> n \<le> 70 then Some (n - 55) else None)"

fun ParseUint_loop :: "nat \<Rightarrow> bytes \<Rightarrow> nat option" where
  "ParseUint_loop n [] = Some n"
| "ParseUint_loop n (c # s) = (case hex_digit c of None \<Rightarrow> None
     | Some d \<Rightarrow> if n * 16 + d < 2 ^ 64 then ParseUint_loop (n * 16 + d) s else None)"

definition ParseUint16 :: "bytes \<Rightarrow> u64 option" where
  "ParseUint16 s = (if s = [] then None else map_option word_of_nat (ParseUint_loop 0 s))"

text \<open>\<^verbatim>\<open>strconv.FormatUint(n, 16)\<close>, the digits a sender of chunks writes.\<close>

definition hex_char :: "nat \<Rightarrow> u8" where
  "hex_char d = word_of_nat (if d < 10 then 48 + d else 87 + d)"

fun FormatUint16 :: "nat \<Rightarrow> bytes" where
  "FormatUint16 n = (if n < 16 then [hex_char n] else FormatUint16 (n div 16) @ [hex_char (n mod 16)])"

declare FormatUint16.simps [simp del]

lemma hex_digit_char [simp]: "d < 16 \<Longrightarrow> hex_digit (hex_char d) = Some d"
  by (simp add: hex_digit_def hex_char_def unat_of_nat Let_def)

lemma hex_char_graphic: "d < 16 \<Longrightarrow> 32 < unat (hex_char d) \<and> unat (hex_char d) < 127"
  by (simp add: hex_char_def unat_of_nat)

lemma ParseUint_loop_append:
  "ParseUint_loop n (s @ t) = Option.bind (ParseUint_loop n s) (\<lambda>m. ParseUint_loop m t)"
  by (induction s arbitrary: n) (auto split: option.splits)

lemma ParseUint_loop_Format: "n < 2 ^ 64 \<Longrightarrow> ParseUint_loop 0 (FormatUint16 n) = Some n"
proof (induction n rule: FormatUint16.induct)
  case (1 n)
  show ?case
  proof (cases "n < 16")
    case False
    then have "ParseUint_loop 0 (FormatUint16 (n div 16)) = Some (n div 16)" using 1 by simp
    moreover have "n div 16 * 16 + n mod 16 = n" by (rule div_mult_mod_eq)
    ultimately show ?thesis
      using 1 False FormatUint16.simps [of n] by (simp add: ParseUint_loop_append)
  qed (simp add: FormatUint16.simps)
qed

lemma FormatUint16_ne [simp]: "FormatUint16 n \<noteq> []"
  by (subst FormatUint16.simps) simp

lemma ParseUint16_Format [go_simps]: "n < 2 ^ 64 \<Longrightarrow> ParseUint16 (FormatUint16 n) = Some (word_of_nat n)"
  by (simp add: ParseUint16_def ParseUint_loop_Format)

lemma FormatUint16_graphic: "c \<in> set (FormatUint16 n) \<Longrightarrow> 32 < unat c \<and> unat c < 127"
proof (induction n rule: FormatUint16.induct)
  case (1 n)
  then show ?case
    by (subst (asm) (2) FormatUint16.simps) (auto simp: hex_char_graphic split: if_splits)
qed

section \<open>Channels\<close>

text \<open>
  A buffered channel is the list of the values in it.  \<^verbatim>\<open>select { case ch <- x: default: }\<close> drops the value when
  the buffer is full.
\<close>

definition try_send :: "nat \<Rightarrow> 'a list \<Rightarrow> 'a \<Rightarrow> 'a list" where
  "try_send cap ch x = (if length ch < cap then ch @ [x] else ch)"

lemma try_send_room [simp]: "length ch < cap \<Longrightarrow> try_send cap ch x = ch @ [x]"
  by (simp add: try_send_def)

lemma length_try_send: "length ch \<le> cap \<Longrightarrow> length (try_send cap ch x) \<le> cap"
  by (simp add: try_send_def)

end
