(* ===== verification/Fileop_Policy.thy ===== *)
theory Fileop_Policy
  imports Fileop_Properties Go_Prelude
begin

text \<open>
  The user-space side of the file-operation probe, \<^verbatim>\<open>fileop/probe.go\<close> and \<^verbatim>\<open>fileop/policy.go\<close>: attaching
  the tracepoints, decoding a ring-buffer event, and the policy that selects the events to report.
  The paths are Go strings, that is byte lists.  The JSON decoder is a parameter.
\<close>

section \<open>Events\<close>

definition fileOpOpen :: u8 where "fileOpOpen = 1"
definition fileOpWrite :: u8 where "fileOpWrite = 2"
definition fileOpDelete :: u8 where "fileOpDelete = 3"
definition fileOpRename :: u8 where "fileOpRename = 4"
definition fileOpMmapRead :: u8 where "fileOpMmapRead = 5"
definition fileOpMmapWrite :: u8 where "fileOpMmapWrite = 6"
definition fileOpHardlink :: u8 where "fileOpHardlink = 7"
definition fileOpSymlink :: u8 where "fileOpSymlink = 8"

lemmas fileOp_defs = fileOpOpen_def fileOpWrite_def fileOpDelete_def fileOpRename_def
  fileOpMmapRead_def fileOpMmapWrite_def fileOpHardlink_def fileOpSymlink_def

definition openAccMode :: u64 where "openAccMode = 0x3"
definition openRdOnly :: u64 where "openRdOnly = 0x0"
definition openWrOnly :: u64 where "openWrOnly = 0x1"
definition openRdWr :: u64 where "openRdWr = 0x2"
definition openAppend :: u64 where "openAppend = 0x400"
definition openCreate :: u64 where "openCreate = 0x40"
definition openTrunc :: u64 where "openTrunc = 0x200"

lemmas open_defs = openAccMode_def openRdOnly_def openWrOnly_def openRdWr_def openAppend_def
  openCreate_def openTrunc_def

record RawFileOp =
  rf_ElapsedNs :: u64
  rf_PidTGid :: u64
  rf_UidGid :: u64
  rf_CgroupID :: u64
  rf_Comm :: bytes
  rf_Op :: bytes
  rf_Access :: bytes
  rf_Path :: bytes
  rf_NewPath :: bytes
  rf_Bytes :: u64
  rf_Flags :: u64
  rf_Create :: bool
  rf_Truncate :: bool
  rf_Append :: bool

definition decodeOpenAccess :: "u64 \<Rightarrow> bytes" where
  "decodeOpenAccess flags = (let m = flags AND openAccMode in
     if m = openRdOnly then str ''read''
     else if m = openWrOnly then str ''write''
     else if m = openRdWr then str ''read_write'' else [])"

text \<open>The result \<open>None\<close> is \<^verbatim>\<open>nil\<close>.\<close>

definition toRawFileOp :: "fileop_event \<Rightarrow> RawFileOp option" where
  "toRawFileOp event = (let path = CharsToString (fe_path event) in
     if path = [] then None
     else let raw = \<lparr>rf_ElapsedNs = fe_timestamp_ns event, rf_PidTGid = fe_pid_tgid event,
       rf_UidGid = fe_uid_gid event, rf_CgroupID = fe_cgroup_id event,
       rf_Comm = CharsToString (fe_comm event), rf_Op = [], rf_Access = [], rf_Path = path,
       rf_NewPath = CharsToString (fe_new_path event), rf_Bytes = fe_bytes event,
       rf_Flags = fe_flags event, rf_Create = False, rf_Truncate = False, rf_Append = False\<rparr>
     in if fe_op event = fileOpOpen then
          Some (raw\<lparr>rf_Op := str ''open'', rf_Access := decodeOpenAccess (fe_flags event),
            rf_Create := (fe_flags event AND openCreate \<noteq> 0),
            rf_Truncate := (fe_flags event AND openTrunc \<noteq> 0),
            rf_Append := (fe_flags event AND openAppend \<noteq> 0)\<rparr>)
        else if fe_op event = fileOpWrite then Some (raw\<lparr>rf_Op := str ''write''\<rparr>)
        else if fe_op event = fileOpDelete then Some (raw\<lparr>rf_Op := str ''delete''\<rparr>)
        else if fe_op event = fileOpRename then Some (raw\<lparr>rf_Op := str ''rename''\<rparr>)
        else if fe_op event = fileOpMmapRead then Some (raw\<lparr>rf_Op := str ''mmap_read''\<rparr>)
        else if fe_op event = fileOpMmapWrite then Some (raw\<lparr>rf_Op := str ''mmap_write''\<rparr>)
        else if fe_op event = fileOpHardlink then Some (raw\<lparr>rf_Op := str ''hardlink''\<rparr>)
        else if fe_op event = fileOpSymlink then Some (raw\<lparr>rf_Op := str ''symlink''\<rparr>)
        else None)"

section \<open>The policy\<close>

record MatchPolicy =
  Prefixes :: "bytes list"
  HomePrefixes :: "bytes list"
  Suffixes :: "bytes list"

record Policy =
  Read :: MatchPolicy
  Write :: MatchPolicy

primrec matchesAnyPrefix :: "bytes \<Rightarrow> bytes list \<Rightarrow> bool" where
  "matchesAnyPrefix path [] = False"
| "matchesAnyPrefix path (p # ps) = (if HasPrefix path p then True else matchesAnyPrefix path ps)"

primrec matchesAnySuffix :: "bytes \<Rightarrow> bytes list \<Rightarrow> bool" where
  "matchesAnySuffix path [] = False"
| "matchesAnySuffix path (s # ss) = (if HasSuffix path s then True else matchesAnySuffix path ss)"

text \<open>A second result \<^verbatim>\<open>false\<close> is \<open>None\<close>.\<close>

definition normalizeHomeScopedPath :: "bytes \<Rightarrow> bytes option" where
  "normalizeHomeScopedPath path = (let path = TrimPrefix path (str ''/'') in
     if path = [] then None else Some path)"

definition homeScopedPath :: "bytes \<Rightarrow> bytes option" where
  "homeScopedPath path =
     (if path = str ''/root'' then None
      else case CutPrefix path (str ''/root/'') of
        Some rest \<Rightarrow> normalizeHomeScopedPath rest
      | None \<Rightarrow>
          (case CutPrefix path (str ''/home/'') of
             None \<Rightarrow> None
           | Some rest \<Rightarrow>
               (case Cut rest (str ''/'') of
                  None \<Rightarrow> None
                | Some (_, suff) \<Rightarrow> normalizeHomeScopedPath suff)))"

definition matchPath :: "bytes \<Rightarrow> bytes list \<Rightarrow> bytes list \<Rightarrow> bytes list \<Rightarrow> bool" where
  "matchPath path prefs homePrefixes sufs =
     (if matchesAnyPrefix path prefs \<or> matchesAnySuffix path sufs then True
      else case homeScopedPath path of
        None \<Rightarrow> False
      | Some homePath \<Rightarrow> matchesAnyPrefix homePath homePrefixes)"

definition matchesReadPath :: "Policy \<Rightarrow> bytes \<Rightarrow> bool" where
  "matchesReadPath p path = matchPath path (Prefixes (Read p)) (HomePrefixes (Read p)) (Suffixes (Read p))"

definition matchesWritePath :: "Policy \<Rightarrow> bytes \<Rightarrow> bool" where
  "matchesWritePath p path = matchPath path (Prefixes (Write p)) (HomePrefixes (Write p)) (Suffixes (Write p))"

definition matchesSensitivePath :: "Policy \<Rightarrow> bytes \<Rightarrow> bool" where
  "matchesSensitivePath p path \<longleftrightarrow> matchesReadPath p path \<or> matchesWritePath p path"

definition matchesOpen :: "Policy \<Rightarrow> RawFileOp \<Rightarrow> bool" where
  "matchesOpen p raw =
     (if rf_Access raw = str ''read'' then matchesReadPath p (rf_Path raw)
      else if rf_Access raw = str ''write'' then matchesWritePath p (rf_Path raw)
      else if rf_Access raw = str ''read_write''
        then matchesReadPath p (rf_Path raw) \<or> matchesWritePath p (rf_Path raw)
      else False)"

definition Matches :: "Policy \<Rightarrow> RawFileOp \<Rightarrow> bool" where
  "Matches p raw =
     (if rf_Op raw = str ''open'' then matchesOpen p raw
      else if rf_Op raw = str ''mmap_read'' then matchesReadPath p (rf_Path raw)
      else if rf_Op raw = str ''write'' \<or> rf_Op raw = str ''mmap_write''
        then matchesWritePath p (rf_Path raw)
      else if rf_Op raw = str ''delete'' then matchesWritePath p (rf_Path raw)
      else if rf_Op raw = str ''rename''
        then matchesWritePath p (rf_Path raw) \<or> matchesWritePath p (rf_NewPath raw)
      else if rf_Op raw = str ''hardlink'' \<or> rf_Op raw = str ''symlink''
        then matchesSensitivePath p (rf_Path raw) \<or> matchesWritePath p (rf_NewPath raw)
      else False)"

primrec normalizeHomePrefixes :: "bytes list \<Rightarrow> bytes list" where
  "normalizeHomePrefixes [] = []"
| "normalizeHomePrefixes (p # ps) = TrimPrefix p (str ''/'') # normalizeHomePrefixes ps"

definition normalize :: "Policy \<Rightarrow> Policy" where
  "normalize p = p\<lparr>Read := (Read p)\<lparr>HomePrefixes := normalizeHomePrefixes (HomePrefixes (Read p))\<rparr>,
     Write := (Write p)\<lparr>HomePrefixes := normalizeHomePrefixes (HomePrefixes (Write p))\<rparr>\<rparr>"

text \<open>\<^verbatim>\<open>loadPolicyBytes\<close>; \<open>unmarshal\<close> is the JSON decoder and an error is \<open>None\<close>.\<close>

definition filepath_Ext :: "bytes \<Rightarrow> bytes" where
  "filepath_Ext path = (let base = rev (takeWhile (\<lambda>c. c \<noteq> byte_of_char CHR ''/'') (rev path)) in
     if byte_of_char CHR ''.'' \<in> set base
     then byte_of_char CHR ''.'' # rev (takeWhile (\<lambda>c. c \<noteq> byte_of_char CHR ''.'') (rev base)) else [])"

definition ToLower :: "bytes \<Rightarrow> bytes" where
  "ToLower s = map (\<lambda>c. if 65 \<le> unat c \<and> unat c \<le> 90 then c + 32 else c) s"

definition loadPolicyBytes :: "(bytes \<Rightarrow> Policy option) \<Rightarrow> bytes \<Rightarrow> bytes \<Rightarrow> Policy option" where
  "loadPolicyBytes unmarshal data source =
     (if source \<noteq> [] \<and> ToLower (filepath_Ext source) \<noteq> str ''.json'' then None
      else map_option normalize (unmarshal data))"

text \<open>The embedded policy, \<^verbatim>\<open>fileop/default-policy.json\<close>.\<close>

definition secret_suffixes :: "bytes list" where
  "secret_suffixes = map str [''.env'', ''.env.local'', ''.env.production'', ''.env.development'',
     ''.env.test'', ''.bashrc'', ''.zshrc'', ''.zprofile'', ''.bash_profile'', ''.bash_login'',
     ''.bash_logout'', ''.cshrc'', ''.cshdirs'', ''.profile'', ''.login'', ''.logout'', ''.history'',
     ''.bash_history'', ''.zsh_history'', ''.pem'', ''.key'', ''.npmrc'', ''.pypirc'', ''.netrc'']"

definition default_policy :: Policy where
  "default_policy = \<lparr>Read = \<lparr>
       Prefixes = map str [''/boot'', ''/etc/passwd'', ''/etc/group'', ''/etc/shadow'', ''/etc/ssh/'',
         ''/etc/profile'', ''/etc/sudoers'', ''/etc/pam.conf'', ''/etc/bashrc'', ''/etc/csh.cshrc'',
         ''/etc/csh.login''],
       HomePrefixes = map str [''.ssh/'', ''.config/''], Suffixes = secret_suffixes\<rparr>,
     Write = \<lparr>
       Prefixes = map str [''/etc'', ''/boot'', ''/lib'', ''/lib64'', ''/bin'', ''/usr/lib'',
         ''/usr/local/lib'', ''/usr/local/sbin'', ''/usr/local/bin'', ''/usr/bin'', ''/usr/sbin'',
         ''/var/log'', ''/dev/log''],
       HomePrefixes = map str [''.ssh/'', ''.config/''], Suffixes = secret_suffixes\<rparr>\<rparr>"

section \<open>The reader loop\<close>

text \<open>
  One turn of the loop in \<^verbatim>\<open>Start\<close> on an event that was read from the ring and decoded: the value it
  tries to send on the channel, if any.
\<close>

definition select_event :: "Policy \<Rightarrow> fileop_event \<Rightarrow> RawFileOp option" where
  "select_event policy event =
     (case toRawFileOp event of
        None \<Rightarrow> None
      | Some raw \<Rightarrow> if \<not> Matches policy raw then None else Some raw)"

section \<open>Attaching the tracepoints\<close>

definition tracepoints :: "bytes list" where
  "tracepoints = map str [''sys_enter_open'', ''sys_enter_openat'', ''sys_enter_openat2'',
     ''sys_exit_open'', ''sys_exit_openat'', ''sys_exit_openat2'', ''sys_enter_write'',
     ''sys_exit_write'', ''sys_enter_mmap'', ''sys_enter_close'', ''sys_enter_unlinkat'',
     ''sys_enter_rename'', ''sys_enter_renameat'', ''sys_enter_renameat2'', ''sys_enter_link'',
     ''sys_enter_linkat'', ''sys_enter_symlink'', ''sys_enter_symlinkat'']"

definition unsupportedFileOpTracepoint :: "bytes \<Rightarrow> bytes \<Rightarrow> bool" where
  "unsupportedFileOpTracepoint goarch name =
     (if goarch \<noteq> str ''arm64'' then False
      else name \<in> set (map str [''sys_enter_open'', ''sys_exit_open'', ''sys_enter_rename'',
        ''sys_enter_link'', ''sys_enter_symlink'']))"

text \<open>
  The loop of \<^verbatim>\<open>attachFileOpProbes\<close>.  \<open>tracepoint\<close> is \<^verbatim>\<open>link.Tracepoint\<close>, \<open>None\<close> being an error.  The
  result is the list of links, or on an error the name that failed and the links that were closed.
\<close>

primrec attach_loop ::
  "(bytes \<Rightarrow> 'l option) \<Rightarrow> bytes \<Rightarrow> 'l list \<Rightarrow> bytes list \<Rightarrow> (bytes \<times> 'l list) + 'l list" where
  "attach_loop tracepoint goarch links [] = Inr links"
| "attach_loop tracepoint goarch links (name # probes) =
     (if unsupportedFileOpTracepoint goarch name then attach_loop tracepoint goarch links probes
      else case tracepoint name of
        None \<Rightarrow> Inl (name, links)
      | Some l \<Rightarrow> attach_loop tracepoint goarch (links @ [l]) probes)"

definition attachFileOpProbes :: "(bytes \<Rightarrow> 'l option) \<Rightarrow> bytes \<Rightarrow> (bytes \<times> 'l list) + 'l list" where
  "attachFileOpProbes tracepoint goarch = attach_loop tracepoint goarch [] tracepoints"

text \<open>
  Attaching is all or nothing: either every tracepoint the architecture has is attached, in order,
  or the first one that fails is named and every link made before it is closed.
\<close>

lemma attach_loop_links:
  "attach_loop tp goarch acc ns = Inr links \<longleftrightarrow>
     (\<exists>new. links = acc @ new \<and> map tp (filter (\<lambda>n. \<not> unsupportedFileOpTracepoint goarch n) ns) = map Some new)"
proof (induction ns arbitrary: acc)
  case (Cons n ns)
  then show ?case
    by (cases "tp n") (auto simp: Cons_eq_map_conv map_eq_Cons_conv)
qed auto

lemma attach_loop_error:
  "attach_loop tp goarch acc ns = Inl (name, closed) \<Longrightarrow>
     \<exists>before rest new. filter (\<lambda>n. \<not> unsupportedFileOpTracepoint goarch n) ns = before @ name # rest \<and>
       tp name = None \<and> map tp before = map Some new \<and> closed = acc @ new"
proof (induction ns arbitrary: acc)
  case (Cons n ns)
  show ?case
  proof (cases "unsupportedFileOpTracepoint goarch n \<or> tp n = None")
    case True
    then show ?thesis using Cons by (auto intro: exI [of _ "[]"] split: option.splits)
  next
    case False
    then obtain l where l: "tp n = Some l" "\<not> unsupportedFileOpTracepoint goarch n" by auto
    then obtain before rest new where
      "filter (\<lambda>n. \<not> unsupportedFileOpTracepoint goarch n) ns = before @ name # rest"
      "tp name = None" "map tp before = map Some new" "closed = (acc @ [l]) @ new"
      using Cons by (fastforce split: option.splits)
    then show ?thesis using l by (intro exI [of _ "n # before"] exI [of _ rest] exI [of _ "l # new"]) simp
  qed
qed simp

section \<open>What the policy selects\<close>

text \<open>
  The specification of a home-relative path: the part below \<^verbatim>\<open>/root/\<close> or below \<^verbatim>\<open>/home/<user>/\<close>, without
  one further slash, when it is not empty.
\<close>

inductive below_home :: "bytes \<Rightarrow> bytes \<Rightarrow> bool" where
  root: "below_home (str ''/root/'' @ r) r"
| user: "byte_of_char CHR ''/'' \<notin> set u \<Longrightarrow> below_home (str ''/home/'' @ u @ byte_of_char CHR ''/'' # r) r"

definition home_file :: "bytes \<Rightarrow> bytes \<Rightarrow> bool" where
  "home_file path rest \<longleftrightarrow> rest \<noteq> [] \<and> (below_home path (byte_of_char CHR ''/'' # rest) \<or>
     below_home path rest \<and> hd rest \<noteq> byte_of_char CHR ''/'')"

definition path_listed :: "MatchPolicy \<Rightarrow> bytes \<Rightarrow> bool" where
  "path_listed m path \<longleftrightarrow> (\<exists>p \<in> set (Prefixes m). prefix p path) \<or>
     (\<exists>s \<in> set (Suffixes m). suffix s path) \<or>
     (\<exists>rest. home_file path rest \<and> (\<exists>h \<in> set (HomePrefixes m). prefix h rest))"

definition opens_for_read :: "u64 \<Rightarrow> bool" where
  "opens_for_read flags \<longleftrightarrow> flags AND 3 = 0 \<or> flags AND 3 = 2"

definition opens_for_write :: "u64 \<Rightarrow> bool" where
  "opens_for_write flags \<longleftrightarrow> flags AND 3 = 1 \<or> flags AND 3 = 2"

primrec event_sensitive :: "Policy \<Rightarrow> fileop_event \<Rightarrow> file_op_type \<Rightarrow> bool" where
  "event_sensitive p e FILE_OP_OPEN \<longleftrightarrow>
     opens_for_read (fe_flags e) \<and> path_listed (Read p) (cstr (fe_path e)) \<or>
     opens_for_write (fe_flags e) \<and> path_listed (Write p) (cstr (fe_path e))"
| "event_sensitive p e FILE_OP_WRITE \<longleftrightarrow> path_listed (Write p) (cstr (fe_path e))"
| "event_sensitive p e FILE_OP_DELETE \<longleftrightarrow> path_listed (Write p) (cstr (fe_path e))"
| "event_sensitive p e FILE_OP_RENAME \<longleftrightarrow>
     path_listed (Write p) (cstr (fe_path e)) \<or> path_listed (Write p) (cstr (fe_new_path e))"
| "event_sensitive p e FILE_OP_MMAP_READ \<longleftrightarrow> path_listed (Read p) (cstr (fe_path e))"
| "event_sensitive p e FILE_OP_MMAP_WRITE \<longleftrightarrow> path_listed (Write p) (cstr (fe_path e))"
| "event_sensitive p e FILE_OP_HARDLINK \<longleftrightarrow> path_listed (Read p) (cstr (fe_path e)) \<or>
     path_listed (Write p) (cstr (fe_path e)) \<or> path_listed (Write p) (cstr (fe_new_path e))"
| "event_sensitive p e FILE_OP_SYMLINK \<longleftrightarrow> path_listed (Read p) (cstr (fe_path e)) \<or>
     path_listed (Write p) (cstr (fe_path e)) \<or> path_listed (Write p) (cstr (fe_new_path e))"

primrec op_name :: "file_op_type \<Rightarrow> bytes" where
  "op_name FILE_OP_OPEN = str ''open''"
| "op_name FILE_OP_WRITE = str ''write''"
| "op_name FILE_OP_DELETE = str ''delete''"
| "op_name FILE_OP_RENAME = str ''rename''"
| "op_name FILE_OP_MMAP_READ = str ''mmap_read''"
| "op_name FILE_OP_MMAP_WRITE = str ''mmap_write''"
| "op_name FILE_OP_HARDLINK = str ''hardlink''"
| "op_name FILE_OP_SYMLINK = str ''symlink''"

lemma matchesAnyPrefix_iff [go_simps]: "matchesAnyPrefix path ps \<longleftrightarrow> (\<exists>p \<in> set ps. prefix p path)"
  by (induction ps) (auto simp: HasPrefix_iff)

lemma matchesAnySuffix_iff [go_simps]: "matchesAnySuffix path ss \<longleftrightarrow> (\<exists>s \<in> set ss. suffix s path)"
  by (induction ss) (auto simp: HasSuffix_iff)

lemma str_slash: "str ''/'' = [byte_of_char CHR ''/'']"
  by (simp add: bytes_of_string_def byte_of_char_def)

lemma normalizeHomeScopedPath_iff:
  "normalizeHomeScopedPath r = Some rest \<longleftrightarrow>
     rest \<noteq> [] \<and> (r = byte_of_char CHR ''/'' # rest \<or> r = rest \<and> hd rest \<noteq> byte_of_char CHR ''/'')"
  by (cases r) (auto simp: normalizeHomeScopedPath_def TrimPrefix_def HasPrefix_def str_slash Let_def)

lemma below_home_cut:
  "below_home path r \<longleftrightarrow> CutPrefix path (str ''/root/'') = Some r \<or>
     (\<exists>rest u. CutPrefix path (str ''/home/'') = Some rest \<and> Cut rest (str ''/'') = Some (u, r))"
  by (auto simp: below_home.simps CutPrefix_iff str_slash Cut_byte)

lemma root_home_differ: "CutPrefix path (str ''/root/'') = Some r \<Longrightarrow> CutPrefix path (str ''/home/'') = None"
  by (auto simp: CutPrefix_def HasPrefix_def CutPrefix_iff bytes_of_string_def)

lemma homeScopedPath_iff: "homeScopedPath path = Some rest \<longleftrightarrow> home_file path rest"
proof -
  have nr: "CutPrefix (str ''/root'') (str ''/root/'') = None" "CutPrefix (str ''/root'') (str ''/home/'') = None"
    by (simp_all add: CutPrefix_def HasPrefix_def bytes_of_string_def)
  have "homeScopedPath path = Some rest \<longleftrightarrow> (\<exists>r. below_home path r \<and> normalizeHomeScopedPath r = Some rest)"
    using root_home_differ [of path] nr
    by (auto simp: homeScopedPath_def below_home_cut split: option.splits)
  then show ?thesis by (auto simp: home_file_def normalizeHomeScopedPath_iff)
qed

lemma matchPath_iff:
  "matchPath path (Prefixes m) (HomePrefixes m) (Suffixes m) \<longleftrightarrow> path_listed m path"
  by (auto simp: matchPath_def path_listed_def matchesAnyPrefix_iff matchesAnySuffix_iff
      homeScopedPath_iff [symmetric] split: option.splits)

lemmas path_match_simps = matchesReadPath_def matchesWritePath_def matchesSensitivePath_def matchPath_iff

lemma decodeOpenAccess_cases:
  "decodeOpenAccess flags = str ''read'' \<longleftrightarrow> flags AND 3 = 0"
  "decodeOpenAccess flags = str ''write'' \<longleftrightarrow> flags AND 3 = 1"
  "decodeOpenAccess flags = str ''read_write'' \<longleftrightarrow> flags AND 3 = 2"
  by (auto simp: decodeOpenAccess_def open_defs Let_def bytes_of_string_def)

lemma op_name_eq_iff:
  "op_name op = str ''open'' \<longleftrightarrow> op = FILE_OP_OPEN"
  "op_name op = str ''mmap_read'' \<longleftrightarrow> op = FILE_OP_MMAP_READ"
  "op_name op = str ''write'' \<longleftrightarrow> op = FILE_OP_WRITE"
  "op_name op = str ''mmap_write'' \<longleftrightarrow> op = FILE_OP_MMAP_WRITE"
  "op_name op = str ''delete'' \<longleftrightarrow> op = FILE_OP_DELETE"
  "op_name op = str ''rename'' \<longleftrightarrow> op = FILE_OP_RENAME"
  "op_name op = str ''hardlink'' \<longleftrightarrow> op = FILE_OP_HARDLINK"
  "op_name op = str ''symlink'' \<longleftrightarrow> op = FILE_OP_SYMLINK"
  by (cases op; simp add: bytes_of_string_def)+

text \<open>Decoding succeeds on every event with a non-empty path and an operation code of the kernel side.\<close>

lemma toRawFileOp_event:
  assumes "fe_op e = op_code op" and "cstr (fe_path e) \<noteq> []"
  shows "\<exists>raw. toRawFileOp e = Some raw \<and> rf_Op raw = op_name op \<and> rf_Path raw = cstr (fe_path e) \<and>
    rf_NewPath raw = cstr (fe_new_path e) \<and> rf_Comm raw = cstr (fe_comm e) \<and>
    rf_PidTGid raw = fe_pid_tgid e \<and> rf_Bytes raw = fe_bytes e \<and> rf_Flags raw = fe_flags e \<and>
    (op = FILE_OP_OPEN \<longrightarrow> rf_Access raw = decodeOpenAccess (fe_flags e))"
  using assms by (cases op) (simp_all add: toRawFileOp_def CharsToString_cstr fileOp_defs Let_def)

lemma reachable_event:
  assumes "fileop_reachable st" and "e \<in> set (rb_log (events st))"
  obtains op where "fe_op e = op_code op" and "cstr (fe_path e) \<noteq> []" and "op_paths_ok op e"
proof -
  obtain op where op: "fe_op e = op_code op" "op_paths_ok op e"
    using fileop_reachable_inv [OF assms(1)] assms(2) by (auto simp: fileop_inv_def event_ok_def)
  then have "good_path (fe_path e)" by (cases op) (auto simp: kept_path_def fd_event_path_def)
  with op show ?thesis using that by (simp add: good_path_def)
qed

lemma matchesOpen_event:
  assumes "rf_Path raw = cstr (fe_path e)" and "rf_Access raw = decodeOpenAccess (fe_flags e)"
  shows "matchesOpen policy raw \<longleftrightarrow> event_sensitive policy e FILE_OP_OPEN"
  unfolding matchesOpen_def assms decodeOpenAccess_cases
  by (simp add: path_match_simps opens_for_read_def opens_for_write_def)

lemma Matches_event:
  assumes "rf_Op raw = op_name op"
    and "rf_Path raw = cstr (fe_path e)" and "rf_NewPath raw = cstr (fe_new_path e)"
    and "op = FILE_OP_OPEN \<longrightarrow> rf_Access raw = decodeOpenAccess (fe_flags e)"
  shows "Matches policy raw \<longleftrightarrow> event_sensitive policy e op"
proof (cases "op = FILE_OP_OPEN")
  case True
  then show ?thesis using assms matchesOpen_event [of raw e policy]
    by (simp only: Matches_def op_name_eq_iff if_True simp_thms)
next
  case False
  then show ?thesis
    unfolding Matches_def assms(1-3) op_name_eq_iff by (cases op) (simp_all add: path_match_simps disj_assoc)
qed

lemma demo_open_logged:
  obtains st e where "fileop_reachable st" and "e \<in> set (rb_log (events st))" and "fe_op e = 1"
    and "cstr (fe_path e) = str ''/etc/hosts''" and "fe_flags e = 2"
proof -
  let ?E = "demo_file_env ''/etc/hosts''"
  note inv = fileop_reachable_inv [OF demo_file_reachable]
  obtain st1 where st1: "trace_enter_openat ?E demo_openat demo_file_state = Some st1" "fd_paths st1 = []"
    by (rule demo_enter)
  obtain p st3 where st3: "trace_exit_openat ?E (demo_exit 3) st1 = Some st3" "cstr p = str ''/etc/hosts''"
    "rb_log (events st3) = rb_log (events st1) @ (if overlay_path p then []
       else [fd_event ?E (fresh_value p 2) FILE_OP_OPEN 0])"
    using open_session [OF demo_file_env_ok inv _ _ _ _ st1(1) open_calls.others_refl,
      of ?E "demo_exit 3"] st1(2) by (auto simp: demo_hosts_path)
  have "\<not> overlay_path (cstr p)"
    unfolding st3(2) by (simp add: overlay_path_def starts_with_def bytes_of_string_def byte_of_char_def)
  then have "\<not> overlay_path p" by (simp add: overlay_path_cstr)
  moreover have "fileop_reachable st1"
    using fileop_reachable.step [OF demo_file_reachable demo_file_env_ok, of "EnterOpenat demo_openat" "''/etc/hosts''"] st1 by simp
  ultimately show ?thesis
    using fileop_reachable.step [OF _ demo_file_env_ok, of st1 "ExitOpenat (demo_exit 3)" "''/etc/hosts''" st3] st3
    by (intro that [of st3 "fd_event ?E (fresh_value p 2) FILE_OP_OPEN 0"])
      (simp_all add: fd_event_def fresh_value_def)
qed

section \<open>Properties\<close>

text \<open>
  C21: the two sides of the ring agree on the event type.  Every event that is in the ring of a reachable
  kernel state is decoded: the agent gets the name of the operation the kernel program meant, a
  non-empty path, the second path, the command name, the process, the byte count and the flags.
\<close>

theorem kernel_events_decode:
  assumes "fileop_reachable st" and "e \<in> set (rb_log (events st))"
  shows "\<exists>op raw. fe_op e = op_code op \<and> toRawFileOp e = Some raw \<and> rf_Op raw = op_name op \<and>
    rf_Path raw = cstr (fe_path e) \<and> rf_Path raw \<noteq> [] \<and> rf_NewPath raw = cstr (fe_new_path e) \<and>
    rf_Comm raw = cstr (fe_comm e) \<and> rf_PidTGid raw = fe_pid_tgid e \<and> rf_Bytes raw = fe_bytes e \<and>
    rf_Flags raw = fe_flags e"
proof -
  obtain op where op: "fe_op e = op_code op" "cstr (fe_path e) \<noteq> []"
    using reachable_event [OF assms] by blast
  then show ?thesis using toRawFileOp_event [OF op] by auto
qed

theorem kernel_events_decode_witness:
  "\<exists>e raw. toRawFileOp e = Some raw \<and> rf_Op raw = str ''open'' \<and> rf_Path raw = str ''/etc/hosts''"
proof -
  obtain st e where e: "fileop_reachable st" "e \<in> set (rb_log (events st))" "fe_op e = 1"
    "cstr (fe_path e) = str ''/etc/hosts''" by (rule demo_open_logged)
  then obtain op raw where "fe_op e = op_code op" "toRawFileOp e = Some raw" "rf_Op raw = op_name op"
    "rf_Path raw = str ''/etc/hosts''" using kernel_events_decode [OF e(1,2)] by auto
  moreover have "op = FILE_OP_OPEN" using \<open>fe_op e = op_code op\<close> e(3) by (cases op) simp_all
  ultimately show ?thesis by auto
qed

text \<open>
  C6: the agent reports exactly the sensitive events.  For an event of a reachable kernel state, the
  reader loop sends a record if and only if the policy lists the path for the kind of access: an
  open is judged by its access mode, a mapping by its direction, writes and deletes by the write
  list, a rename by either path, and a link by its target on both lists or its name on the write
  list.  A path is listed by prefix, by suffix, or by the part below a home directory.
\<close>

theorem sensitive_events_selected:
  assumes "fileop_reachable st" and "e \<in> set (rb_log (events st))" and "fe_op e = op_code op"
  shows "(select_event policy e \<noteq> None) = event_sensitive policy e op"
proof -
  obtain op' where op': "fe_op e = op_code op'" "cstr (fe_path e) \<noteq> []"
    using reachable_event [OF assms(1,2)] by blast
  then have "op' = op" using assms(3) by (simp add: eq_commute)
  then show ?thesis
    using toRawFileOp_event [OF op'] op' by (auto simp: select_event_def Matches_event split: if_splits)
qed

theorem sensitive_events_selected_witness:
  "\<exists>e. fe_op e = op_code FILE_OP_OPEN \<and> cstr (fe_path e) = str ''/etc/hosts'' \<and>
     select_event default_policy e \<noteq> None"
proof -
  obtain st e where e: "fileop_reachable st" "e \<in> set (rb_log (events st))" "fe_op e = 1"
    "cstr (fe_path e) = str ''/etc/hosts''" "fe_flags e = 2" by (rule demo_open_logged)
  have "path_listed (Write default_policy) (str ''/etc/hosts'')"
    unfolding path_listed_def by (rule disjI1) (simp add: default_policy_def bytes_of_string_def)
  then have "select_event default_policy e \<noteq> None"
    using sensitive_events_selected [OF e(1,2), of FILE_OP_OPEN default_policy] e
    by (simp add: opens_for_write_def)
  with e show ?thesis by auto
qed

end
