(* ===== verification/Endian.thy ===== *)
theory Endian
  imports Bpf_Prelude
begin

text \<open>
  Byte order (\<^verbatim>\<open>headers/bpf_endian.h\<close>): the constant-folding byte swaps built from shifts and
  masks, the two tables selected by the byte order of the target, and the six conversion macros.
  The shift-based swaps are shown equal to the reversal of the bytes in memory, which is what
  the compiler's \<^verbatim>\<open>__builtin_bswap\<close> functions compute.
\<close>

section \<open>Integers in memory\<close>

datatype byte_order = LITTLE_ENDIAN | BIG_ENDIAN

primrec load_word :: "byte_order \<Rightarrow> bytes \<Rightarrow> 'a::len word" where
  "load_word LITTLE_ENDIAN b = le_word b"
| "load_word BIG_ENDIAN b = le_word (rev b)"

primrec store_word :: "byte_order \<Rightarrow> nat \<Rightarrow> 'a::len word \<Rightarrow> bytes" where
  "store_word LITTLE_ENDIAN n w = to_le n w"
| "store_word BIG_ENDIAN n w = rev (to_le n w)"

section \<open>Swapping bytes\<close>

text \<open>
  \<^verbatim>\<open>___bpf_mvb\<close> at width 32 and 64.  At width 16 the operand is promoted to \<^verbatim>\<open>int\<close>, so the left
  shift does not cut the upper byte off; the cast in \<^verbatim>\<open>___bpf_swab16\<close> does.
\<close>

definition bpf_mvb :: "'a::len word \<Rightarrow> nat \<Rightarrow> nat \<Rightarrow> 'a word" where
  "bpf_mvb x n m =
     push_bit (m * 8) (drop_bit (LENGTH('a) - 8) (push_bit (LENGTH('a) - (n + 1) * 8) x))"

definition bpf_mvb16 :: "u16 \<Rightarrow> nat \<Rightarrow> nat \<Rightarrow> s32" where
  "bpf_mvb16 x n m = push_bit (m * 8) (drop_bit (16 - 8) (push_bit (16 - (n + 1) * 8) (ucast x)))"

definition bpf_swab16 :: "u16 \<Rightarrow> u16" where
  "bpf_swab16 x = ucast (bpf_mvb16 x 0 1 OR bpf_mvb16 x 1 0)"

definition bpf_swab32 :: "u32 \<Rightarrow> u32" where
  "bpf_swab32 x = bpf_mvb x 0 3 OR bpf_mvb x 1 2 OR bpf_mvb x 2 1 OR bpf_mvb x 3 0"

definition bpf_swab64 :: "u64 \<Rightarrow> u64" where
  "bpf_swab64 x = bpf_mvb x 0 7 OR bpf_mvb x 1 6 OR bpf_mvb x 2 5 OR bpf_mvb x 3 4 OR
     bpf_mvb x 4 3 OR bpf_mvb x 5 2 OR bpf_mvb x 6 1 OR bpf_mvb x 7 0"

text \<open>\<^verbatim>\<open>__builtin_bswap16\<close>, \<^verbatim>\<open>__builtin_bswap32\<close> and \<^verbatim>\<open>__builtin_bswap64\<close> of the compiler.\<close>

definition builtin_bswap :: "'a::len word \<Rightarrow> 'a word" where
  "builtin_bswap x = le_word (rev (to_le (LENGTH('a) div 8) x))"

section \<open>The tables for the two byte orders\<close>

primrec ntohs_var :: "byte_order \<Rightarrow> u16 \<Rightarrow> u16" where
  "ntohs_var LITTLE_ENDIAN x = builtin_bswap x"
| "ntohs_var BIG_ENDIAN x = x"

primrec htons_var :: "byte_order \<Rightarrow> u16 \<Rightarrow> u16" where
  "htons_var LITTLE_ENDIAN x = builtin_bswap x"
| "htons_var BIG_ENDIAN x = x"

primrec constant_ntohs :: "byte_order \<Rightarrow> u16 \<Rightarrow> u16" where
  "constant_ntohs LITTLE_ENDIAN x = bpf_swab16 x"
| "constant_ntohs BIG_ENDIAN x = x"

primrec constant_htons :: "byte_order \<Rightarrow> u16 \<Rightarrow> u16" where
  "constant_htons LITTLE_ENDIAN x = bpf_swab16 x"
| "constant_htons BIG_ENDIAN x = x"

primrec ntohl_var :: "byte_order \<Rightarrow> u32 \<Rightarrow> u32" where
  "ntohl_var LITTLE_ENDIAN x = builtin_bswap x"
| "ntohl_var BIG_ENDIAN x = x"

primrec htonl_var :: "byte_order \<Rightarrow> u32 \<Rightarrow> u32" where
  "htonl_var LITTLE_ENDIAN x = builtin_bswap x"
| "htonl_var BIG_ENDIAN x = x"

primrec constant_ntohl :: "byte_order \<Rightarrow> u32 \<Rightarrow> u32" where
  "constant_ntohl LITTLE_ENDIAN x = bpf_swab32 x"
| "constant_ntohl BIG_ENDIAN x = x"

primrec constant_htonl :: "byte_order \<Rightarrow> u32 \<Rightarrow> u32" where
  "constant_htonl LITTLE_ENDIAN x = bpf_swab32 x"
| "constant_htonl BIG_ENDIAN x = x"

primrec be64_to_cpu_var :: "byte_order \<Rightarrow> u64 \<Rightarrow> u64" where
  "be64_to_cpu_var LITTLE_ENDIAN x = builtin_bswap x"
| "be64_to_cpu_var BIG_ENDIAN x = x"

primrec cpu_to_be64_var :: "byte_order \<Rightarrow> u64 \<Rightarrow> u64" where
  "cpu_to_be64_var LITTLE_ENDIAN x = builtin_bswap x"
| "cpu_to_be64_var BIG_ENDIAN x = x"

primrec constant_be64_to_cpu :: "byte_order \<Rightarrow> u64 \<Rightarrow> u64" where
  "constant_be64_to_cpu LITTLE_ENDIAN x = bpf_swab64 x"
| "constant_be64_to_cpu BIG_ENDIAN x = x"

primrec constant_cpu_to_be64 :: "byte_order \<Rightarrow> u64 \<Rightarrow> u64" where
  "constant_cpu_to_be64 LITTLE_ENDIAN x = bpf_swab64 x"
| "constant_cpu_to_be64 BIG_ENDIAN x = x"

text \<open>The public macros; \<open>cst\<close> is what \<^verbatim>\<open>__builtin_constant_p(x)\<close> gives.\<close>

definition bpf_htons :: "bool \<Rightarrow> byte_order \<Rightarrow> u16 \<Rightarrow> u16" where
  "bpf_htons cst bo x = (if cst then constant_htons bo x else htons_var bo x)"

definition bpf_ntohs :: "bool \<Rightarrow> byte_order \<Rightarrow> u16 \<Rightarrow> u16" where
  "bpf_ntohs cst bo x = (if cst then constant_ntohs bo x else ntohs_var bo x)"

definition bpf_htonl :: "bool \<Rightarrow> byte_order \<Rightarrow> u32 \<Rightarrow> u32" where
  "bpf_htonl cst bo x = (if cst then constant_htonl bo x else htonl_var bo x)"

definition bpf_ntohl :: "bool \<Rightarrow> byte_order \<Rightarrow> u32 \<Rightarrow> u32" where
  "bpf_ntohl cst bo x = (if cst then constant_ntohl bo x else ntohl_var bo x)"

definition bpf_cpu_to_be64 :: "bool \<Rightarrow> byte_order \<Rightarrow> u64 \<Rightarrow> u64" where
  "bpf_cpu_to_be64 cst bo x = (if cst then constant_cpu_to_be64 bo x else cpu_to_be64_var bo x)"

definition bpf_be64_to_cpu :: "bool \<Rightarrow> byte_order \<Rightarrow> u64 \<Rightarrow> u64" where
  "bpf_be64_to_cpu cst bo x = (if cst then constant_be64_to_cpu bo x else be64_to_cpu_var bo x)"

section \<open>Swaps reverse the bytes\<close>

lemma bit_bpf_mvb:
  fixes x :: "'a::len word"
  assumes "(n + 1) * 8 \<le> LENGTH('a)" and "(m + 1) * 8 \<le> LENGTH('a)"
  shows "bit (bpf_mvb x n m) i \<longleftrightarrow> i div 8 = m \<and> bit x (8 * n + i mod 8)"
proof -
  define L where "L = LENGTH('a)"
  have L: "n * 8 + 8 \<le> L" "m * 8 + 8 \<le> L" using assms by (simp_all add: L_def)
  have bits: "bit (bpf_mvb x n m) i \<longleftrightarrow> m * 8 \<le> i \<and> i < L \<and>
      L - 8 + (i - m * 8) < L \<and> L - (n + 1) * 8 \<le> L - 8 + (i - m * 8) \<and>
      bit x (L - 8 + (i - m * 8) - (L - (n + 1) * 8))"
    unfolding bpf_mvb_def L_def [symmetric]
    by (simp add: bit_push_bit_iff bit_drop_bit_eq L_def conj_ac)
  show ?thesis
  proof (cases "i div 8 = m")
    case True
    then have i: "i = m * 8 + i mod 8" "i mod 8 < 8" by presburger+
    obtain d where d: "L = n * 8 + 8 + d" using L(1) le_Suc_ex by blast
    then have "L - 8 + i mod 8 - (L - (n + 1) * 8) = 8 * n + i mod 8" "L - 8 + i mod 8 < L"
        "L - (n + 1) * 8 \<le> L - 8 + i mod 8"
      using i(2) by simp_all
    moreover have "i - m * 8 = i mod 8" "m * 8 \<le> i" "i < L" using i L(2) by linarith+
    ultimately show ?thesis using True bits by simp
  next
    case False
    then have "\<not> (m * 8 \<le> i \<and> i < m * 8 + 8)" by presburger
    then have "\<not> (m * 8 \<le> i \<and> L - 8 + (i - m * 8) < L)" using L by linarith
    with False bits show ?thesis by blast
  qed
qed

lemma bit_builtin_bswap:
  fixes x :: "'a::len word"
  assumes "LENGTH('a) = 8 * k"
  shows "bit (builtin_bswap x) i \<longleftrightarrow> i < LENGTH('a) \<and> bit x (8 * (k - 1 - i div 8) + i mod 8)"
proof (cases "i < LENGTH('a)")
  case True
  with assms have "i div 8 < k" by auto
  then have "rev (to_le k x) ! (i div 8) = ucast (drop_bit (8 * (k - 1 - i div 8)) x)"
    by (simp add: rev_nth to_le_def)
  with True \<open>i div 8 < k\<close> assms show ?thesis
    by (simp add: builtin_bswap_def bit_le_word bit_unsigned_iff bit_drop_bit_eq)
qed (auto simp: builtin_bswap_def bit_le_word)

lemma bpf_swab16_bswap: "bpf_swab16 x = builtin_bswap x"
proof (rule bit_word_eqI)
  fix i assume i: "i < LENGTH(16)"
  have "bit (bpf_swab16 x) i \<longleftrightarrow> (if i < 8 then bit x (i + 8) else bit x (i - 8))"
    using i unfolding bpf_swab16_def bpf_mvb16_def
    by (auto simp: bit_unsigned_iff bit_or_iff bit_push_bit_iff bit_drop_bit_eq add.commute
        dest: bit_imp_le_length)
  moreover have "i < 8 \<Longrightarrow> i div 8 = 0 \<and> i mod 8 = i" "\<not> i < 8 \<Longrightarrow> i div 8 = 1 \<and> i mod 8 = i - 8"
    using i by (simp_all add: div_nat_eqI mod_if)
  ultimately show "bit (bpf_swab16 x) i \<longleftrightarrow> bit (builtin_bswap x) i"
    using i by (auto simp: bit_builtin_bswap [where k = 2] add.commute)
qed

lemma bpf_swab32_bswap: "bpf_swab32 x = builtin_bswap x"
proof (rule bit_word_eqI)
  fix i assume i: "i < LENGTH(32)"
  then have "i div 8 = 0 \<or> i div 8 = 1 \<or> i div 8 = 2 \<or> i div 8 = 3" by auto
  with i show "bit (bpf_swab32 x) i \<longleftrightarrow> bit (builtin_bswap x) i"
    by (auto simp: bit_builtin_bswap [where k = 4] bpf_swab32_def bit_or_iff bit_bpf_mvb)
qed

lemma bpf_swab64_bswap: "bpf_swab64 x = builtin_bswap x"
proof (rule bit_word_eqI)
  fix i assume i: "i < LENGTH(64)"
  define q r where "q = i div 8" and "r = i mod 8"
  have "q < 8" using i by (simp add: q_def)
  then consider "q = 0" | "q = 1" | "q = 2" | "q = 3" | "q = 4" | "q = 5" | "q = 6" | "q = 7"
    by linarith
  moreover have "bit (bpf_swab64 x) i \<longleftrightarrow> q = 7 \<and> bit x r \<or> q = 6 \<and> bit x (8 + r) \<or>
      q = 5 \<and> bit x (16 + r) \<or> q = 4 \<and> bit x (24 + r) \<or> q = 3 \<and> bit x (32 + r) \<or>
      q = 2 \<and> bit x (40 + r) \<or> q = 1 \<and> bit x (48 + r) \<or> q = 0 \<and> bit x (56 + r)"
    unfolding bpf_swab64_def bit_or_iff q_def r_def by (simp add: bit_bpf_mvb)
  moreover have "bit (builtin_bswap x) i \<longleftrightarrow> bit x (8 * (7 - q) + r)"
    using i unfolding q_def r_def by (simp add: bit_builtin_bswap [where k = 8])
  ultimately show "bit (bpf_swab64 x) i \<longleftrightarrow> bit (builtin_bswap x) i"
    by cases simp_all
qed

lemma to_le_le_word:
  assumes "length b * 8 \<le> LENGTH('a)"
  shows "to_le (length b) (le_word b :: 'a::len word) = b"
proof (rule nth_equalityI)
  fix i assume "i < length (to_le (length b) (le_word b :: 'a word))"
  then have i: "i < length b" by simp
  show "to_le (length b) (le_word b :: 'a word) ! i = b ! i"
  proof (rule bit_word_eqI)
    fix j assume j: "j < LENGTH(8)"
    then have "(8 * i + j) div 8 = i" "(8 * i + j) mod 8 = j" "8 * i + j < LENGTH('a)"
      using i assms by auto
    with i j show "bit (to_le (length b) (le_word b :: 'a word) ! i) j \<longleftrightarrow> bit (b ! i) j"
      by (simp add: to_le_def bit_unsigned_iff bit_drop_bit_eq bit_le_word)
  qed
qed simp

lemma to_le_bswap:
  assumes "LENGTH('a) = 8 * k"
  shows "to_le k (builtin_bswap x :: 'a::len word) = rev (to_le k x)"
  using to_le_le_word [where 'a = 'a, of "rev (to_le k x)"] assms by (simp add: builtin_bswap_def)

lemma bswap_bswap:
  assumes "LENGTH('a) = 8 * k"
  shows "builtin_bswap (builtin_bswap x) = (x :: 'a::len word)"
  using to_le_bswap [OF assms, of x] le_word_to_le [OF assms, of x] assms
  by (simp add: builtin_bswap_def)

lemmas bswap_involution = bswap_bswap [where 'a = 16 and k = 2, simplified]
  bswap_bswap [where 'a = 32 and k = 4, simplified] bswap_bswap [where 'a = 64 and k = 8, simplified]

lemmas endian_defs = bpf_htons_def bpf_ntohs_def bpf_htonl_def bpf_ntohl_def bpf_cpu_to_be64_def
  bpf_be64_to_cpu_def

section \<open>Properties\<close>

text \<open>
  Converting to network order puts the most significant byte first in memory, at every width,
  on both byte orders, and whether or not the argument is a compile-time constant: the
  shift-and-mask swaps and the compiler's byte swaps agree.  Converting back gives the argument
  again, for every mixture of constant and run-time conversions.
\<close>

lemma network_order:
  "store_word bo 2 (bpf_htons cst bo x) = rev (to_le 2 x) \<and>
   store_word bo 4 (bpf_htonl cst bo y) = rev (to_le 4 y) \<and>
   store_word bo 8 (bpf_cpu_to_be64 cst bo z) = rev (to_le 8 z) \<and>
   bpf_ntohs cst' bo (bpf_htons cst bo x) = x \<and> bpf_ntohl cst' bo (bpf_htonl cst bo y) = y \<and>
   bpf_be64_to_cpu cst' bo (bpf_cpu_to_be64 cst bo z) = z"
  by (cases bo) (simp_all add: endian_defs bpf_swab16_bswap bpf_swab32_bswap bpf_swab64_bswap to_le_bswap
      bswap_involution)

end
