(* ===== verification/Core_Read.thy ===== *)
theory Core_Read
  imports Bpf_Helpers Endian
begin

text \<open>
  Reading kernel structures (\<^verbatim>\<open>headers/bpf_core_read.h\<close>).  The compiler's relocation built-ins
  are parameters: a field is the function from the kind of information asked for to the answer
  the loader fills in, and an accessor is the byte offset of a member.  Modelled on top of them
  are the bitfield macros and the family of pointer-chasing reads.
\<close>

section \<open>Relocation kinds\<close>

datatype bpf_field_info_kind = BPF_FIELD_BYTE_OFFSET | BPF_FIELD_BYTE_SIZE | BPF_FIELD_EXISTS
  | BPF_FIELD_SIGNED | BPF_FIELD_LSHIFT_U64 | BPF_FIELD_RSHIFT_U64

datatype bpf_type_id_kind = BPF_TYPE_ID_LOCAL | BPF_TYPE_ID_TARGET

datatype bpf_type_info_kind = BPF_TYPE_EXISTS | BPF_TYPE_SIZE | BPF_TYPE_MATCHES

datatype bpf_enum_value_kind = BPF_ENUMVAL_EXISTS | BPF_ENUMVAL_VALUE

type_synonym field_info = "bpf_field_info_kind \<Rightarrow> u32"

definition CORE_RELO :: "field_info \<Rightarrow> bpf_field_info_kind \<Rightarrow> u32" where
  "CORE_RELO fld info = fld info"

definition bpf_core_field_exists :: "field_info \<Rightarrow> bool" where
  "bpf_core_field_exists fld \<longleftrightarrow> fld BPF_FIELD_EXISTS \<noteq> 0"

definition bpf_core_field_size :: "field_info \<Rightarrow> u32" where
  "bpf_core_field_size fld = fld BPF_FIELD_BYTE_SIZE"

definition bpf_core_field_offset :: "field_info \<Rightarrow> u32" where
  "bpf_core_field_offset fld = fld BPF_FIELD_BYTE_OFFSET"

section \<open>Bitfields\<close>

text \<open>
  Direct loads and stores of \<open>n\<close> bytes, zero-extended to 64 bits and truncated from 64 bits.
\<close>

definition load_at :: "byte_order \<Rightarrow> nat \<Rightarrow> (u64 \<Rightarrow> u8) \<Rightarrow> u64 \<Rightarrow> u64" where
  "load_at bo n mem p = load_word bo (map (\<lambda>i. mem (p + of_nat i)) [0..<n])"

definition store_at :: "byte_order \<Rightarrow> nat \<Rightarrow> u64 \<Rightarrow> u64 \<Rightarrow> (u64 \<Rightarrow> u8) \<Rightarrow> (u64 \<Rightarrow> u8)" where
  "store_at bo n p v mem =
     (\<lambda>a. if unat (a - p) < n then store_word bo n v ! unat (a - p) else mem a)"

text \<open>
  \<^verbatim>\<open>__CORE_BITFIELD_PROBE_READ\<close> in its two variants: the bytes go to the start of the eight-byte
  destination on a little-endian target and to its end on a big-endian one.
\<close>

definition CORE_BITFIELD_PROBE_READ :: "byte_order \<Rightarrow> probe \<Rightarrow> bytes \<Rightarrow> u64 \<Rightarrow> field_info \<Rightarrow> bytes" where
  "CORE_BITFIELD_PROBE_READ bo probe_read_kernel dst src fld =
     (let sz = unat (CORE_RELO fld BPF_FIELD_BYTE_SIZE);
          w = snd (probe_read_kernel sz (src + ucast (CORE_RELO fld BPF_FIELD_BYTE_OFFSET)))
      in case bo of
        LITTLE_ENDIAN \<Rightarrow> mem_write dst w
      | BIG_ENDIAN \<Rightarrow> take (8 - sz) dst @ mem_write (drop (8 - sz) dst) w)"

text \<open>The two shifts that isolate the field; the second one is arithmetic for signed fields.\<close>

definition bitfield_extract :: "field_info \<Rightarrow> u64 \<Rightarrow> u64" where
  "bitfield_extract fld val =
     (let val = push_bit (unat (CORE_RELO fld BPF_FIELD_LSHIFT_U64)) val in
      if CORE_RELO fld BPF_FIELD_SIGNED \<noteq> 0
      then signed_drop_bit (unat (CORE_RELO fld BPF_FIELD_RSHIFT_U64)) val
      else drop_bit (unat (CORE_RELO fld BPF_FIELD_RSHIFT_U64)) val)"

definition BPF_CORE_READ_BITFIELD_PROBED :: "byte_order \<Rightarrow> probe \<Rightarrow> u64 \<Rightarrow> field_info \<Rightarrow> u64" where
  "BPF_CORE_READ_BITFIELD_PROBED bo probe_read_kernel s fld =
     (let val = CORE_BITFIELD_PROBE_READ bo probe_read_kernel (replicate 8 0) s fld
      in bitfield_extract fld (load_word bo val))"

definition BPF_CORE_READ_BITFIELD :: "byte_order \<Rightarrow> (u64 \<Rightarrow> u8) \<Rightarrow> u64 \<Rightarrow> field_info \<Rightarrow> u64" where
  "BPF_CORE_READ_BITFIELD bo mem s fld =
     (let p = s + ucast (CORE_RELO fld BPF_FIELD_BYTE_OFFSET);
          sz = CORE_RELO fld BPF_FIELD_BYTE_SIZE;
          val = (if sz = 1 then load_at bo 1 mem p
                 else if sz = 2 then load_at bo 2 mem p
                 else if sz = 4 then load_at bo 4 mem p
                 else if sz = 8 then load_at bo 8 mem p
                 else 0)
      in bitfield_extract fld val)"

text \<open>
  The write has no default case: with any other size \<^verbatim>\<open>val\<close> stays unset and nothing is stored.
\<close>

definition BPF_CORE_WRITE_BITFIELD ::
  "byte_order \<Rightarrow> u64 \<Rightarrow> field_info \<Rightarrow> u64 \<Rightarrow> (u64 \<Rightarrow> u8) \<Rightarrow> (u64 \<Rightarrow> u8)" where
  "BPF_CORE_WRITE_BITFIELD bo s fld new_val mem =
     (let p = s + ucast (CORE_RELO fld BPF_FIELD_BYTE_OFFSET);
          byte_size = CORE_RELO fld BPF_FIELD_BYTE_SIZE;
          lshift = CORE_RELO fld BPF_FIELD_LSHIFT_U64;
          rshift = CORE_RELO fld BPF_FIELD_RSHIFT_U64;
          rpad = rshift - lshift;
          mask = drop_bit (unat lshift) (push_bit (unat rshift) (NOT 0));
          merge = (\<lambda>val. (val AND NOT mask) OR (push_bit (unat rpad) new_val AND mask))
      in if byte_size = 1 then store_at bo 1 p (merge (load_at bo 1 mem p)) mem
         else if byte_size = 2 then store_at bo 2 p (merge (load_at bo 2 mem p)) mem
         else if byte_size = 4 then store_at bo 4 p (merge (load_at bo 4 mem p)) mem
         else if byte_size = 8 then store_at bo 8 p (merge (load_at bo 8 mem p)) mem
         else mem)"

section \<open>Chasing pointers\<close>

text \<open>
  \<^verbatim>\<open>___read\<close>: \<^verbatim>\<open>read_fn((void *)dst, sizeof( *dst), &((src_type)src)->accessor)\<close>.  The result is
  the helper's code and the destination, which keeps what the helper did not write.
\<close>

definition read_accessor :: "probe \<Rightarrow> bytes \<Rightarrow> u64 \<Rightarrow> u64 \<Rightarrow> int \<times> bytes" where
  "read_accessor read_fn dst src accessor =
     (let (rc, w) = read_fn (length dst) (src + accessor) in (rc, mem_write dst w))"

text \<open>
  The counting macros work up to ten arguments: \<^verbatim>\<open>___narg\<close>, \<^verbatim>\<open>___empty\<close>, \<^verbatim>\<open>___last\<close>,
  \<^verbatim>\<open>___nolast\<close> and \<^verbatim>\<open>___arrow\<close>.  \<open>None\<close> is an expansion the compiler rejects.
\<close>

definition macro_narg :: "'a list \<Rightarrow> nat option" where
  "macro_narg args = (if length args \<le> 10 then Some (length args) else None)"

definition macro_empty :: "'a list \<Rightarrow> bool option" where
  "macro_empty args = (if length args \<le> 10 then Some (args = []) else None)"

definition macro_last :: "'a list \<Rightarrow> 'a option" where
  "macro_last args = do { n \<leftarrow> macro_narg args; if 1 \<le> n then Some (last args) else None }"

definition macro_nolast :: "'a list \<Rightarrow> 'a list option" where
  "macro_nolast args = do { n \<leftarrow> macro_narg args; if 2 \<le> n then Some (butlast args) else None }"

definition macro_arrow :: "'a list \<Rightarrow> 'a list option" where
  "macro_arrow args = do { n \<leftarrow> macro_narg args; if 1 \<le> n then Some args else None }"

text \<open>
  \<^verbatim>\<open>___rd_first\<close>, \<^verbatim>\<open>___rd_last\<close> and \<^verbatim>\<open>___rd_p1\<close> to \<^verbatim>\<open>___rd_p9\<close>: the inner pointers pass through
  the local \<^verbatim>\<open>__t\<close>, whose first content \<open>t\<close> is undefined.  Return codes are dropped.  The
  arguments are the source followed by the accessors.
\<close>

definition rd_first :: "probe \<Rightarrow> bytes \<Rightarrow> u64 \<Rightarrow> u64 \<Rightarrow> bytes" where
  "rd_first fn t src a = snd (read_accessor fn t src a)"

definition rd_last :: "probe \<Rightarrow> bytes \<Rightarrow> u64 list \<Rightarrow> bytes option" where
  "rd_last fn t args = do {
     _ \<leftarrow> macro_nolast args;
     a \<leftarrow> macro_last args;
     Some (snd (read_accessor fn t (le_word t) a)) }"

fun rd_p :: "nat \<Rightarrow> probe \<Rightarrow> bytes \<Rightarrow> u64 list \<Rightarrow> bytes option" where
  "rd_p 0 fn t args = None"
| "rd_p (Suc 0) fn t args = (case args of [src, a] \<Rightarrow> Some (rd_first fn t src a) | _ \<Rightarrow> None)"
| "rd_p (Suc (Suc k)) fn t args = do {
     initial \<leftarrow> macro_nolast args;
     t \<leftarrow> rd_p (Suc k) fn t initial;
     rd_last fn t args }"

definition read_ptrs :: "probe \<Rightarrow> bytes \<Rightarrow> u64 \<Rightarrow> u64 list \<Rightarrow> bytes option" where
  "read_ptrs fn t src accs = do {
     n \<leftarrow> macro_narg accs;
     if n \<le> 9 then rd_p n fn t (src # accs) else None }"

definition core_read0 :: "probe \<Rightarrow> bytes \<Rightarrow> u64 \<Rightarrow> u64 \<Rightarrow> int \<times> bytes" where
  "core_read0 fn dst src a = read_accessor fn dst src a"

definition core_readN :: "probe \<Rightarrow> probe \<Rightarrow> bytes \<Rightarrow> bytes \<Rightarrow> u64 \<Rightarrow> u64 list \<Rightarrow> (int \<times> bytes) option" where
  "core_readN fn fn_ptr t dst src accs = do {
     inner \<leftarrow> macro_nolast accs;
     t \<leftarrow> read_ptrs fn_ptr t src inner;
     _ \<leftarrow> macro_arrow (src # inner);
     a \<leftarrow> macro_last accs;
     Some (read_accessor fn dst (le_word t) a) }"

text \<open>\<^verbatim>\<open>___core_read\<close>: one accessor is read directly, more go through the pointers.\<close>

fun core_read :: "probe \<Rightarrow> probe \<Rightarrow> bytes \<Rightarrow> bytes \<Rightarrow> u64 \<Rightarrow> u64 list \<Rightarrow> (int \<times> bytes) option" where
  "core_read fn fn_ptr t dst src [] = None"
| "core_read fn fn_ptr t dst src (a # rest) = do {
     single \<leftarrow> macro_empty rest;
     if single then Some (core_read0 fn dst src a)
     else core_readN fn fn_ptr t dst src (a # rest) }"

text \<open>
  The instances.  The relocated readers \<^verbatim>\<open>bpf_core_read\<close>, \<^verbatim>\<open>bpf_core_read_user\<close>,
  \<^verbatim>\<open>bpf_core_read_str\<close> and \<^verbatim>\<open>bpf_core_read_user_str\<close> are the helpers at relocated addresses.
\<close>

record read_helpers =
  probe_read_kernel :: probe
  probe_read_user :: probe
  probe_read_kernel_str :: probe
  probe_read_user_str :: probe

definition bpf_core_read :: "read_helpers \<Rightarrow> probe" where
  "bpf_core_read h sz src = probe_read_kernel h sz src"

definition bpf_core_read_user :: "read_helpers \<Rightarrow> probe" where
  "bpf_core_read_user h sz src = probe_read_user h sz src"

definition bpf_core_read_str :: "read_helpers \<Rightarrow> probe" where
  "bpf_core_read_str h sz src = probe_read_kernel_str h sz src"

definition bpf_core_read_user_str :: "read_helpers \<Rightarrow> probe" where
  "bpf_core_read_user_str h sz src = probe_read_user_str h sz src"

definition BPF_CORE_READ_INTO :: "read_helpers \<Rightarrow> bytes \<Rightarrow> bytes \<Rightarrow> u64 \<Rightarrow> u64 list \<Rightarrow> (int \<times> bytes) option" where
  "BPF_CORE_READ_INTO h t dst src accs = core_read (bpf_core_read h) (bpf_core_read h) t dst src accs"

definition BPF_CORE_READ_USER_INTO :: "read_helpers \<Rightarrow> bytes \<Rightarrow> bytes \<Rightarrow> u64 \<Rightarrow> u64 list \<Rightarrow> (int \<times> bytes) option" where
  "BPF_CORE_READ_USER_INTO h t dst src accs =
     core_read (bpf_core_read_user h) (bpf_core_read_user h) t dst src accs"

definition BPF_PROBE_READ_INTO :: "read_helpers \<Rightarrow> bytes \<Rightarrow> bytes \<Rightarrow> u64 \<Rightarrow> u64 list \<Rightarrow> (int \<times> bytes) option" where
  "BPF_PROBE_READ_INTO h t dst src accs =
     core_read (probe_read_kernel h) (probe_read_kernel h) t dst src accs"

definition BPF_PROBE_READ_USER_INTO :: "read_helpers \<Rightarrow> bytes \<Rightarrow> bytes \<Rightarrow> u64 \<Rightarrow> u64 list \<Rightarrow> (int \<times> bytes) option" where
  "BPF_PROBE_READ_USER_INTO h t dst src accs =
     core_read (probe_read_user h) (probe_read_user h) t dst src accs"

definition BPF_CORE_READ_STR_INTO :: "read_helpers \<Rightarrow> bytes \<Rightarrow> bytes \<Rightarrow> u64 \<Rightarrow> u64 list \<Rightarrow> (int \<times> bytes) option" where
  "BPF_CORE_READ_STR_INTO h t dst src accs =
     core_read (bpf_core_read_str h) (bpf_core_read h) t dst src accs"

definition BPF_CORE_READ_USER_STR_INTO :: "read_helpers \<Rightarrow> bytes \<Rightarrow> bytes \<Rightarrow> u64 \<Rightarrow> u64 list \<Rightarrow> (int \<times> bytes) option" where
  "BPF_CORE_READ_USER_STR_INTO h t dst src accs =
     core_read (bpf_core_read_user_str h) (bpf_core_read_user h) t dst src accs"

definition BPF_PROBE_READ_STR_INTO :: "read_helpers \<Rightarrow> bytes \<Rightarrow> bytes \<Rightarrow> u64 \<Rightarrow> u64 list \<Rightarrow> (int \<times> bytes) option" where
  "BPF_PROBE_READ_STR_INTO h t dst src accs =
     core_read (probe_read_kernel_str h) (probe_read_kernel h) t dst src accs"

definition BPF_PROBE_READ_USER_STR_INTO :: "read_helpers \<Rightarrow> bytes \<Rightarrow> bytes \<Rightarrow> u64 \<Rightarrow> u64 list \<Rightarrow> (int \<times> bytes) option" where
  "BPF_PROBE_READ_USER_STR_INTO h t dst src accs =
     core_read (probe_read_user_str h) (probe_read_user h) t dst src accs"

text \<open>
  \<^verbatim>\<open>BPF_CORE_READ\<close> and its variants give the value of a local \<^verbatim>\<open>__r\<close> of the field's type, whose
  first content \<open>r\<close> is undefined too.
\<close>

definition BPF_CORE_READ :: "read_helpers \<Rightarrow> bytes \<Rightarrow> bytes \<Rightarrow> u64 \<Rightarrow> u64 list \<Rightarrow> bytes option" where
  "BPF_CORE_READ h t r src accs = do {
     _ \<leftarrow> macro_arrow (src # accs);
     map_option snd (BPF_CORE_READ_INTO h t r src accs) }"

definition BPF_CORE_READ_USER :: "read_helpers \<Rightarrow> bytes \<Rightarrow> bytes \<Rightarrow> u64 \<Rightarrow> u64 list \<Rightarrow> bytes option" where
  "BPF_CORE_READ_USER h t r src accs = do {
     _ \<leftarrow> macro_arrow (src # accs);
     map_option snd (BPF_CORE_READ_USER_INTO h t r src accs) }"

definition BPF_PROBE_READ :: "read_helpers \<Rightarrow> bytes \<Rightarrow> bytes \<Rightarrow> u64 \<Rightarrow> u64 list \<Rightarrow> bytes option" where
  "BPF_PROBE_READ h t r src accs = do {
     _ \<leftarrow> macro_arrow (src # accs);
     map_option snd (BPF_PROBE_READ_INTO h t r src accs) }"

definition BPF_PROBE_READ_USER :: "read_helpers \<Rightarrow> bytes \<Rightarrow> bytes \<Rightarrow> u64 \<Rightarrow> u64 list \<Rightarrow> bytes option" where
  "BPF_PROBE_READ_USER h t r src accs = do {
     _ \<leftarrow> macro_arrow (src # accs);
     map_option snd (BPF_PROBE_READ_USER_INTO h t r src accs) }"

section \<open>Loads, stores and shifts\<close>

lemma le_word_to_le_take:
  assumes "8 * n \<le> LENGTH('a)"
  shows "le_word (to_le n w) = take_bit (8 * n) (w :: 'a::len word)"
proof (rule bit_word_eqI)
  fix i
  assume "i < LENGTH('a)"
  then show "bit (le_word (to_le n w) :: 'a word) i = bit (take_bit (8 * n) w) i"
    by (cases "i < 8 * n")
      (auto simp: bit_le_word to_le_def bit_unsigned_iff bit_drop_bit_eq bit_take_bit_iff)
qed

lemma load_store_word:
  "8 * n \<le> LENGTH('a) \<Longrightarrow> load_word bo (store_word bo n w) = take_bit (8 * n) (w :: 'a::len word)"
  by (cases bo) (simp_all add: le_word_to_le_take)

lemma length_store_word [simp]: "length (store_word bo n w) = n"
  by (cases bo) simp_all

lemma load_store_at:
  assumes "n \<le> 8"
  shows "load_at bo n (store_at bo n p v mem) p = take_bit (8 * n) v"
proof -
  have "map (\<lambda>i. store_at bo n p v mem (p + of_nat i)) [0..<n] = store_word bo n v"
  proof (rule nth_equalityI)
    fix i assume "i < length (map (\<lambda>i. store_at bo n p v mem (p + of_nat i)) [0..<n])"
    then have i: "i < n" by simp
    have "unat (of_nat i :: u64) = i" using i assms by (intro u64_of_nat) simp
    with i show "map (\<lambda>i. store_at bo n p v mem (p + of_nat i)) [0..<n] ! i = store_word bo n v ! i"
      by (simp add: store_at_def)
  qed simp
  then show ?thesis using load_store_word [where 'a = 64, of n bo v] assms by (simp add: load_at_def)
qed

lemma bit_load_at: "n \<le> 8 \<Longrightarrow> bit (load_at bo n mem p) i \<Longrightarrow> i < 8 * n"
  by (cases bo) (auto simp: load_at_def bit_le_word)

text \<open>A field relocation the loader can produce: it lies within a storage unit of the given size.\<close>

definition bitfield_ok :: "field_info \<Rightarrow> bool" where
  "bitfield_ok fld \<longleftrightarrow>
     fld BPF_FIELD_BYTE_SIZE \<in> {1, 2, 4, 8} \<and>
     unat (fld BPF_FIELD_LSHIFT_U64) \<le> unat (fld BPF_FIELD_RSHIFT_U64) \<and>
     unat (fld BPF_FIELD_RSHIFT_U64) < 64 \<and>
     64 - 8 * unat (fld BPF_FIELD_BYTE_SIZE) \<le> unat (fld BPF_FIELD_LSHIFT_U64)"

text \<open>The value of \<open>v\<close> at the width and signedness of the field.\<close>

definition field_value :: "field_info \<Rightarrow> u64 \<Rightarrow> u64" where
  "field_value fld v =
     (if fld BPF_FIELD_SIGNED \<noteq> 0 then signed_take_bit (63 - unat (fld BPF_FIELD_RSHIFT_U64)) v
      else take_bit (64 - unat (fld BPF_FIELD_RSHIFT_U64)) v)"

lemma bit_bitfield_extract:
  assumes "unat (fld BPF_FIELD_LSHIFT_U64) \<le> unat (fld BPF_FIELD_RSHIFT_U64)"
    and "unat (fld BPF_FIELD_RSHIFT_U64) < 64" and "i < 64"
  defines "L \<equiv> unat (fld BPF_FIELD_LSHIFT_U64)" and "R \<equiv> unat (fld BPF_FIELD_RSHIFT_U64)"
  shows "bit (bitfield_extract fld v) i \<longleftrightarrow>
    (if fld BPF_FIELD_SIGNED \<noteq> 0 then bit v (min i (63 - R) + (R - L))
     else i < 64 - R \<and> bit v (i + (R - L)))"
proof -
  have LR: "L \<le> R" "R < 64" using assms by simp_all
  then have "bit (bitfield_extract fld v) i \<longleftrightarrow>
    (if fld BPF_FIELD_SIGNED \<noteq> 0 then bit (push_bit L v) (if 64 - R \<le> i then 63 else R + i)
     else bit (push_bit L v) (R + i))"
    using assms(3) unfolding bitfield_extract_def CORE_RELO_def Let_def L_def [symmetric] R_def [symmetric]
    by (auto simp: bit_signed_drop_bit_iff bit_drop_bit_eq)
  moreover have "63 - L = 63 - R + (R - L)" "R + i - L = i + (R - L)" using LR by simp_all
  ultimately show ?thesis
    using LR assms(3) by (auto simp: bit_push_bit_iff min_def dest: bit_imp_le_length)
qed

definition merged :: "field_info \<Rightarrow> u64 \<Rightarrow> u64 \<Rightarrow> u64" where
  "merged fld new_val val =
     (let mask = drop_bit (unat (fld BPF_FIELD_LSHIFT_U64)) (push_bit (unat (fld BPF_FIELD_RSHIFT_U64)) (NOT 0))
      in (val AND NOT mask) OR
         (push_bit (unat (fld BPF_FIELD_RSHIFT_U64 - fld BPF_FIELD_LSHIFT_U64)) new_val AND mask))"

lemma bit_merged:
  assumes "unat (fld BPF_FIELD_LSHIFT_U64) \<le> unat (fld BPF_FIELD_RSHIFT_U64)"
    and "unat (fld BPF_FIELD_RSHIFT_U64) < 64" and "j < 64"
  defines "L \<equiv> unat (fld BPF_FIELD_LSHIFT_U64)" and "R \<equiv> unat (fld BPF_FIELD_RSHIFT_U64)"
  shows "bit (merged fld new_val val) j \<longleftrightarrow>
    (if R - L \<le> j \<and> j < 64 - L then bit new_val (j - (R - L)) else bit val j)"
proof -
  have "unat (fld BPF_FIELD_RSHIFT_U64 - fld BPF_FIELD_LSHIFT_U64) = R - L"
    using assms(1) by (simp add: L_def R_def unat_sub word_le_nat_alt)
  then show ?thesis
    using assms(3) unfolding merged_def Let_def L_def [symmetric] R_def [symmetric]
    by (auto simp: bit_or_iff bit_and_iff bit_not_iff bit_drop_bit_eq bit_push_bit_iff bit_mask_iff)
qed

definition field_addr :: "u64 \<Rightarrow> field_info \<Rightarrow> u64" where
  "field_addr s fld = s + ucast (fld BPF_FIELD_BYTE_OFFSET)"

definition field_bytes :: "field_info \<Rightarrow> nat" where
  "field_bytes fld = unat (fld BPF_FIELD_BYTE_SIZE)"

lemma write_bitfield_merged:
  assumes "bitfield_ok fld"
  shows "BPF_CORE_WRITE_BITFIELD bo s fld v mem =
    store_at bo (field_bytes fld) (field_addr s fld)
      (merged fld v (load_at bo (field_bytes fld) mem (field_addr s fld))) mem"
  using assms
  by (auto simp: BPF_CORE_WRITE_BITFIELD_def bitfield_ok_def merged_def CORE_RELO_def field_addr_def
      field_bytes_def Let_def)

lemma read_bitfield_load:
  assumes "bitfield_ok fld"
  shows "BPF_CORE_READ_BITFIELD bo mem s fld =
    bitfield_extract fld (load_at bo (field_bytes fld) mem (field_addr s fld))"
  using assms
  by (auto simp: BPF_CORE_READ_BITFIELD_def bitfield_ok_def CORE_RELO_def field_addr_def field_bytes_def Let_def)

lemma bitfield_okD:
  assumes "bitfield_ok fld"
  shows "unat (fld BPF_FIELD_LSHIFT_U64) \<le> unat (fld BPF_FIELD_RSHIFT_U64)"
    and "unat (fld BPF_FIELD_RSHIFT_U64) < 64"
    and "64 - 8 * field_bytes fld \<le> unat (fld BPF_FIELD_LSHIFT_U64)" and "field_bytes fld \<le> 8"
  using assms by (auto simp: bitfield_ok_def field_bytes_def)

text \<open>The bits of the two fields in their storage unit do not meet.\<close>

definition disjoint_fields :: "field_info \<Rightarrow> field_info \<Rightarrow> bool" where
  "disjoint_fields f g \<longleftrightarrow>
     64 - unat (f BPF_FIELD_LSHIFT_U64) \<le> unat (g BPF_FIELD_RSHIFT_U64) - unat (g BPF_FIELD_LSHIFT_U64) \<or>
     64 - unat (g BPF_FIELD_LSHIFT_U64) \<le> unat (f BPF_FIELD_RSHIFT_U64) - unat (f BPF_FIELD_LSHIFT_U64)"

lemma extract_merged:
  assumes "bitfield_ok fld"
  shows "bitfield_extract fld (take_bit (8 * field_bytes fld) (merged fld v old)) = field_value fld v"
proof (rule bit_word_eqI)
  fix i
  assume "i < LENGTH(64)"
  then have i: "i < 64" by simp
  define L R where "L = unat (fld BPF_FIELD_LSHIFT_U64)" and "R = unat (fld BPF_FIELD_RSHIFT_U64)"
  have LR: "L \<le> R" "R < 64" "64 - 8 * field_bytes fld \<le> L"
    using bitfield_okD [OF assms] by (simp_all add: L_def R_def)
  have inside: "bit (take_bit (8 * field_bytes fld) (merged fld v old)) (k + (R - L)) \<longleftrightarrow> bit v k"
    if "k < 64 - R" for k
    using that LR bit_merged [OF bitfield_okD(1,2) [OF assms], of "k + (R - L)" v old]
    by (auto simp: bit_take_bit_iff L_def [symmetric] R_def [symmetric])
  have "min i (63 - R) < 64 - R" using LR(2) by auto
  then show "bit (bitfield_extract fld (take_bit (8 * field_bytes fld) (merged fld v old))) i =
      bit (field_value fld v) i"
    using inside i LR unfolding bit_bitfield_extract [OF bitfield_okD(1,2) [OF assms] i]
    by (auto simp: field_value_def bit_signed_take_bit_iff bit_take_bit_iff L_def [symmetric] R_def [symmetric] min.commute)
qed

lemma extract_other:
  assumes "bitfield_ok f" and "bitfield_ok g" and "field_bytes g = field_bytes f" and "disjoint_fields f g"
    and "n = field_bytes f" and "\<And>i. bit old i \<Longrightarrow> i < 8 * n"
  shows "bitfield_extract g (take_bit (8 * n) (merged f v old)) = bitfield_extract g old"
proof (rule bit_word_eqI)
  fix i
  assume "i < LENGTH(64)"
  then have i: "i < 64" by simp
  define L R where "L = unat (g BPF_FIELD_LSHIFT_U64)" and "R = unat (g BPF_FIELD_RSHIFT_U64)"
  have LR: "L \<le> R" "R < 64" "64 - 8 * n \<le> L"
    using bitfield_okD [OF assms(2)] assms(3,5) by (simp_all add: L_def R_def)
  have same: "bit (take_bit (8 * n) (merged f v old)) (k + (R - L)) \<longleftrightarrow> bit old (k + (R - L))"
    if "k < 64 - R" for k
    using that LR bit_merged [OF bitfield_okD(1,2) [OF assms(1)], of "k + (R - L)" v old]
      assms(4,6) bitfield_okD(1,2) [OF assms(1)]
    by (auto simp: bit_take_bit_iff disjoint_fields_def L_def [symmetric] R_def [symmetric])
  have "min i (63 - R) < 64 - R" using LR(2) by auto
  then show "bit (bitfield_extract g (take_bit (8 * n) (merged f v old))) i = bit (bitfield_extract g old) i"
    using same i LR unfolding bit_bitfield_extract [OF bitfield_okD(1,2) [OF assms(2)] i]
    by (auto simp: L_def [symmetric] R_def [symmetric])
qed

section \<open>A concrete structure\<close>

text \<open>The two four-bit fields in the first byte of \<^verbatim>\<open>struct iphdr\<close>, and a list of one node.\<close>

primrec iphdr_ihl :: field_info where
  "iphdr_ihl BPF_FIELD_BYTE_OFFSET = 0" | "iphdr_ihl BPF_FIELD_BYTE_SIZE = 1"
| "iphdr_ihl BPF_FIELD_EXISTS = 1" | "iphdr_ihl BPF_FIELD_SIGNED = 0"
| "iphdr_ihl BPF_FIELD_LSHIFT_U64 = 60" | "iphdr_ihl BPF_FIELD_RSHIFT_U64 = 60"

primrec iphdr_version :: field_info where
  "iphdr_version BPF_FIELD_BYTE_OFFSET = 0" | "iphdr_version BPF_FIELD_BYTE_SIZE = 1"
| "iphdr_version BPF_FIELD_EXISTS = 1" | "iphdr_version BPF_FIELD_SIGNED = 0"
| "iphdr_version BPF_FIELD_LSHIFT_U64 = 56" | "iphdr_version BPF_FIELD_RSHIFT_U64 = 60"

lemma iphdr_fields_ok: "bitfield_ok iphdr_ihl" "bitfield_ok iphdr_version" "disjoint_fields iphdr_version iphdr_ihl"
  by (simp_all add: bitfield_ok_def disjoint_fields_def)

definition demo_node_memory :: "u64 \<Rightarrow> u8" where
  "demo_node_memory = store_at LITTLE_ENDIAN 8 0x1008 0x2000 (\<lambda>a. if a = 0x2004 then 42 else 0)"

definition demo_read_helpers :: "(u64 \<Rightarrow> u8) \<Rightarrow> read_helpers" where
  "demo_read_helpers m = \<lparr>probe_read_kernel = mem_read m (\<lambda>_. False), probe_read_user = mem_read m (\<lambda>_. False),
     probe_read_kernel_str = mem_read_str m (\<lambda>_. False), probe_read_user_str = mem_read_str m (\<lambda>_. False)\<rparr>"

lemma demo_read_done: "fst (mem_read m (\<lambda>_. False) n a) = 0"
  by (simp add: mem_read_def list_ex_iff)

section \<open>Properties\<close>

text \<open>
  Writing a bitfield and reading it back gives the written value, cut to the width of the
  field and sign-extended when the field is signed; every other bitfield of the same storage
  unit reads as before; and no byte outside of the unit changes.  This holds in both byte orders.
\<close>

lemma bitfield_round_trip:
  assumes "bitfield_ok fld"
  shows "BPF_CORE_READ_BITFIELD bo (BPF_CORE_WRITE_BITFIELD bo s fld v mem) s fld = field_value fld v \<and>
    (\<forall>g. bitfield_ok g \<and> disjoint_fields fld g \<and> g BPF_FIELD_BYTE_SIZE = fld BPF_FIELD_BYTE_SIZE \<and>
       g BPF_FIELD_BYTE_OFFSET = fld BPF_FIELD_BYTE_OFFSET \<longrightarrow>
       BPF_CORE_READ_BITFIELD bo (BPF_CORE_WRITE_BITFIELD bo s fld v mem) s g =
         BPF_CORE_READ_BITFIELD bo mem s g) \<and>
    (\<forall>a. field_bytes fld \<le> unat (a - field_addr s fld) \<longrightarrow>
       BPF_CORE_WRITE_BITFIELD bo s fld v mem a = mem a)"
proof (intro conjI allI impI)
  note [simp] = write_bitfield_merged [OF assms] read_bitfield_load load_store_at bitfield_okD(4)
  show "BPF_CORE_READ_BITFIELD bo (BPF_CORE_WRITE_BITFIELD bo s fld v mem) s fld = field_value fld v"
    using assms by (simp add: extract_merged)
  show "BPF_CORE_WRITE_BITFIELD bo s fld v mem a = mem a"
    if "field_bytes fld \<le> unat (a - field_addr s fld)" for a
    using that by (simp add: store_at_def)
  fix g
  assume g: "bitfield_ok g \<and> disjoint_fields fld g \<and> g BPF_FIELD_BYTE_SIZE = fld BPF_FIELD_BYTE_SIZE \<and>
       g BPF_FIELD_BYTE_OFFSET = fld BPF_FIELD_BYTE_OFFSET"
  then have "field_bytes g = field_bytes fld" "field_addr s g = field_addr s fld"
    by (simp_all add: field_bytes_def field_addr_def)
  then show "BPF_CORE_READ_BITFIELD bo (BPF_CORE_WRITE_BITFIELD bo s fld v mem) s g =
      BPF_CORE_READ_BITFIELD bo mem s g"
    using g assms extract_other [OF assms, of g "field_bytes fld"]
      bit_load_at [OF bitfield_okD(4) [OF assms]] by simp
qed

lemma bitfield_round_trip_example:
  "BPF_CORE_READ_BITFIELD BIG_ENDIAN
     (BPF_CORE_WRITE_BITFIELD BIG_ENDIAN 0x1000 iphdr_version 0x46 (\<lambda>_. 0x45)) 0x1000 iphdr_version = 6 \<and>
   BPF_CORE_READ_BITFIELD BIG_ENDIAN
     (BPF_CORE_WRITE_BITFIELD BIG_ENDIAN 0x1000 iphdr_version 0x46 (\<lambda>_. 0x45)) 0x1000 iphdr_ihl =
     BPF_CORE_READ_BITFIELD BIG_ENDIAN (\<lambda>_. 0x45) 0x1000 iphdr_ihl"
  using bitfield_round_trip [OF iphdr_fields_ok(2), of BIG_ENDIAN "0x1000" "0x46" "\<lambda>_. 0x45"] iphdr_fields_ok
  by (simp add: field_value_def take_bit_eq_mask mask_numeral)

text \<open>
  The bitfield read through \<^verbatim>\<open>bpf_probe_read_kernel\<close> gives what the direct read gives, in
  both byte orders, when the helper succeeds; when it fails without writing, the value is zero.
\<close>

lemma bitfield_probed_direct:
  assumes "probe_memory rd rd_str mem" and "bitfield_ok fld"
  shows "(fst (rd (field_bytes fld) (field_addr s fld)) = 0 \<longrightarrow>
      BPF_CORE_READ_BITFIELD_PROBED bo rd s fld = BPF_CORE_READ_BITFIELD bo mem s fld) \<and>
    (snd (rd (field_bytes fld) (field_addr s fld)) = [] \<longrightarrow>
      BPF_CORE_READ_BITFIELD_PROBED bo rd s fld = 0)"
proof -
  define r where "r = rd (field_bytes fld) (field_addr s fld)"
  have w: "CORE_BITFIELD_PROBE_READ bo rd (replicate 8 0) s fld =
      (case bo of LITTLE_ENDIAN \<Rightarrow> mem_write (replicate 8 0) (snd r)
       | BIG_ENDIAN \<Rightarrow> replicate (8 - field_bytes fld) 0 @ mem_write (replicate (field_bytes fld) 0) (snd r))"
    using bitfield_okD(4) [OF assms(2)]
    by (cases bo) (simp_all add: CORE_BITFIELD_PROBE_READ_def CORE_RELO_def r_def field_bytes_def
        field_addr_def Let_def min_def)
  have zero: "load_word bo (replicate n 0) = (0 :: u64)" for n
    by (cases bo) (auto intro!: bit_word_eqI simp: bit_le_word)
  have pad: "le_word (b @ replicate n 0) = (le_word b :: u64)" for b n
    by (rule bit_word_eqI) (auto simp: bit_le_word nth_append)
  have "fst r = 0 \<Longrightarrow> BPF_CORE_READ_BITFIELD_PROBED bo rd s fld = BPF_CORE_READ_BITFIELD bo mem s fld"
  proof -
    assume "fst r = 0"
    then have r: "snd r = map (\<lambda>i. mem (field_addr s fld + of_nat i)) [0..<field_bytes fld]"
      using probe_memory.read_done [OF assms(1)] by (simp add: r_def)
    have "load_word bo (CORE_BITFIELD_PROBE_READ bo rd (replicate 8 0) s fld) =
        (load_word bo (snd r) :: u64)"
      unfolding w by (cases bo) (simp_all add: mem_write_def pad r)
    then show ?thesis
      by (simp add: BPF_CORE_READ_BITFIELD_PROBED_def read_bitfield_load [OF assms(2)] load_at_def r)
  qed
  moreover have "snd r = [] \<Longrightarrow> BPF_CORE_READ_BITFIELD_PROBED bo rd s fld = 0"
    using zero bitfield_okD(4) [OF assms(2)] unfolding BPF_CORE_READ_BITFIELD_PROBED_def w
    by (cases bo) (simp_all add: mem_write_def bitfield_extract_def replicate_add [symmetric])
  ultimately show ?thesis unfolding r_def by blast
qed

lemma bitfield_probed_direct_example:
  "BPF_CORE_READ_BITFIELD_PROBED BIG_ENDIAN (mem_read (\<lambda>_. 0x45) (\<lambda>_. False)) 0x1000 iphdr_version =
     BPF_CORE_READ_BITFIELD BIG_ENDIAN (\<lambda>_. 0x45) 0x1000 iphdr_version"
  using bitfield_probed_direct [OF mem.probe_memory_axioms iphdr_fields_ok(2), of "\<lambda>_. 0x45" "\<lambda>_. False" "0x1000" BIG_ENDIAN]
  by (simp add: demo_read_done)

section \<open>Chains of pointers\<close>

text \<open>What \<^verbatim>\<open>src->a1->...->an\<close> means in a memory, and that the helper can read every step of it.\<close>

definition bytes_at :: "(u64 \<Rightarrow> u8) \<Rightarrow> nat \<Rightarrow> u64 \<Rightarrow> bytes" where
  "bytes_at mem n a = map (\<lambda>i. mem (a + of_nat i)) [0..<n]"

primrec follow :: "(u64 \<Rightarrow> u8) \<Rightarrow> u64 \<Rightarrow> u64 list \<Rightarrow> u64" where
  "follow mem src [] = src"
| "follow mem src (a # accs) = follow mem (le_word (bytes_at mem 8 (src + a))) accs"

primrec chain_readable :: "probe \<Rightarrow> (u64 \<Rightarrow> u8) \<Rightarrow> u64 \<Rightarrow> u64 list \<Rightarrow> bool" where
  "chain_readable rd mem src [] \<longleftrightarrow> True"
| "chain_readable rd mem src (a # accs) \<longleftrightarrow>
     fst (rd 8 (src + a)) = 0 \<and> chain_readable rd mem (le_word (bytes_at mem 8 (src + a))) accs"

lemma follow_append: "follow mem src (xs @ ys) = follow mem (follow mem src xs) ys"
  by (induction xs arbitrary: src) simp_all

lemma chain_readable_append:
  "chain_readable rd mem src (xs @ ys) \<longleftrightarrow>
     chain_readable rd mem src xs \<and> chain_readable rd mem (follow mem src xs) ys"
  by (induction xs arbitrary: src) auto

lemma read_accessor_done:
  assumes "probe_memory rd rd_str mem" and "fst (rd (length dst) (src + a)) = 0"
  shows "read_accessor rd dst src a = (0, bytes_at mem (length dst) (src + a))"
  using assms probe_memory.read_done [OF assms(1,2)]
  by (cases "rd (length dst) (src + a)") (simp add: read_accessor_def bytes_at_def mem_write_def)

lemma rd_p_follow:
  assumes "probe_memory rd rd_str mem" and "length t = 8"
    and "accs \<noteq> []" and "length accs \<le> 9" and "chain_readable rd mem src accs"
  shows "\<exists>t'. rd_p (length accs) rd t (src # accs) = Some t' \<and> length t' = 8 \<and> le_word t' = follow mem src accs"
  using assms(3-5)
proof (induction accs rule: rev_induct)
  case (snoc a accs)
  show ?case
  proof (cases "accs = []")
    case True
    with snoc.prems assms(2) read_accessor_done [OF assms(1), of t src a] show ?thesis
      by (simp add: rd_first_def) (simp add: bytes_at_def)
  next
    case False
    then obtain k where k: "length accs = Suc k" by (cases accs) auto
    obtain t' where t': "rd_p (length accs) rd t (src # accs) = Some t'" "length t' = 8"
        "le_word t' = follow mem src accs"
      using snoc.IH [OF False] snoc.prems by (auto simp: chain_readable_append)
    then have "read_accessor rd t' (le_word t') a = (0, bytes_at mem 8 (follow mem src accs + a))"
      using read_accessor_done [OF assms(1), of t' "le_word t'" a] snoc.prems(3)
      by (simp add: chain_readable_append)
    with t' k snoc.prems(2) show ?thesis
      by (simp add: rd_last_def macro_nolast_def macro_last_def macro_narg_def follow_append butlast_append)
        (simp add: bytes_at_def)
  qed
qed simp

lemma core_read_follow:
  assumes "probe_memory rd_ptr rd_str mem" and "length t = 8"
    and "accs \<noteq> []" and "length accs \<le> 10" and "chain_readable rd_ptr mem src (butlast accs)"
  shows "core_read rd rd_ptr t dst src accs =
    Some (read_accessor rd dst (follow mem src (butlast accs)) (last accs))"
proof (cases accs)
  case (Cons a rest)
  show ?thesis
  proof (cases "rest = []")
    case False
    then obtain t' where "rd_p (length (butlast accs)) rd_ptr t (src # butlast accs) = Some t'"
        "le_word t' = follow mem src (butlast accs)"
      using rd_p_follow [OF assms(1,2) _ _ assms(5)] assms(4) Cons by auto
    with False Cons assms(4) show ?thesis
      by (simp add: core_readN_def read_ptrs_def macro_empty_def macro_nolast_def macro_last_def
          macro_arrow_def macro_narg_def Suc_le_eq)
  qed (use Cons in \<open>simp add: macro_empty_def core_read0_def\<close>)
qed (use assms(3) in simp)

text \<open>
  C40: \<^verbatim>\<open>BPF_CORE_READ(src, a1, ..., an)\<close> with one to nine accessors is \<^verbatim>\<open>src->a1->...->an\<close>: when
  every step is readable it gives the bytes of the last field reached by following the pointers
  in kernel memory, whatever the uninitialised locals held.  With ten or more accessors the
  macro does not expand.
\<close>

theorem core_read_follows_pointers:
  assumes "probe_memory (probe_read_kernel h) (probe_read_kernel_str h) mem"
    and "length t = 8" and "accs \<noteq> []"
    and "chain_readable (probe_read_kernel h) mem src (butlast accs)"
    and "fst (probe_read_kernel h (length r) (follow mem src (butlast accs) + last accs)) = 0"
  shows "BPF_CORE_READ h t r src accs =
    (if length accs \<le> 9 then Some (bytes_at mem (length r) (follow mem src (butlast accs) + last accs))
     else None)"
proof -
  have "bpf_core_read h = probe_read_kernel h" by (intro ext) (simp add: bpf_core_read_def)
  then show ?thesis
    using core_read_follow [OF assms(1-3) _ assms(4), of "probe_read_kernel h" r]
      read_accessor_done [OF assms(1), of r _ "last accs"] assms(5)
    by (simp add: BPF_CORE_READ_def BPF_CORE_READ_INTO_def macro_arrow_def macro_narg_def)
qed

theorem core_read_follows_pointers_witness:
  "BPF_CORE_READ (demo_read_helpers demo_node_memory) (replicate 8 99) [77] 0x1000 [8, 4] = Some [42]"
proof -
  have "load_at LITTLE_ENDIAN 8 demo_node_memory 0x1008 = take_bit 64 (0x2000 :: u64)"
    unfolding demo_node_memory_def by (subst load_store_at) simp_all
  then have "follow demo_node_memory 0x1000 [8] = 0x2000"
    by (simp add: load_at_def bytes_at_def)
  moreover have "demo_node_memory 0x2004 = 42"
    by (simp add: demo_node_memory_def store_at_def)
  ultimately show ?thesis
    using core_read_follows_pointers [of "demo_read_helpers demo_node_memory" demo_node_memory "replicate 8 99"
        "[8, 4]" "0x1000" "[77]"] mem.probe_memory_axioms [of demo_node_memory "\<lambda>_. False"]
    by (simp add: demo_read_helpers_def demo_read_done bytes_at_def)
qed

end
