(* ===== verification/Execve.thy ===== *)
theory Execve
  imports Core_Read
begin

text \<open>
  The exec probe, \<^verbatim>\<open>execve/exec.bpf.c\<close>: one program reports every \<^verbatim>\<open>execve\<close> with the task's
  start time, parent and arguments, read from the kernel's task structure; the others watch
  for \<^verbatim>\<open>libssl\<close> being opened and mapped.  Records of the first kind are copied out of a per-CPU
  scratch value byte by byte, so the layout of \<^verbatim>\<open>struct proc\<close> is part of the model.  Every
  program returns 0.
\<close>

section \<open>Data\<close>

definition LIBSSL_LEN :: nat where "LIBSSL_LEN = 6"
definition EXEC_COMM_LEN :: nat where "EXEC_COMM_LEN = 16"
definition MAX_FILENAME_LEN :: nat where "MAX_FILENAME_LEN = 256"
definition MAX_ARGS_LEN :: nat where "MAX_ARGS_LEN = 2048"
definition EXEC_MAX_ENTRIES :: nat where "EXEC_MAX_ENTRIES = 4096"

text \<open>
  The members of the kernel structures the probe reads; the loader relocates each of them.
\<close>

record mm_relos =
  mm_arg_start :: field_info
  mm_arg_end :: field_info

record task_relos =
  task_real_parent :: field_info
  task_mm :: field_info
  task_tgid :: field_info
  task_start_boottime :: field_info
  task_start_time :: field_info

text \<open>\<open>sp_addr\<close> is the address of the context itself: the file name lies at an offset from it.\<close>

record sched_process_ctx =
  sp_addr :: u64
  sp_common :: s64
  sp_filename :: u32
  sp_pid :: s32
  sp_old_pid :: s32

record openat_ctx =
  oc_common :: s64
  oc_syscall_nr :: s64
  oc_dfd :: u64
  oc_filename :: u64
  oc_flags :: u64
  oc_mode :: u64

record openat_exit_ctx =
  ox_common :: s64
  ox_syscall_nr :: s64
  ox_ret :: s64

record ex_close_ctx =
  xc_common :: s64
  xc_syscall_nr :: s64
  xc_fd :: u64

record mmap_ctx =
  mc_common :: s64
  mc_syscall_nr :: s64
  mc_addr :: u64
  mc_length :: u64
  mc_prot :: u64
  mc_flags :: u64
  mc_fd :: u64
  mc_offset :: u64

record open_key =
  ok_fd :: s64
  ok_pid_tgid :: u64

record open_value =
  ov_filename :: bytes

text \<open>\<open>pr_pad\<close> is the padding after the last member.\<close>

record exec_proc =
  pr_timestamp_ns :: u64
  pr_start_time_ns :: u64
  pr_parent_start_time_ns :: u64
  pr_pid :: s32
  pr_ppid :: s32
  pr_old_pid :: s32
  pr_comm :: bytes
  pr_filename :: bytes
  pr_args_len :: u32
  pr_args_truncated :: u8
  pr_pad :: bytes

record exec_value =
  xv_proc :: exec_proc
  xv_args :: bytes

record dynlib =
  dl_fd :: u64
  dl_pid_tgid :: u64
  dl_comm :: bytes
  dl_filename :: bytes

record exec_state =
  ex_inflight_open :: "(u64, open_value) bpf_hash"
  exec_heap :: "nat \<Rightarrow> exec_value list"
  inflight_mmap :: "(open_key, open_value) bpf_hash"
  proc_events :: "bytes ringbuf"
  dynlib_events :: "dynlib ringbuf"

text \<open>
  The environment of the probe: the helpers, the relocations, and what the uninitialised locals
  of \<^verbatim>\<open>BPF_CORE_READ\<close> hold.  \<open>proc_room\<close> says whether \<^verbatim>\<open>bpf_ringbuf_output\<close> finds room.
\<close>

record exec_env = "(dynlib, open_key) bpf_env" +
  kernel_reads :: read_helpers
  bpf_get_current_task_btf :: u64
  task_fields :: task_relos
  mm_fields :: mm_relos
  stack_garbage :: "nat \<Rightarrow> bytes"
  proc_room :: "nat \<Rightarrow> bool"

section \<open>The layout of a record\<close>

definition proc_bytes :: "exec_proc \<Rightarrow> bytes" where
  "proc_bytes p =
     to_le 8 (pr_timestamp_ns p) @ to_le 8 (pr_start_time_ns p) @ to_le 8 (pr_parent_start_time_ns p) @
     to_le 4 (pr_pid p) @ to_le 4 (pr_ppid p) @ to_le 4 (pr_old_pid p) @
     pr_comm p @ pr_filename p @ to_le 4 (pr_args_len p) @ [pr_args_truncated p] @ pr_pad p"

definition exec_value_bytes :: "exec_value \<Rightarrow> bytes" where
  "exec_value_bytes v = proc_bytes (xv_proc v) @ xv_args v"

definition PROC_SIZE :: nat where "PROC_SIZE = 320"

text \<open>\<^verbatim>\<open>bpf_ringbuf_output\<close> copies the first \<open>n\<close> bytes at the pointer.\<close>

definition bpf_ringbuf_output :: "bool \<Rightarrow> bytes \<Rightarrow> nat \<Rightarrow> bytes ringbuf \<Rightarrow> bytes ringbuf option" where
  "bpf_ringbuf_output room data n rb =
     (if length data < n then None
      else Some (if room then rb\<lparr>rb_log := rb_log rb @ [take n data]\<rparr> else rb))"

section \<open>Reading the task\<close>

definition core_field :: "exec_env \<Rightarrow> nat \<Rightarrow> u64 \<Rightarrow> field_info \<Rightarrow> bytes option" where
  "core_field env n src fld =
     BPF_CORE_READ (kernel_reads env) (stack_garbage env 8) (stack_garbage env n) src
       [ucast (bpf_core_field_offset fld)]"

definition read_task_start_time :: "exec_env \<Rightarrow> u64 \<Rightarrow> u64 option" where
  "read_task_start_time env task =
     (if task = 0 then Some 0
      else if bpf_core_field_exists (task_start_boottime (task_fields env))
      then map_option le_word (core_field env 8 task (task_start_boottime (task_fields env)))
      else map_option le_word (core_field env 8 task (task_start_time (task_fields env))))"

definition read_exec_args :: "exec_env \<Rightarrow> exec_value \<Rightarrow> exec_value option" where
  "read_exec_args env value =
     (let task = bpf_get_current_task_btf env in
      if task = 0 then Some value
      else do {
        mm \<leftarrow> map_option le_word (core_field env 8 task (task_mm (task_fields env)));
        if mm = 0 then Some value
        else do {
          arg_start \<leftarrow> map_option le_word (core_field env 8 mm (mm_arg_start (mm_fields env)));
          arg_end \<leftarrow> map_option le_word (core_field env 8 mm (mm_arg_end (mm_fields env)));
          if arg_end \<le> arg_start then Some value
          else do {
            let raw_args_len = arg_end - arg_start;
            let (raw_args_len, value) =
              (if of_nat MAX_ARGS_LEN < raw_args_len
               then (of_nat MAX_ARGS_LEN, value\<lparr>xv_proc := (xv_proc value)\<lparr>pr_args_truncated := 1\<rparr>\<rparr>)
               else (raw_args_len, value));
            let args_len = (ucast raw_args_len :: u32);
            if args_len = 0 then Some value
            else do {
              let (rc, w) = bpf_probe_read_user env (unat args_len) arg_start;
              let value = value\<lparr>xv_args := mem_write (xv_args value) w\<rparr>;
              Some (if rc < 0
                    then value\<lparr>xv_proc := (xv_proc value)\<lparr>pr_args_truncated := 1\<rparr>\<rparr>
                    else value\<lparr>xv_proc := (xv_proc value)\<lparr>pr_args_len := args_len\<rparr>\<rparr>) } } } })"

section \<open>The programs\<close>

definition tracepoint_sched_process_exec ::
  "exec_env \<Rightarrow> sched_process_ctx \<Rightarrow> exec_state \<Rightarrow> exec_state option" where
  "tracepoint_sched_process_exec env ctx st =
     (if sp_pid ctx = 0 then Some st
      else case percpu_lookup (exec_heap st) (bpf_get_smp_processor_id env) 0 of
        None \<Rightarrow> Some st
      | Some value \<Rightarrow> do {
          let task = bpf_get_current_task_btf env;
          parent_task \<leftarrow> map_option le_word (core_field env 8 task (task_real_parent (task_fields env)));
          start_time \<leftarrow> read_task_start_time env task;
          parent_start_time \<leftarrow> read_task_start_time env parent_task;
          ppid \<leftarrow> (if parent_task \<noteq> 0
                  then map_option le_word (core_field env 4 parent_task (task_tgid (task_fields env)))
                  else Some 0);
          let proc = (xv_proc value)
            \<lparr>pr_args_len := 0, pr_args_truncated := 0,
             pr_timestamp_ns := bpf_ktime_get_ns env,
             pr_start_time_ns := start_time,
             pr_parent_start_time_ns := parent_start_time,
             pr_pid := sp_pid ctx, pr_ppid := ppid, pr_old_pid := sp_old_pid ctx,
             pr_comm := bpf_get_current_comm env EXEC_COMM_LEN\<rparr>;
          let len = drop_bit 16 (sp_filename ctx);
          let len = (if of_nat MAX_FILENAME_LEN < len then of_nat MAX_FILENAME_LEN else len);
          let filename_ptr = sp_addr ctx + ucast (sp_filename ctx AND 0xFFFF);
          let w = snd (bpf_probe_read_str env (unat len) filename_ptr);
          let proc = proc\<lparr>pr_filename := mem_write (pr_filename proc) w\<rparr>;
          value \<leftarrow> read_exec_args env (value\<lparr>xv_proc := proc\<rparr>);
          let st = st\<lparr>exec_heap := percpu_store (bpf_get_smp_processor_id env) 0 value (exec_heap st)\<rparr>;
          let args_len = pr_args_len (xv_proc value);
          if of_nat MAX_ARGS_LEN < args_len then Some st
          else do {
            let evt_len = PROC_SIZE + unat args_len;
            rb \<leftarrow> bpf_ringbuf_output (proc_room env evt_len) (exec_value_bytes value) evt_len (proc_events st);
            Some (st\<lparr>proc_events := rb\<rparr>) } })"

definition libssl_body :: "bytes \<Rightarrow> nat \<Rightarrow> nat \<Rightarrow> (nat, unit) flow option" where
  "libssl_body name i base =
     do { c \<leftarrow> buf_read name i;
          Some (if c = 0 then Break base
                else if c = byte_of_char CHR ''/'' then Next (i + 1) else Next base) }"

definition is_libssl :: "bytes \<Rightarrow> bool option" where
  "is_libssl name =
     do { r \<leftarrow> c_for MAX_FILENAME_LEN (libssl_body name) 0;
          let base = (case r of Inl b \<Rightarrow> b | Inr _ \<Rightarrow> 0);
          if base + LIBSSL_LEN > MAX_FILENAME_LEN then Some False
          else do {
            c0 \<leftarrow> buf_read name base;
            c1 \<leftarrow> buf_read name (base + 1);
            c2 \<leftarrow> buf_read name (base + 2);
            c3 \<leftarrow> buf_read name (base + 3);
            c4 \<leftarrow> buf_read name (base + 4);
            c5 \<leftarrow> buf_read name (base + 5);
            Some (c0 = byte_of_char CHR ''l'' \<and> c1 = byte_of_char CHR ''i'' \<and> c2 = byte_of_char CHR ''b'' \<and>
                  c3 = byte_of_char CHR ''s'' \<and> c4 = byte_of_char CHR ''s'' \<and> c5 = byte_of_char CHR ''l'') } }"

definition tracepoint_sys_enter_openat :: "exec_env \<Rightarrow> openat_ctx \<Rightarrow> exec_state \<Rightarrow> exec_state option" where
  "tracepoint_sys_enter_openat env ctx st =
     (let (len, w) = bpf_probe_read_user_str env MAX_FILENAME_LEN (oc_filename ctx);
          ov = \<lparr>ov_filename = mem_write (replicate MAX_FILENAME_LEN 0) w\<rparr>
      in if len \<le> 0 then Some st
      else do {
        ssl \<leftarrow> is_libssl (ov_filename ov);
        Some (if \<not> ssl then st
              else st\<lparr>ex_inflight_open := hash_update EXEC_MAX_ENTRIES (bpf_get_current_pid_tgid env) ov
                                          (ex_inflight_open st)\<rparr>) })"

definition tracepoint_sys_exit_openat :: "exec_env \<Rightarrow> openat_exit_ctx \<Rightarrow> exec_state \<Rightarrow> exec_state option" where
  "tracepoint_sys_exit_openat env ctx st =
     (let pid_tgid = bpf_get_current_pid_tgid env in
      case bpf_map_lookup_elem (ex_inflight_open st) pid_tgid of
        None \<Rightarrow> Some st
      | Some ov \<Rightarrow>
          let st = (if sint (ox_ret ctx) < 0 then st
            else let key = \<lparr>ok_fd = ox_ret ctx, ok_pid_tgid = pid_tgid\<rparr> in
              st\<lparr>inflight_mmap := lru_update EXEC_MAX_ENTRIES (lru_evict env) key ov (inflight_mmap st)\<rparr>)
          in Some (st\<lparr>ex_inflight_open := bpf_map_delete_elem pid_tgid (ex_inflight_open st)\<rparr>))"

definition tracepoint_sys_enter_mmap :: "exec_env \<Rightarrow> mmap_ctx \<Rightarrow> exec_state \<Rightarrow> exec_state option" where
  "tracepoint_sys_enter_mmap env ctx st =
     (let key = \<lparr>ok_fd = mc_fd ctx, ok_pid_tgid = bpf_get_current_pid_tgid env\<rparr> in
      case bpf_map_lookup_elem (inflight_mmap st) key of
        None \<Rightarrow> Some st
      | Some ov \<Rightarrow>
          (case bpf_ringbuf_reserve env 0 of
             None \<Rightarrow> Some st
           | Some evt \<Rightarrow> do {
               let st = st\<lparr>dynlib_events := ringbuf_reserved (dynlib_events st)\<rparr>;
               let evt = evt\<lparr>dl_fd := mc_fd ctx, dl_pid_tgid := ok_pid_tgid key,
                             dl_comm := bpf_get_current_comm env EXEC_COMM_LEN\<rparr>;
               name \<leftarrow> c_memcpy (dl_filename evt) (ov_filename ov) MAX_FILENAME_LEN;
               let st = st\<lparr>dynlib_events := bpf_ringbuf_submit (evt\<lparr>dl_filename := name\<rparr>) (dynlib_events st)\<rparr>;
               Some (st\<lparr>inflight_mmap := bpf_map_delete_elem key (inflight_mmap st)\<rparr>) }))"

definition tracepoint_sys_enter_close :: "exec_env \<Rightarrow> ex_close_ctx \<Rightarrow> exec_state \<Rightarrow> exec_state option" where
  "tracepoint_sys_enter_close env ctx st =
     (let key = \<lparr>ok_fd = xc_fd ctx, ok_pid_tgid = bpf_get_current_pid_tgid env\<rparr> in
      Some (st\<lparr>inflight_mmap := bpf_map_delete_elem key (inflight_mmap st)\<rparr>))"

datatype exec_call = SchedExec sched_process_ctx | ExEnterOpenat openat_ctx
  | ExExitOpenat openat_exit_ctx | ExEnterMmap mmap_ctx | ExEnterClose ex_close_ctx

primrec exec_prog :: "exec_call \<Rightarrow> exec_env \<Rightarrow> exec_state \<Rightarrow> exec_state option" where
  "exec_prog (SchedExec c) env = tracepoint_sched_process_exec env c"
| "exec_prog (ExEnterOpenat c) env = tracepoint_sys_enter_openat env c"
| "exec_prog (ExExitOpenat c) env = tracepoint_sys_exit_openat env c"
| "exec_prog (ExEnterMmap c) env = tracepoint_sys_enter_mmap env c"
| "exec_prog (ExEnterClose c) env = tracepoint_sys_enter_close env c"

end
