(* ===== verification/Execve_Properties.thy ===== *)
theory Execve_Properties
  imports Execve "HOL-Library.Sublist"
begin

text \<open>
  The exec probe: its invariant, the exact meaning of the \<^verbatim>\<open>libssl\<close> test, the life of a watched
  descriptor, and the way of an exec record from the kernel to the user-space parser
  \<^verbatim>\<open>parseExecRecord\<close> (\<^verbatim>\<open>execve/probe.go\<close>).
\<close>

section \<open>The test for libssl\<close>

definition basename :: "bytes \<Rightarrow> bytes" where
  "basename s = rev (takeWhile (\<lambda>c. c \<noteq> byte_of_char CHR ''/'') (rev s))"

definition libssl_name :: "bytes \<Rightarrow> bool" where
  "libssl_name s \<longleftrightarrow> prefix (bytes_of_string ''libssl'') (basename s)"

definition base_index :: "bytes \<Rightarrow> nat" where
  "base_index s = length s - length (basename s)"

lemma basename_snoc:
  "basename (s @ [c]) = (if c = byte_of_char CHR ''/'' then [] else basename s @ [c])"
  by (simp add: basename_def)

lemma length_basename: "length (basename s) \<le> length s"
  unfolding basename_def by (metis length_rev length_takeWhile_le)

lemma base_index_snoc:
  "base_index (s @ [c]) = (if c = byte_of_char CHR ''/'' then Suc (length s) else base_index s)"
  using length_basename [of s] by (simp add: base_index_def basename_snoc)

lemma base_index_Nil [simp]: "base_index [] = 0"
  by (simp add: base_index_def)

lemma basename_suffix: "suffix (basename s) s"
  unfolding basename_def suffix_to_prefix by (simp add: takeWhile_is_prefix)

lemma drop_base_index: "drop (base_index s) s = basename s"
proof -
  obtain p where p: "s = p @ basename s" using basename_suffix [of s] by (auto simp: suffix_def)
  then have "base_index s = length p" unfolding base_index_def by (metis diff_add_inverse2 length_append)
  with p show ?thesis by (metis append_eq_conv_conj)
qed

lemma libssl_loop:
  assumes "length name = MAX_FILENAME_LEN" and "nul_terminated name"
  shows "c_for MAX_FILENAME_LEN (libssl_body name) 0 = Some (Inl (base_index (cstr name)))"
proof -
  let ?s = "cstr name"
  have len: "length ?s < MAX_FILENAME_LEN"
    using assms length_cstr_less [of name] by simp
  have at_end: "name ! length ?s = 0" using assms(2) by (rule nth_length_cstr)
  have "\<exists>r. c_for MAX_FILENAME_LEN (libssl_body name) 0 = Some r \<and> r = (Inl (base_index ?s) :: nat + unit)"
  proof (rule c_for_rule [where I = "\<lambda>i b. i \<le> length ?s \<and> b = base_index (take i ?s)"])
    fix i b
    assume I: "i \<le> length ?s \<and> b = base_index (take i ?s)" and i: "i < MAX_FILENAME_LEN"
    show "case libssl_body name i b of None \<Rightarrow> False
      | Some (Next b') \<Rightarrow> Suc i \<le> length ?s \<and> b' = base_index (take (Suc i) ?s)
      | Some (Break b') \<Rightarrow> (Inl b' :: nat + unit) = Inl (base_index ?s)
      | Some (Return r) \<Rightarrow> (Inr r :: nat + unit) = Inl (base_index ?s)"
    proof (cases "i = length ?s")
      case True
      with I i at_end assms(1) show ?thesis by (simp add: libssl_body_def)
    next
      case False
      with I have lt: "i < length ?s" by simp
      then have "name ! i \<noteq> 0" by (rule nth_before_nul)
      with lt I i assms(1) show ?thesis
        by (simp add: libssl_body_def take_Suc_cstr base_index_snoc)
    qed
  qed (use len in auto)
  then show ?thesis by simp
qed

lemma libssl_bytes: "bytes_of_string ''libssl'' =
   [byte_of_char CHR ''l'', byte_of_char CHR ''i'', byte_of_char CHR ''b'',
    byte_of_char CHR ''s'', byte_of_char CHR ''s'', byte_of_char CHR ''l'']"
  by (simp add: bytes_of_string_def byte_of_char_def)

lemma length_libssl: "length (bytes_of_string ''libssl'') = 6"
  by simp

lemma prefix_iff_take: "prefix xs ys \<longleftrightarrow> take (length xs) ys = xs"
  by (metis append_eq_conv_conj prefix_def append_take_drop_id)

lemma is_libssl_spec:
  assumes "length name = MAX_FILENAME_LEN" and "nul_terminated name"
  shows "is_libssl name = Some (libssl_name (cstr name))"
proof -
  let ?s = "cstr name" and ?b = "base_index (cstr name)"
  let ?l = "bytes_of_string ''libssl''"
  have b: "?b \<le> length ?s" by (simp add: base_index_def)
  have len: "length ?s < MAX_FILENAME_LEN" using assms length_cstr_less [of name] by simp
  have "is_libssl name =
      Some (?b + 6 \<le> MAX_FILENAME_LEN \<and> [name ! ?b, name ! (?b + 1), name ! (?b + 2), name ! (?b + 3),
        name ! (?b + 4), name ! (?b + 5)] = ?l)"
    using assms(1)
    by (simp add: is_libssl_def libssl_loop [OF assms] LIBSSL_LEN_def libssl_bytes Let_def)
  also have "\<dots> = Some (libssl_name ?s)"
  proof (cases "?b + 6 \<le> length ?s")
    case True
    have "take 6 (drop ?b ?s) = map (\<lambda>k. name ! (?b + k)) [0..<6]"
      using True by (intro nth_equalityI) auto
    then have "take 6 (basename ?s) = [name ! ?b, name ! (?b + 1), name ! (?b + 2), name ! (?b + 3),
        name ! (?b + 4), name ! (?b + 5)]"
      by (simp add: drop_base_index upt_rec numeral_eq_Suc)
    moreover have "libssl_name ?s \<longleftrightarrow> take 6 (basename ?s) = ?l"
      unfolding libssl_name_def prefix_iff_take length_libssl ..
    ultimately show ?thesis using True len by simp
  next
    case False
    have nz: "c \<noteq> 0" if "c \<in> set ?l" for c
      using that by (auto simp: bytes_of_string_def)
    have "[name ! ?b, name ! (?b + 1), name ! (?b + 2), name ! (?b + 3), name ! (?b + 4), name ! (?b + 5)] \<noteq> ?l"
    proof
      assume *: "[name ! ?b, name ! (?b + 1), name ! (?b + 2), name ! (?b + 3), name ! (?b + 4), name ! (?b + 5)] = ?l"
      have "\<forall>k < 6. name ! (?b + k) \<noteq> 0"
        using nz unfolding * [symmetric] by (auto simp: numeral_eq_Suc less_Suc_eq)
      from cstr_reaches [OF assms(2) b this] False show False by simp
    qed
    moreover have "\<not> libssl_name ?s"
    proof
      assume "libssl_name ?s"
      then have "6 \<le> length (basename ?s)"
        by (auto simp: libssl_name_def libssl_bytes dest: prefix_length_le)
      with False length_basename [of ?s] show False by (simp add: base_index_def)
    qed
    ultimately show ?thesis by simp
  qed
  finally show ?thesis .
qed

section \<open>The environment and the values in it\<close>

definition exec_env_ok :: "(u64 \<Rightarrow> u8) \<Rightarrow> exec_env \<Rightarrow> bool" where
  "exec_env_ok byte env \<longleftrightarrow> env_ok byte env \<and>
     probe_memory (probe_read_kernel (kernel_reads env)) (probe_read_kernel_str (kernel_reads env)) byte \<and>
     (\<forall>n. length (stack_garbage env n) = n) \<and>
     (\<forall>n d. bpf_ringbuf_reserve env n = Some d \<longrightarrow> length (dl_filename d) = MAX_FILENAME_LEN)"

definition exec_value_ok :: "exec_value \<Rightarrow> bool" where
  "exec_value_ok v \<longleftrightarrow> length (pr_comm (xv_proc v)) = EXEC_COMM_LEN \<and>
     length (pr_filename (xv_proc v)) = MAX_FILENAME_LEN \<and> length (pr_pad (xv_proc v)) = 7 \<and>
     length (xv_args v) = MAX_ARGS_LEN"

definition exec_heap_ok :: "(nat \<Rightarrow> exec_value list) \<Rightarrow> bool" where
  "exec_heap_ok h \<longleftrightarrow> (\<forall>cpu. length (h cpu) = 1 \<and> (\<forall>v \<in> set (h cpu). exec_value_ok v))"

definition exec_record :: "exec_value \<Rightarrow> bytes" where
  "exec_record v = take (PROC_SIZE + unat (pr_args_len (xv_proc v))) (exec_value_bytes v)"

definition exec_record_ok :: "bytes \<Rightarrow> bool" where
  "exec_record_ok b \<longleftrightarrow> (\<exists>v. exec_value_ok v \<and> unat (pr_args_len (xv_proc v)) \<le> MAX_ARGS_LEN \<and>
     b = exec_record v)"

definition ssl_path :: "bytes \<Rightarrow> bool" where
  "ssl_path p \<longleftrightarrow> length p = MAX_FILENAME_LEN \<and> nul_terminated p \<and> libssl_name (cstr p)"

definition dynlib_ok :: "dynlib \<Rightarrow> bool" where
  "dynlib_ok d \<longleftrightarrow> length (dl_comm d) = EXEC_COMM_LEN \<and> ssl_path (dl_filename d)"

definition exec_inv :: "exec_state \<Rightarrow> bool" where
  "exec_inv st \<longleftrightarrow>
     hash_ok EXEC_MAX_ENTRIES (ex_inflight_open st) \<and> hash_ok EXEC_MAX_ENTRIES (inflight_mmap st) \<and>
     hash.all_entries (\<lambda>_ ov. ssl_path (ov_filename ov)) (ex_inflight_open st) \<and>
     hash.all_entries (\<lambda>_ ov. ssl_path (ov_filename ov)) (inflight_mmap st) \<and>
     exec_heap_ok (exec_heap st) \<and> rb_pending (proc_events st) = 0 \<and> rb_pending (dynlib_events st) = 0 \<and>
     (\<forall>b \<in> set (rb_log (proc_events st)). exec_record_ok b) \<and>
     (\<forall>d \<in> set (rb_log (dynlib_events st)). dynlib_ok d)"

text \<open>What a read of one field gives; after a failed read it is partly undefined.\<close>

definition core_bytes :: "exec_env \<Rightarrow> nat \<Rightarrow> u64 \<Rightarrow> field_info \<Rightarrow> bytes" where
  "core_bytes env n src fld = mem_write (stack_garbage env n)
     (snd (probe_read_kernel (kernel_reads env) n (src + ucast (fld BPF_FIELD_BYTE_OFFSET))))"

lemma core_field_some:
  assumes "exec_env_ok byte env"
  shows "core_field env n src fld = Some (core_bytes env n src fld)"
  using assms
  by (simp add: core_field_def core_bytes_def BPF_CORE_READ_def BPF_CORE_READ_INTO_def macro_arrow_def
      macro_narg_def macro_empty_def core_read0_def read_accessor_def bpf_core_read_def
      bpf_core_field_offset_def exec_env_ok_def split: prod.splits)

definition task_start :: "exec_env \<Rightarrow> u64 \<Rightarrow> u64" where
  "task_start env task =
     (if task = 0 then 0
      else le_word (core_bytes env 8 task
        (if bpf_core_field_exists (task_start_boottime (task_fields env))
         then task_start_boottime (task_fields env) else task_start_time (task_fields env))))"

lemma read_task_start_time_some:
  "exec_env_ok byte env \<Longrightarrow> read_task_start_time env task = Some (task_start env task)"
  by (simp add: read_task_start_time_def task_start_def core_field_some)

lemma length_proc_bytes: "exec_value_ok v \<Longrightarrow> length (proc_bytes (xv_proc v)) = PROC_SIZE"
  by (simp add: proc_bytes_def exec_value_ok_def EXEC_COMM_LEN_def MAX_FILENAME_LEN_def PROC_SIZE_def)

lemma length_exec_value_bytes: "exec_value_ok v \<Longrightarrow> length (exec_value_bytes v) = PROC_SIZE + MAX_ARGS_LEN"
  by (simp add: exec_value_bytes_def length_proc_bytes) (simp add: exec_value_ok_def)

section \<open>Reading the arguments\<close>

text \<open>The fields of a record that reading the arguments leaves alone.\<close>

definition same_head :: "exec_proc \<Rightarrow> exec_proc \<Rightarrow> bool" where
  "same_head p q \<longleftrightarrow> pr_timestamp_ns q = pr_timestamp_ns p \<and> pr_start_time_ns q = pr_start_time_ns p \<and>
     pr_parent_start_time_ns q = pr_parent_start_time_ns p \<and> pr_pid q = pr_pid p \<and> pr_ppid q = pr_ppid p \<and>
     pr_old_pid q = pr_old_pid p \<and> pr_comm q = pr_comm p \<and> pr_filename q = pr_filename p \<and> pr_pad q = pr_pad p"

definition arg_mm :: "exec_env \<Rightarrow> u64" where
  "arg_mm env = le_word (core_bytes env 8 (bpf_get_current_task_btf env) (task_mm (task_fields env)))"

definition arg_start_of :: "exec_env \<Rightarrow> u64" where
  "arg_start_of env = le_word (core_bytes env 8 (arg_mm env) (mm_arg_start (mm_fields env)))"

definition arg_end_of :: "exec_env \<Rightarrow> u64" where
  "arg_end_of env = le_word (core_bytes env 8 (arg_mm env) (mm_arg_end (mm_fields env)))"

definition args_present :: "exec_env \<Rightarrow> bool" where
  "args_present env \<longleftrightarrow> bpf_get_current_task_btf env \<noteq> 0 \<and> arg_mm env \<noteq> 0 \<and> arg_start_of env < arg_end_of env"

definition args_taken :: "exec_env \<Rightarrow> nat" where
  "args_taken env = min MAX_ARGS_LEN (unat (arg_end_of env - arg_start_of env))"

lemma read_exec_args_spec:
  assumes "exec_env_ok byte env"
  shows "read_exec_args env value = Some
    (if \<not> args_present env then value
     else let (rc, w) = bpf_probe_read_user env (args_taken env) (arg_start_of env);
              cut = MAX_ARGS_LEN < unat (arg_end_of env - arg_start_of env)
          in value\<lparr>xv_args := mem_write (xv_args value) w,
               xv_proc := (xv_proc value)
                 \<lparr>pr_args_len := (if rc < 0 then pr_args_len (xv_proc value) else of_nat (args_taken env)),
                  pr_args_truncated := (if rc < 0 \<or> cut then 1 else pr_args_truncated (xv_proc value))\<rparr>\<rparr>)"
proof (cases "args_present env")
  case False
  then show ?thesis
    by (auto simp: read_exec_args_def core_field_some [OF assms] args_present_def arg_mm_def
        arg_start_of_def arg_end_of_def Let_def not_less)
next
  case True
  define d where "d = arg_end_of env - arg_start_of env"
  define len where "len = (ucast (if of_nat MAX_ARGS_LEN < d then of_nat MAX_ARGS_LEN else d) :: u32)"
  have d: "d \<noteq> 0" using True by (auto simp: d_def args_present_def)
  have gt: "of_nat MAX_ARGS_LEN < d \<longleftrightarrow> MAX_ARGS_LEN < unat d"
    by (simp add: word_less_nat_alt MAX_ARGS_LEN_def)
  have "unat (ucast d :: u32) = unat d" if "\<not> MAX_ARGS_LEN < unat d"
    using that unfolding unsigned_ucast_eq MAX_ARGS_LEN_def by (intro take_bit_nat_eq_self) simp
  then have len: "unat len = args_taken env"
    unfolding len_def gt args_taken_def d_def [symmetric] by (auto simp: MAX_ARGS_LEN_def)
  have "len = of_nat (unat len)" by simp
  then have lk: "of_nat (args_taken env) = len" unfolding len by simp
  have "unat d \<noteq> 0" using d by (simp add: unsigned_eq_0_iff)
  then have "unat len \<noteq> 0" unfolding len args_taken_def d_def [symmetric] by (simp add: MAX_ARGS_LEN_def)
  then have nz: "len \<noteq> 0" by auto
  obtain rc w where r: "bpf_probe_read_user env (unat len) (arg_start_of env) = (rc, w)" by fastforce
  have present: "bpf_get_current_task_btf env \<noteq> 0" "arg_mm env \<noteq> 0" "\<not> arg_end_of env \<le> arg_start_of env"
    using True by (auto simp: args_present_def)
  have fields: "map_option le_word (core_field env 8 (bpf_get_current_task_btf env) (task_mm (task_fields env))) = Some (arg_mm env)"
    "map_option le_word (core_field env 8 (arg_mm env) (mm_arg_start (mm_fields env))) = Some (arg_start_of env)"
    "map_option le_word (core_field env 8 (arg_mm env) (mm_arg_end (mm_fields env))) = Some (arg_end_of env)"
    by (simp_all add: core_field_some [OF assms] arg_mm_def arg_start_of_def arg_end_of_def)
  have raw: "(ucast (if of_nat MAX_ARGS_LEN < d then of_nat MAX_ARGS_LEN else d) :: u32) = len"
    by (simp add: len_def)
  show ?thesis
  proof (cases "of_nat MAX_ARGS_LEN < d")
    case cut: True
    with raw have "(ucast (of_nat MAX_ARGS_LEN :: u64) :: u32) = len" by simp
    with cut gt nz present True show ?thesis
      by (simp add: read_exec_args_def fields r r [unfolded len] lk Let_def d_def [symmetric])
  next
    case short: False
    with raw have "(ucast d :: u32) = len" by simp
    with short gt nz present True show ?thesis
      by (simp add: read_exec_args_def fields r r [unfolded len] lk Let_def d_def [symmetric])
  qed
qed

lemma user_read_size:
  "exec_env_ok byte env \<Longrightarrow> length (snd (bpf_probe_read_user env n a)) \<le> n"
  "exec_env_ok byte env \<Longrightarrow> length (snd (bpf_probe_read_str env n a)) \<le> n"
  by (auto simp: exec_env_ok_def env_ok_def dest: probe_memory.read_size probe_memory.str_size)

lemma read_exec_args_ok:
  assumes "exec_env_ok byte env" and "exec_value_ok v" and "unat (pr_args_len (xv_proc v)) \<le> MAX_ARGS_LEN"
  shows "\<exists>v'. read_exec_args env v = Some v' \<and> exec_value_ok v' \<and>
    unat (pr_args_len (xv_proc v')) \<le> MAX_ARGS_LEN \<and> same_head (xv_proc v) (xv_proc v')"
proof -
  have "args_taken env \<le> MAX_ARGS_LEN" by (simp add: args_taken_def)
  then have "unat (of_nat (args_taken env) :: u32) \<le> MAX_ARGS_LEN" "args_taken env \<le> length (xv_args v)"
    using assms(2) by (simp_all add: unat_of_nat take_bit_nat_less_eq_self [THEN order_trans] exec_value_ok_def)
  then show ?thesis
    using assms user_read_size(1) [OF assms(1), of "args_taken env" "arg_start_of env"]
    by (auto simp: read_exec_args_spec exec_value_ok_def same_head_def Let_def split: prod.splits)
qed

section \<open>The exec program\<close>

definition exec_parent :: "exec_env \<Rightarrow> u64" where
  "exec_parent env = le_word (core_bytes env 8 (bpf_get_current_task_btf env) (task_real_parent (task_fields env)))"

definition exec_ppid :: "exec_env \<Rightarrow> s32" where
  "exec_ppid env = (if exec_parent env \<noteq> 0
     then le_word (core_bytes env 4 (exec_parent env) (task_tgid (task_fields env))) else 0)"

definition name_len :: "sched_process_ctx \<Rightarrow> nat" where
  "name_len ctx = min MAX_FILENAME_LEN (unat (drop_bit 16 (sp_filename ctx)))"

definition name_ptr :: "sched_process_ctx \<Rightarrow> u64" where
  "name_ptr ctx = sp_addr ctx + ucast (sp_filename ctx AND 0xFFFF)"

text \<open>The scratch value before the arguments are read.\<close>

definition exec_filled :: "exec_env \<Rightarrow> sched_process_ctx \<Rightarrow> exec_value \<Rightarrow> exec_value" where
  "exec_filled env ctx value = value\<lparr>xv_proc := (xv_proc value)
     \<lparr>pr_args_len := 0, pr_args_truncated := 0, pr_timestamp_ns := bpf_ktime_get_ns env,
      pr_start_time_ns := task_start env (bpf_get_current_task_btf env),
      pr_parent_start_time_ns := task_start env (exec_parent env),
      pr_pid := sp_pid ctx, pr_ppid := exec_ppid env, pr_old_pid := sp_old_pid ctx,
      pr_comm := bpf_get_current_comm env EXEC_COMM_LEN,
      pr_filename := mem_write (pr_filename (xv_proc value)) (snd (bpf_probe_read_str env (name_len ctx) (name_ptr ctx)))\<rparr>\<rparr>"

lemma exec_filled_ok:
  assumes "exec_env_ok byte env" and "exec_value_ok v"
  shows "exec_value_ok (exec_filled env ctx v)" and "pr_args_len (xv_proc (exec_filled env ctx v)) = 0"
proof -
  have "length (snd (bpf_probe_read_str env (name_len ctx) (name_ptr ctx))) \<le> MAX_FILENAME_LEN"
    using user_read_size(2) [OF assms(1), of "name_len ctx" "name_ptr ctx"] by (simp add: name_len_def)
  then show "exec_value_ok (exec_filled env ctx v)"
    using assms by (simp add: exec_filled_def exec_value_ok_def exec_env_ok_def env_ok_def)
  show "pr_args_len (xv_proc (exec_filled env ctx v)) = 0" by (simp add: exec_filled_def)
qed

lemma exec_filled_fresh: "pr_args_truncated (xv_proc (exec_filled env ctx v)) = 0"
  by (simp add: exec_filled_def)

lemma sched_exec_spec:
  assumes "exec_env_ok byte env" and "exec_heap_ok (exec_heap st)" and "sp_pid ctx \<noteq> 0"
  defines "cpu \<equiv> bpf_get_smp_processor_id env"
  shows "\<exists>v. read_exec_args env (exec_filled env ctx (exec_heap st cpu ! 0)) = Some v \<and>
    exec_value_ok v \<and> unat (pr_args_len (xv_proc v)) \<le> MAX_ARGS_LEN \<and>
    same_head (xv_proc (exec_filled env ctx (exec_heap st cpu ! 0))) (xv_proc v) \<and>
    tracepoint_sched_process_exec env ctx st = Some (st
      \<lparr>exec_heap := percpu_store cpu 0 v (exec_heap st),
       proc_events := (if proc_room env (PROC_SIZE + unat (pr_args_len (xv_proc v)))
         then (proc_events st)\<lparr>rb_log := rb_log (proc_events st) @ [exec_record v]\<rparr> else proc_events st)\<rparr>)"
proof -
  have heap: "length (exec_heap st cpu) = 1" using assms(2) by (simp add: exec_heap_ok_def)
  then obtain x where x: "exec_heap st cpu = [x]" by (auto simp: length_Suc_conv)
  have "\<forall>v \<in> set (exec_heap st cpu). exec_value_ok v" using assms(2) by (simp add: exec_heap_ok_def)
  with x have heap_ok: "exec_value_ok (exec_heap st cpu ! 0)" by simp
  obtain v where v: "read_exec_args env (exec_filled env ctx (exec_heap st cpu ! 0)) = Some v"
    "exec_value_ok v" "unat (pr_args_len (xv_proc v)) \<le> MAX_ARGS_LEN"
    "same_head (xv_proc (exec_filled env ctx (exec_heap st cpu ! 0))) (xv_proc v)"
    using read_exec_args_ok [OF assms(1) exec_filled_ok(1) [OF assms(1) heap_ok]] exec_filled_ok(2) [OF assms(1) heap_ok]
    by auto
  have len: "unat (if of_nat MAX_FILENAME_LEN < drop_bit 16 (sp_filename ctx) then of_nat MAX_FILENAME_LEN
      else drop_bit 16 (sp_filename ctx)) = name_len ctx"
    by (auto simp: name_len_def MAX_FILENAME_LEN_def word_less_nat_alt)
  have fits: "\<not> of_nat MAX_ARGS_LEN < pr_args_len (xv_proc v)"
    "\<not> length (exec_value_bytes v) < PROC_SIZE + unat (pr_args_len (xv_proc v))"
    using v(2,3) by (simp_all add: length_exec_value_bytes word_less_nat_alt MAX_ARGS_LEN_def)
  have reads: "map_option le_word (core_field env 8 (bpf_get_current_task_btf env) (task_real_parent (task_fields env)))
      = Some (exec_parent env)"
    "(if exec_parent env \<noteq> 0
      then map_option le_word (core_field env 4 (exec_parent env) (task_tgid (task_fields env))) else Some 0)
      = Some (exec_ppid env)"
    by (simp_all add: core_field_some [OF assms(1)] exec_parent_def exec_ppid_def)
  have "tracepoint_sched_process_exec env ctx st = do {
      value \<leftarrow> read_exec_args env (exec_filled env ctx (exec_heap st cpu ! 0));
      let st = st\<lparr>exec_heap := percpu_store cpu 0 value (exec_heap st)\<rparr>;
      let args_len = pr_args_len (xv_proc value);
      if of_nat MAX_ARGS_LEN < args_len then Some st
      else do {
        let evt_len = PROC_SIZE + unat args_len;
        rb \<leftarrow> bpf_ringbuf_output (proc_room env evt_len) (exec_value_bytes value) evt_len (proc_events st);
        Some (st\<lparr>proc_events := rb\<rparr>) } }"
    using assms(3) heap
    by (simp add: tracepoint_sched_process_exec_def percpu_lookup_def cpu_def [symmetric] reads
        read_task_start_time_some [OF assms(1)] Let_def len exec_filled_def name_ptr_def)
  then show ?thesis
    using v fits by (simp add: Let_def bpf_ringbuf_output_def exec_record_def)
qed

section \<open>Every program keeps the invariant\<close>

lemma percpu_store_ok:
  "exec_heap_ok h \<Longrightarrow> exec_value_ok v \<Longrightarrow> exec_heap_ok (percpu_store cpu 0 v h)"
  by (auto simp: exec_heap_ok_def percpu_store_def dest!: set_update_subset_insert [THEN subsetD])

lemma sched_exec_ok:
  assumes "exec_env_ok byte env" and "exec_inv st"
  shows "\<exists>st'. tracepoint_sched_process_exec env ctx st = Some st' \<and> exec_inv st'"
proof (cases "sp_pid ctx = 0")
  case True
  with assms(2) show ?thesis by (simp add: tracepoint_sched_process_exec_def)
next
  case False
  have heap: "exec_heap_ok (exec_heap st)" using assms(2) by (simp add: exec_inv_def)
  show ?thesis
    using sched_exec_spec [OF assms(1) heap False] assms(2) percpu_store_ok [OF heap]
    by (auto simp: exec_inv_def exec_record_ok_def)
qed

lemma enter_openat_spec:
  assumes "exec_env_ok byte env"
  shows "tracepoint_sys_enter_openat env ctx st = Some
    (let r = bpf_probe_read_user_str env MAX_FILENAME_LEN (oc_filename ctx) in
     if 0 < fst r \<and> libssl_name (butlast (snd r))
     then st\<lparr>ex_inflight_open := hash_update EXEC_MAX_ENTRIES (bpf_get_current_pid_tgid env)
       \<lparr>ov_filename = mem_write (replicate MAX_FILENAME_LEN 0) (snd r)\<rparr> (ex_inflight_open st)\<rparr>
     else st)"
proof -
  obtain len w where r: "bpf_probe_read_user_str env MAX_FILENAME_LEN (oc_filename ctx) = (len, w)" by fastforce
  have m: "probe_memory (bpf_probe_read_user env) (bpf_probe_read_user_str env) byte"
    using assms by (auto simp: exec_env_ok_def)
  show ?thesis
  proof (cases "0 < len")
    case True
    note written = probe_memory.str_written [OF m, of MAX_FILENAME_LEN "oc_filename ctx" "replicate MAX_FILENAME_LEN 0"]
    from True r written is_libssl_spec [of "mem_write (replicate MAX_FILENAME_LEN 0) w"] show ?thesis
      by (simp add: tracepoint_sys_enter_openat_def)
  qed (simp add: tracepoint_sys_enter_openat_def r)
qed

lemma stored_name_ok:
  assumes "exec_env_ok byte env"
    and "r = bpf_probe_read_user_str env MAX_FILENAME_LEN a" and "0 < fst r" and "libssl_name (butlast (snd r))"
  shows "ssl_path (mem_write (replicate MAX_FILENAME_LEN 0) (snd r))"
    and "cstr (mem_write (replicate MAX_FILENAME_LEN 0) (snd r)) = butlast (snd r)"
proof -
  have m: "probe_memory (bpf_probe_read_user env) (bpf_probe_read_user_str env) byte"
    using assms(1) by (auto simp: exec_env_ok_def)
  note written = probe_memory.str_written [OF m, of MAX_FILENAME_LEN a "replicate MAX_FILENAME_LEN 0"]
  from written assms show "ssl_path (mem_write (replicate MAX_FILENAME_LEN 0) (snd r))"
    and "cstr (mem_write (replicate MAX_FILENAME_LEN 0) (snd r)) = butlast (snd r)"
    by (simp_all add: ssl_path_def)
qed

definition dynlib_event :: "exec_env \<Rightarrow> mmap_ctx \<Rightarrow> open_value \<Rightarrow> dynlib" where
  "dynlib_event env ctx ov =
     \<lparr>dl_fd = mc_fd ctx, dl_pid_tgid = bpf_get_current_pid_tgid env,
      dl_comm = bpf_get_current_comm env EXEC_COMM_LEN, dl_filename = ov_filename ov\<rparr>"

definition mmap_key :: "exec_env \<Rightarrow> u64 \<Rightarrow> open_key" where
  "mmap_key env fd = \<lparr>ok_fd = fd, ok_pid_tgid = bpf_get_current_pid_tgid env\<rparr>"

lemma enter_mmap_spec:
  assumes "exec_env_ok byte env" and "exec_inv st"
  shows "tracepoint_sys_enter_mmap env ctx st = Some
    (case map_of (inflight_mmap st) (mmap_key env (mc_fd ctx)) of
       None \<Rightarrow> st
     | Some ov \<Rightarrow> if bpf_ringbuf_reserve env 0 = None then st
         else st\<lparr>dynlib_events := (dynlib_events st)\<lparr>rb_log := rb_log (dynlib_events st) @ [dynlib_event env ctx ov]\<rparr>,
                 inflight_mmap := AList.delete (mmap_key env (mc_fd ctx)) (inflight_mmap st)\<rparr>)"
proof -
  have "length (ov_filename ov) = MAX_FILENAME_LEN"
    if "map_of (inflight_mmap st) (mmap_key env (mc_fd ctx)) = Some ov" for ov
    using that assms(2) by (auto simp: exec_inv_def hash.all_entries_def ssl_path_def)
  moreover have "length (dl_filename d) = MAX_FILENAME_LEN" if "bpf_ringbuf_reserve env 0 = Some d" for d
    using that assms(1) by (auto simp: exec_env_ok_def)
  ultimately show ?thesis
    by (auto simp: tracepoint_sys_enter_mmap_def mmap_key_def dynlib_event_def Let_def split: option.splits)
qed

lemma exec_prog_ok:
  assumes "exec_env_ok byte env" and "exec_inv st"
  shows "\<exists>st'. exec_prog c env st = Some st' \<and> exec_inv st'"
proof (cases c)
  case (SchedExec ctx)
  then show ?thesis using sched_exec_ok [OF assms] by simp
next
  case (ExEnterOpenat ctx)
  let ?r = "bpf_probe_read_user_str env MAX_FILENAME_LEN (oc_filename ctx)"
  show ?thesis
    using ExEnterOpenat assms(2) stored_name_ok(1) [OF assms(1), of ?r]
    by (auto simp: enter_openat_spec [OF assms(1)] Let_def exec_inv_def
        intro!: hash_ok_update hash.all_entries_update)
next
  case (ExExitOpenat ctx)
  with assms(2) show ?thesis
    by (auto simp: tracepoint_sys_exit_openat_def Let_def exec_inv_def wf_intros hash.all_entries_def
        delete_conv' split: option.splits if_splits dest!: lru.update_origin [rotated])
next
  case (ExEnterMmap ctx)
  have "dynlib_ok (dynlib_event env ctx ov)"
    if "map_of (inflight_mmap st) (mmap_key env (mc_fd ctx)) = Some ov" for ov
    using that assms by (auto simp: dynlib_ok_def dynlib_event_def exec_env_ok_def env_ok_def exec_inv_def hash.all_entries_def)
  with ExEnterMmap assms(2) show ?thesis
    by (auto simp: enter_mmap_spec [OF assms] exec_inv_def wf_intros
        split: option.splits intro!: hash.all_entries_delete)
next
  case (ExEnterClose ctx)
  with assms(2) show ?thesis
    by (auto simp: tracepoint_sys_enter_close_def Let_def exec_inv_def wf_intros intro!: hash.all_entries_delete)
qed

inductive exec_reachable :: "exec_state \<Rightarrow> bool" where
  exec_start: "exec_heap_ok h \<Longrightarrow> exec_reachable
    \<lparr>ex_inflight_open = [], exec_heap = h, inflight_mmap = [],
     proc_events = \<lparr>rb_pending = 0, rb_log = []\<rparr>, dynlib_events = \<lparr>rb_pending = 0, rb_log = []\<rparr>\<rparr>"
| exec_step: "exec_reachable st \<Longrightarrow> exec_env_ok byte env \<Longrightarrow> exec_prog c env st = Some st' \<Longrightarrow>
    exec_reachable st'"

lemma exec_reachable_inv: "exec_reachable st \<Longrightarrow> exec_inv st"
proof (induction rule: exec_reachable.induct)
  case (exec_start h)
  then show ?case by (simp add: exec_inv_def hash_ok_def hash.all_entries_def)
next
  case (exec_step st byte env c st')
  then show ?case using exec_prog_ok [of byte env st c] by auto
qed

section \<open>Opens in flight and watched descriptors\<close>

definition exec_thread_step :: "u64 \<Rightarrow> exec_state \<Rightarrow> exec_state \<Rightarrow> bool" where
  "exec_thread_step p st st' \<longleftrightarrow> (\<exists>byte env c. exec_env_ok byte env \<and>
     bpf_get_current_pid_tgid env = p \<and> exec_prog c env st = Some st')"

definition exec_open_exit :: "u64 \<Rightarrow> exec_state \<Rightarrow> exec_state \<Rightarrow> bool" where
  "exec_open_exit p st st' \<longleftrightarrow> (\<exists>byte env c. exec_env_ok byte env \<and>
     bpf_get_current_pid_tgid env = p \<and> exec_prog (ExExitOpenat c) env st = Some st')"

primrec touched_key :: "exec_call \<Rightarrow> exec_env \<Rightarrow> open_key option" where
  "touched_key (SchedExec c) env = None"
| "touched_key (ExEnterOpenat c) env = None"
| "touched_key (ExExitOpenat c) env = Some (mmap_key env (ox_ret c))"
| "touched_key (ExEnterMmap c) env = Some (mmap_key env (mc_fd c))"
| "touched_key (ExEnterClose c) env = Some (mmap_key env (xc_fd c))"

definition exec_key_step :: "open_key \<Rightarrow> exec_state \<Rightarrow> exec_state \<Rightarrow> bool" where
  "exec_key_step k st st' \<longleftrightarrow> (\<exists>byte env c. exec_env_ok byte env \<and>
     (touched_key c env = None \<or> touched_key c env = Some k) \<and> exec_prog c env st = Some st')"

text \<open>The steps after which a descriptor is no longer watched: a reported mapping, or a close.\<close>

definition exec_key_done :: "open_key \<Rightarrow> exec_state \<Rightarrow> exec_state \<Rightarrow> bool" where
  "exec_key_done k st st' \<longleftrightarrow> (\<exists>byte env c. exec_env_ok byte env \<and> touched_key c env = Some k \<and>
     exec_prog c env st = Some st' \<and>
     (case c of ExEnterMmap _ \<Rightarrow> bpf_ringbuf_reserve env 0 \<noteq> None | ExEnterClose _ \<Rightarrow> True | _ \<Rightarrow> False))"

lemma sched_exec_frame:
  assumes "exec_env_ok byte env" and "exec_inv st" and "tracepoint_sched_process_exec env ctx st = Some st'"
  shows "ex_inflight_open st' = ex_inflight_open st" and "inflight_mmap st' = inflight_mmap st"
    and "dynlib_events st' = dynlib_events st"
proof -
  have heap: "exec_heap_ok (exec_heap st)" using assms(2) by (simp add: exec_inv_def)
  have "sp_pid ctx = 0 \<Longrightarrow> st' = st" using assms(3) by (simp add: tracepoint_sched_process_exec_def)
  with sched_exec_spec [OF assms(1) heap, of ctx] assms(3)
  show "ex_inflight_open st' = ex_inflight_open st" and "inflight_mmap st' = inflight_mmap st"
    and "dynlib_events st' = dynlib_events st"
    by (cases "sp_pid ctx = 0", auto)+
qed

lemma exec_thread_frame:
  assumes "exec_inv s" and "exec_thread_step p s s'"
  shows "exec_inv s'" and "q \<noteq> p \<Longrightarrow> map_of (ex_inflight_open s') q = map_of (ex_inflight_open s) q"
proof -
  obtain byte env c where c: "exec_env_ok byte env" "bpf_get_current_pid_tgid env = p" "exec_prog c env s = Some s'"
    using assms(2) by (auto simp: exec_thread_step_def)
  show "exec_inv s'" using exec_prog_ok [OF c(1) assms(1), of c] c(3) by auto
  show "q \<noteq> p \<Longrightarrow> map_of (ex_inflight_open s') q = map_of (ex_inflight_open s) q"
    using c sched_exec_frame(1) [OF c(1) assms(1)]
    by (cases c) (auto simp: enter_openat_spec enter_mmap_spec [OF c(1) assms(1)] Let_def map_of_hash_update delete_conv'
        tracepoint_sys_exit_openat_def tracepoint_sys_enter_close_def split: option.splits if_splits)
qed

lemma exec_open_exit_clears: "exec_open_exit p s s' \<Longrightarrow> map_of (ex_inflight_open s') p = None"
  by (cases "map_of (ex_inflight_open s) p")
    (auto simp: exec_open_exit_def tracepoint_sys_exit_openat_def Let_def delete_conv')

interpretation lib_opens: call_tracker "\<lambda>st. map_of (ex_inflight_open st)" exec_thread_step exec_open_exit exec_inv
proof unfold_locales
  show "exec_thread_step p s s'" if "exec_open_exit p s s'" for p s s'
    using that unfolding exec_open_exit_def exec_thread_step_def by blast
qed (auto dest: exec_thread_frame exec_open_exit_clears)

lemma exec_key_frame:
  assumes "exec_inv s" and "exec_key_step k s s'"
  shows "exec_inv s'"
    and "q \<noteq> k \<Longrightarrow> map_of (inflight_mmap s') q = map_of (inflight_mmap s) q \<or> map_of (inflight_mmap s') q = None"
proof -
  obtain byte env c where c: "exec_env_ok byte env" "touched_key c env = None \<or> touched_key c env = Some k"
      "exec_prog c env s = Some s'"
    using assms(2) by (auto simp: exec_key_step_def)
  have ok: "hash_ok EXEC_MAX_ENTRIES (inflight_mmap s)" using assms(1) by (simp add: exec_inv_def)
  show "exec_inv s'" using exec_prog_ok [OF c(1) assms(1), of c] c(3) by auto
  show "q \<noteq> k \<Longrightarrow> map_of (inflight_mmap s') q = map_of (inflight_mmap s) q \<or> map_of (inflight_mmap s') q = None"
    using c sched_exec_frame(2) [OF c(1) assms(1)]
    by (cases c) (auto simp: map_of_lru_update [OF ok] enter_openat_spec enter_mmap_spec [OF c(1) assms(1)] Let_def delete_conv' mmap_key_def
        tracepoint_sys_exit_openat_def tracepoint_sys_enter_close_def split: option.splits if_splits)
qed

lemma exec_key_done_clears:
  assumes "exec_inv s" and "exec_key_done k s s'"
  shows "map_of (inflight_mmap s') k = None"
proof -
  obtain byte env c where c: "exec_env_ok byte env" "touched_key c env = Some k" "exec_prog c env s = Some s'"
      "case c of ExEnterMmap _ \<Rightarrow> bpf_ringbuf_reserve env 0 \<noteq> None | ExEnterClose _ \<Rightarrow> True | _ \<Rightarrow> False"
    using assms(2) by (auto simp: exec_key_done_def)
  then show ?thesis
    by (cases c) (auto simp: enter_mmap_spec [OF c(1) assms(1)] tracepoint_sys_enter_close_def Let_def delete_conv'
        mmap_key_def split: option.splits)
qed

interpretation lib_maps: lossy_tracker "\<lambda>st. map_of (inflight_mmap st)" exec_key_step exec_key_done exec_inv
proof unfold_locales
  show "exec_key_step p s s'" if "exec_key_done p s s'" for p s s'
    using that unfolding exec_key_done_def exec_key_step_def by blast
  show "map_of (inflight_mmap s') q = map_of (inflight_mmap s) q \<or> map_of (inflight_mmap s') q = None"
    if "exec_inv s" "exec_key_step p s s'" "q \<noteq> p" for s p s' q
    by (rule exec_key_frame(2) [OF that])
qed (auto dest: exec_key_frame(1) exec_key_done_clears)

section \<open>The user-space parser\<close>

datatype exec_parse_error = Short_record nat | Invalid_args_len u32 | Invalid_record_size nat nat

record parsed_exec =
  px_proc :: exec_proc
  px_args :: bytes

text \<open>\<^verbatim>\<open>binary.Read\<close> in little-endian order; blank fields are skipped and stay zero.\<close>

definition read_exec_proc :: "bytes \<Rightarrow> exec_proc" where
  "read_exec_proc b =
     \<lparr>pr_timestamp_ns = le_word (take 8 b),
      pr_start_time_ns = le_word (take 8 (drop 8 b)),
      pr_parent_start_time_ns = le_word (take 8 (drop 16 b)),
      pr_pid = le_word (take 4 (drop 24 b)),
      pr_ppid = le_word (take 4 (drop 28 b)),
      pr_old_pid = le_word (take 4 (drop 32 b)),
      pr_comm = take 16 (drop 36 b),
      pr_filename = take 256 (drop 52 b),
      pr_args_len = le_word (take 4 (drop 308 b)),
      pr_args_truncated = b ! 312,
      pr_pad = replicate 7 0\<rparr>"

text \<open>\<^verbatim>\<open>strings.FieldsFunc\<close> at NUL bytes, and \<^verbatim>\<open>strings.Join\<close> with a blank.\<close>

fun nul_fields :: "bytes \<Rightarrow> bytes \<Rightarrow> bytes list" where
  "nul_fields cur [] = (if cur = [] then [] else [cur])"
| "nul_fields cur (c # cs) =
     (if c = 0 then (if cur = [] then nul_fields [] cs else cur # nul_fields [] cs)
      else nul_fields (cur @ [c]) cs)"

fun join_blank :: "bytes list \<Rightarrow> bytes" where
  "join_blank [] = []"
| "join_blank [p] = p"
| "join_blank (p # q # ps) = p @ [byte_of_char CHR '' ''] @ join_blank (q # ps)"

definition trim_right_nul :: "bytes \<Rightarrow> bytes" where
  "trim_right_nul raw = rev (dropWhile (\<lambda>c. c = 0) (rev raw))"

definition decodeExecArgsBuffer :: "bytes \<Rightarrow> bytes" where
  "decodeExecArgsBuffer raw = join_blank (nul_fields [] (trim_right_nul raw))"

definition maxArgsLen :: u32 where "maxArgsLen = 2048"

definition parseExecRecord :: "bytes \<Rightarrow> exec_parse_error + parsed_exec" where
  "parseExecRecord raw =
     (let headerSize = PROC_SIZE in
      if length raw < headerSize then Inl (Short_record (length raw))
      else let header = read_exec_proc (take headerSize raw) in
      if maxArgsLen < pr_args_len header then Inl (Invalid_args_len (pr_args_len header))
      else if length raw \<noteq> headerSize + unat (pr_args_len header)
      then Inl (Invalid_record_size (length raw) (headerSize + unat (pr_args_len header)))
      else Inr \<lparr>px_proc = header, px_args = decodeExecArgsBuffer (drop headerSize raw)\<rparr>)"

lemma read_proc_bytes:
  assumes "exec_value_ok v"
  shows "read_exec_proc (proc_bytes (xv_proc v)) = (xv_proc v)\<lparr>pr_pad := replicate 7 0\<rparr>"
proof -
  let ?p = "xv_proc v"
  have len: "length (pr_comm ?p) = 16" "length (pr_filename ?p) = 256"
    using assms by (simp_all add: exec_value_ok_def EXEC_COMM_LEN_def MAX_FILENAME_LEN_def)
  have "le_word (to_le 8 w) = w" for w :: u64 by (rule le_word_to_le) simp
  moreover have "le_word (to_le 4 w) = w" for w :: u32 by (rule le_word_to_le) simp
  ultimately show ?thesis
    by (simp add: read_exec_proc_def proc_bytes_def len nth_append)
qed

lemma parse_record:
  assumes "exec_value_ok v" and "unat (pr_args_len (xv_proc v)) \<le> MAX_ARGS_LEN"
  shows "parseExecRecord (exec_record v) = Inr
    \<lparr>px_proc = (xv_proc v)\<lparr>pr_pad := replicate 7 0\<rparr>,
     px_args = decodeExecArgsBuffer (take (unat (pr_args_len (xv_proc v))) (xv_args v))\<rparr>"
proof -
  let ?n = "unat (pr_args_len (xv_proc v))"
  have p: "length (proc_bytes (xv_proc v)) = PROC_SIZE" by (rule length_proc_bytes [OF assms(1)])
  have r: "exec_record v = proc_bytes (xv_proc v) @ take ?n (xv_args v)"
    by (simp add: exec_record_def exec_value_bytes_def p)
  have "?n \<le> length (xv_args v)" using assms by (simp add: exec_value_ok_def)
  moreover have "\<not> maxArgsLen < pr_args_len (xv_proc v)"
    using assms(2) by (simp add: maxArgsLen_def MAX_ARGS_LEN_def word_less_nat_alt)
  ultimately show ?thesis
    by (simp add: parseExecRecord_def r p read_proc_bytes [OF assms(1)] min_def Let_def)
qed

lemma nul_fields_argument:
  "0 \<notin> set a \<Longrightarrow> nul_fields cur (a @ rest) = nul_fields (cur @ a) rest"
  by (induction a arbitrary: cur) auto

lemma nul_fields_arguments:
  "\<forall>a \<in> set (argv @ [part]). 0 \<notin> set a \<Longrightarrow>
     nul_fields [] (concat (map (\<lambda>a. a @ [0]) argv) @ part) = filter (\<lambda>a. a \<noteq> []) (argv @ [part])"
proof (induction argv)
  case Nil
  then show ?case using nul_fields_argument [of part "[]" "[]"] by simp
qed (auto simp: nul_fields_argument)

lemma nul_fields_trim: "nul_fields cur (b @ replicate n 0) = nul_fields cur b"
proof (induction b arbitrary: cur)
  case Nil
  have "nul_fields [] (replicate n 0) = []" for n by (induction n) auto
  then show ?case by (cases n) auto
qed auto

lemma trim_right_split: "\<exists>n. b = trim_right_nul b @ replicate n 0"
proof -
  let ?z = "takeWhile (\<lambda>c. c = 0) (rev b)"
  have "rev b = ?z @ dropWhile (\<lambda>c. c = 0) (rev b)" by simp
  moreover have "?z = replicate (length ?z) 0"
    by (rule replicate_eqI) (auto dest: set_takeWhileD)
  ultimately have "b = trim_right_nul b @ rev (replicate (length ?z) 0)"
    unfolding trim_right_nul_def by (metis rev_append rev_rev_ident)
  then show ?thesis by auto
qed

lemma decode_arguments:
  assumes "\<forall>a \<in> set (argv @ [part]). 0 \<notin> set a"
  shows "decodeExecArgsBuffer (concat (map (\<lambda>a. a @ [0]) argv) @ part) = join_blank (filter (\<lambda>a. a \<noteq> []) (argv @ [part]))"
  using nul_fields_arguments [OF assms] trim_right_split [of "concat (map (\<lambda>a. a @ [0]) argv) @ part"] nul_fields_trim
  by (metis decodeExecArgsBuffer_def)

section \<open>A concrete exec\<close>

text \<open>
  The task structure of the witnesses lies at \<open>0x5000\<close> (parent \<open>+0\<close>, address space \<open>+8\<close>, group
  \<open>+16\<close>, start time \<open>+24\<close>), its address space at \<open>0x6000\<close> and the arguments at \<open>0x7000\<close>.
\<close>

definition demo_relo :: "u32 \<Rightarrow> field_info" where
  "demo_relo off = (\<lambda>k. if k = BPF_FIELD_BYTE_OFFSET then off else if k = BPF_FIELD_EXISTS then 1 else 0)"

definition demo_exec_memory :: "u64 \<Rightarrow> u8" where
  "demo_exec_memory =
     store_at LITTLE_ENDIAN 8 0x5008 0x6000 (store_at LITTLE_ENDIAN 8 0x6000 0x7000
       (store_at LITTLE_ENDIAN 8 0x6008 0x7006
         (memory_at 0x7000 (bytes_of_string ''ls'' @ [0] @ bytes_of_string ''-l'' @ [0]))))"

definition demo_env_on :: "(u64 \<Rightarrow> u8) \<Rightarrow> exec_env" where
  "demo_env_on m = bpf_env.extend (memory_env 0x700000007 m
       (\<lambda>_. Some \<lparr>dl_fd = 1, dl_pid_tgid = 2, dl_comm = [], dl_filename = replicate MAX_FILENAME_LEN 9\<rparr>))
     \<lparr>kernel_reads = demo_read_helpers m, bpf_get_current_task_btf = 0x5000,
      task_fields = \<lparr>task_real_parent = demo_relo 0, task_mm = demo_relo 8, task_tgid = demo_relo 16,
        task_start_boottime = demo_relo 24, task_start_time = demo_relo 24\<rparr>,
      mm_fields = \<lparr>mm_arg_start = demo_relo 0, mm_arg_end = demo_relo 8\<rparr>,
      stack_garbage = (\<lambda>n. replicate n 99), proc_room = (\<lambda>_. True)\<rparr>"

abbreviation demo_exec_env :: exec_env where
  "demo_exec_env \<equiv> demo_env_on demo_exec_memory"

lemma load_at_other:
  assumes "\<And>i. i < n \<Longrightarrow> m \<le> unat (p + of_nat i - q)"
  shows "load_at bo n (store_at bo' m q v mem) p = load_at bo n mem p"
proof -
  have "map (\<lambda>i. store_at bo' m q v mem (p + of_nat i)) [0..<n] = map (\<lambda>i. mem (p + of_nat i)) [0..<n]"
    using assms by (auto simp: store_at_def not_less [symmetric])
  then show ?thesis unfolding load_at_def by (rule arg_cong)
qed

lemma demo_core:
  "le_word (core_bytes demo_exec_env 8 a (demo_relo off)) = load_at LITTLE_ENDIAN 8 demo_exec_memory (a + ucast off)"
  by (simp add: core_bytes_def demo_env_on_def bpf_env.extend_def demo_read_helpers_def mem_read_def list_ex_iff
      demo_relo_def mem_write_def load_at_def)

lemma below_8: "i < 8 \<Longrightarrow> i = 0 \<or> i = 1 \<or> i = 2 \<or> i = 3 \<or> i = 4 \<or> i = 5 \<or> i = 6 \<or> i = (7 :: nat)"
  by auto

lemma demo_loads:
  "load_at LITTLE_ENDIAN 8 demo_exec_memory 0x5008 = 0x6000"
  "load_at LITTLE_ENDIAN 8 demo_exec_memory 0x6000 = 0x7000"
  "load_at LITTLE_ENDIAN 8 demo_exec_memory 0x6008 = 0x7006"
proof -
  show "load_at LITTLE_ENDIAN 8 demo_exec_memory 0x5008 = 0x6000"
    unfolding demo_exec_memory_def by (subst load_store_at) simp_all
  have "8 \<le> unat (0x6000 + of_nat i - 0x5008 :: u64)" "8 \<le> unat (0x6008 + of_nat i - 0x5008 :: u64)"
    "8 \<le> unat (0x6008 + of_nat i - 0x6000 :: u64)" if "i < 8" for i
    using below_8 [OF that] by auto
  note other = this
  define m3 where "m3 = store_at LITTLE_ENDIAN 8 0x6008 0x7006
    (memory_at 0x7000 (bytes_of_string ''ls'' @ [0] @ bytes_of_string ''-l'' @ [0]))"
  define m2 where "m2 = store_at LITTLE_ENDIAN 8 0x6000 0x7000 m3"
  have m1: "demo_exec_memory = store_at LITTLE_ENDIAN 8 0x5008 0x6000 m2"
    by (simp add: demo_exec_memory_def m2_def m3_def)
  have "load_at LITTLE_ENDIAN 8 demo_exec_memory 0x6000 = load_at LITTLE_ENDIAN 8 m2 0x6000"
    unfolding m1 by (rule load_at_other) (rule other(1))
  also have "\<dots> = 0x7000" unfolding m2_def by (subst load_store_at) simp_all
  finally show "load_at LITTLE_ENDIAN 8 demo_exec_memory 0x6000 = 0x7000" .
  have "load_at LITTLE_ENDIAN 8 demo_exec_memory 0x6008 = load_at LITTLE_ENDIAN 8 m2 0x6008"
    unfolding m1 by (rule load_at_other) (rule other(2))
  also have "\<dots> = load_at LITTLE_ENDIAN 8 m3 0x6008" unfolding m2_def by (rule load_at_other) (rule other(3))
  also have "\<dots> = 0x7006" unfolding m3_def by (subst load_store_at) simp_all
  finally show "load_at LITTLE_ENDIAN 8 demo_exec_memory 0x6008 = 0x7006" .
qed

lemma demo_exec_args:
  "arg_mm demo_exec_env = 0x6000" "arg_start_of demo_exec_env = 0x7000" "arg_end_of demo_exec_env = 0x7006"
  "args_present demo_exec_env" "args_taken demo_exec_env = 6"
proof -
  have f: "task_mm (task_fields demo_exec_env) = demo_relo 8" "mm_arg_start (mm_fields demo_exec_env) = demo_relo 0"
    "mm_arg_end (mm_fields demo_exec_env) = demo_relo 8" "bpf_get_current_task_btf demo_exec_env = 0x5000"
    by (simp_all add: demo_env_on_def bpf_env.extend_def)
  show mm: "arg_mm demo_exec_env = 0x6000"
    unfolding arg_mm_def f demo_core using demo_loads(1) by simp
  show st: "arg_start_of demo_exec_env = 0x7000"
    unfolding arg_start_of_def mm f demo_core using demo_loads(2) by simp
  show en: "arg_end_of demo_exec_env = 0x7006"
    unfolding arg_end_of_def mm f demo_core using demo_loads(3) by simp
  show "args_present demo_exec_env" by (simp add: args_present_def mm st en f)
  show "args_taken demo_exec_env = 6" by (simp add: args_taken_def st en MAX_ARGS_LEN_def)
qed

lemma demo_env_on_ok: "exec_env_ok m (demo_env_on m)"
proof -
  have "env_ok m (demo_env_on m)"
    using memory_env_ok [of m] by (simp add: env_ok_def demo_env_on_def bpf_env.extend_def memory_env_def)
  then show ?thesis
    by (auto simp: exec_env_ok_def demo_env_on_def bpf_env.extend_def memory_env_def demo_read_helpers_def
        mem.probe_memory_axioms)
qed

definition demo_exec_value :: exec_value where
  "demo_exec_value = \<lparr>xv_proc = \<lparr>pr_timestamp_ns = 0, pr_start_time_ns = 0, pr_parent_start_time_ns = 0,
       pr_pid = 0, pr_ppid = 0, pr_old_pid = 0, pr_comm = replicate EXEC_COMM_LEN 0,
       pr_filename = replicate MAX_FILENAME_LEN 0, pr_args_len = 0, pr_args_truncated = 0, pr_pad = replicate 7 0\<rparr>,
     xv_args = replicate MAX_ARGS_LEN 0\<rparr>"

definition demo_exec_state :: exec_state where
  "demo_exec_state = \<lparr>ex_inflight_open = [], exec_heap = (\<lambda>_. [demo_exec_value]), inflight_mmap = [],
     proc_events = \<lparr>rb_pending = 0, rb_log = []\<rparr>, dynlib_events = \<lparr>rb_pending = 0, rb_log = []\<rparr>\<rparr>"

definition demo_sched_ctx :: sched_process_ctx where
  "demo_sched_ctx = \<lparr>sp_addr = 0x7000, sp_common = 0, sp_filename = 0x30000, sp_pid = 7, sp_old_pid = 7\<rparr>"

lemma demo_exec_reachable: "exec_reachable demo_exec_state"
  unfolding demo_exec_state_def
  by (rule exec_start) (simp add: exec_heap_ok_def exec_value_ok_def demo_exec_value_def)

interpretation exec_probe: safe_probe "\<lambda>(c, env). exec_prog c env" "\<lambda>(c, env). \<exists>byte. exec_env_ok byte env" exec_inv
  by unfold_locales (auto dest: exec_prog_ok)

section \<open>Properties\<close>

text \<open>
  In every reachable state every program of the exec probe runs without an access outside of
  a buffer; no reservation stays open; the maps stay within their capacity; every exec record in
  the ring is accepted by the user-space parser; and every library event names a \<^verbatim>\<open>libssl\<close> file.
\<close>

lemma exec_safe:
  assumes "exec_reachable st" and "exec_env_ok byte env"
  shows "\<exists>st'. exec_prog c env st = Some st' \<and> exec_reachable st' \<and>
    rb_pending (proc_events st') = 0 \<and> rb_pending (dynlib_events st') = 0 \<and>
    length (ex_inflight_open st') \<le> EXEC_MAX_ENTRIES \<and> length (inflight_mmap st') \<le> EXEC_MAX_ENTRIES \<and>
    (\<forall>raw \<in> set (rb_log (proc_events st')). \<exists>p. parseExecRecord raw = Inr p) \<and>
    (\<forall>d \<in> set (rb_log (dynlib_events st')). libssl_name (cstr (dl_filename d)))"
proof -
  obtain st' where st': "exec_prog c env st = Some st'" "exec_inv st'"
    using exec_prog_ok [OF assms(2) exec_reachable_inv [OF assms(1)]] by blast
  then have "\<forall>raw \<in> set (rb_log (proc_events st')). \<exists>p. parseExecRecord raw = Inr p"
    by (auto simp: exec_inv_def exec_record_ok_def parse_record)
  with st' show ?thesis
    using exec_step [OF assms st'(1)] by (auto simp: exec_inv_def hash_ok_def dynlib_ok_def ssl_path_def)
qed

lemma exec_safe_example:
  "\<exists>st'. exec_prog (SchedExec demo_sched_ctx) demo_exec_env demo_exec_state = Some st' \<and> exec_reachable st'"
  using exec_safe [OF demo_exec_reachable demo_env_on_ok] by blast

lemma str_written_prefix:
  assumes "probe_memory rd rd_str byte" and "0 < fst (rd_str n a)"
  shows "cstr (mem_write dst (snd (rd_str n a))) = butlast (snd (rd_str n a))"
proof -
  obtain k where k: "snd (rd_str n a) = map (\<lambda>i. byte (a + of_nat i)) [0..<k] @ [0]"
    "\<forall>i < k. byte (a + of_nat i) \<noteq> 0"
    using probe_memory.str_done [OF assms] by blast
  let ?s = "map (\<lambda>i. byte (a + of_nat i)) [0..<k]"
  have "0 \<notin> set ?s" using k(2) by (auto dest: sym)
  from cstr_append_nul [OF this] show ?thesis
    unfolding k(1) mem_write_def by (simp only: append_assoc append.simps butlast_snoc)
qed

text \<open>
  C15: an exec is reported as it happened.  When the file name and the arguments are readable and
  the ring has room, exactly one record is added, and what the user-space parser makes of it is
  the task's identity, its start time and parent, the file name, and the arguments: the strings in the
  first 2048 bytes of the argument area, the last one possibly cut, without the empty ones, joined by
  blanks.  It is marked truncated exactly when the arguments exceed 2048 bytes.  Nothing of an
  earlier exec that used the same scratch value shows.
\<close>

theorem exec_reported:
  assumes "exec_reachable st" and "exec_env_ok byte env" and "sp_pid ctx \<noteq> 0"
    and "0 < fst (bpf_probe_read_str env (name_len ctx) (name_ptr ctx))"
    and "args_present env" and "fst (bpf_probe_read_user env (args_taken env) (arg_start_of env)) = 0"
    and "proc_room env (PROC_SIZE + args_taken env)"
  shows "\<exists>st' raw p. tracepoint_sched_process_exec env ctx st = Some st' \<and>
    rb_log (proc_events st') = rb_log (proc_events st) @ [raw] \<and> parseExecRecord raw = Inr p \<and>
    pr_timestamp_ns (px_proc p) = bpf_ktime_get_ns env \<and>
    pr_pid (px_proc p) = sp_pid ctx \<and> pr_old_pid (px_proc p) = sp_old_pid ctx \<and>
    pr_ppid (px_proc p) = exec_ppid env \<and>
    pr_start_time_ns (px_proc p) = task_start env (bpf_get_current_task_btf env) \<and>
    pr_parent_start_time_ns (px_proc p) = task_start env (exec_parent env) \<and>
    pr_comm (px_proc p) = bpf_get_current_comm env EXEC_COMM_LEN \<and>
    cstr (pr_filename (px_proc p)) = butlast (snd (bpf_probe_read_str env (name_len ctx) (name_ptr ctx))) \<and>
    (pr_args_truncated (px_proc p) \<noteq> 0 \<longleftrightarrow> MAX_ARGS_LEN < unat (arg_end_of env - arg_start_of env)) \<and>
    (\<forall>argv part. (\<forall>a \<in> set (argv @ [part]). 0 \<notin> set a) \<and>
       bytes_at byte (args_taken env) (arg_start_of env) = concat (map (\<lambda>a. a @ [0]) argv) @ part \<longrightarrow>
       px_args p = join_blank (filter (\<lambda>a. a \<noteq> []) (argv @ [part])))"
proof -
  let ?v0 = "exec_heap st (bpf_get_smp_processor_id env) ! 0"
  let ?args = "bytes_at byte (args_taken env) (arg_start_of env)"
  have heap: "exec_heap_ok (exec_heap st)" using exec_reachable_inv [OF assms(1)] by (simp add: exec_inv_def)
  obtain v where v: "read_exec_args env (exec_filled env ctx ?v0) = Some v" "exec_value_ok v"
    "unat (pr_args_len (xv_proc v)) \<le> MAX_ARGS_LEN" "same_head (xv_proc (exec_filled env ctx ?v0)) (xv_proc v)"
    "tracepoint_sched_process_exec env ctx st = Some (st
      \<lparr>exec_heap := percpu_store (bpf_get_smp_processor_id env) 0 v (exec_heap st),
       proc_events := (if proc_room env (PROC_SIZE + unat (pr_args_len (xv_proc v)))
         then (proc_events st)\<lparr>rb_log := rb_log (proc_events st) @ [exec_record v]\<rparr> else proc_events st)\<rparr>)"
    using sched_exec_spec [OF assms(2) heap assms(3)] by blast
  have m: "probe_memory (bpf_probe_read_user env) (bpf_probe_read_user_str env) byte"
    "probe_memory (bpf_probe_read env) (bpf_probe_read_str env) byte"
    using assms(2) by (auto simp: exec_env_ok_def)
  have user: "bpf_probe_read_user env (args_taken env) (arg_start_of env) = (0, ?args)"
    using assms(6) probe_memory.read_done [OF m(1) assms(6)] by (simp add: bytes_at_def prod_eq_iff)
  have k: "args_taken env \<le> MAX_ARGS_LEN" by (simp add: args_taken_def)
  then have "unat (of_nat (args_taken env) :: u32) = args_taken env"
    unfolding unat_of_nat MAX_ARGS_LEN_def by (intro mod_less) simp
  then have len: "unat (pr_args_len (xv_proc v)) = args_taken env" "take (args_taken env) (xv_args v) = ?args"
    "pr_args_truncated (xv_proc v) \<noteq> 0 \<longleftrightarrow> MAX_ARGS_LEN < unat (arg_end_of env - arg_start_of env)"
    using v(1) assms(5) user
    by (auto simp: read_exec_args_spec [OF assms(2)] exec_filled_fresh mem_write_def bytes_at_def
        cong: if_cong split: if_splits)
  have name: "cstr (pr_filename (xv_proc v)) = butlast (snd (bpf_probe_read_str env (name_len ctx) (name_ptr ctx)))"
    using v(4) str_written_prefix [OF m(2) assms(4)] by (auto simp: same_head_def exec_filled_def)
  have head: "pr_timestamp_ns (xv_proc v) = bpf_ktime_get_ns env" "pr_pid (xv_proc v) = sp_pid ctx"
    "pr_old_pid (xv_proc v) = sp_old_pid ctx" "pr_ppid (xv_proc v) = exec_ppid env"
    "pr_start_time_ns (xv_proc v) = task_start env (bpf_get_current_task_btf env)"
    "pr_parent_start_time_ns (xv_proc v) = task_start env (exec_parent env)"
    "pr_comm (xv_proc v) = bpf_get_current_comm env EXEC_COMM_LEN"
    using v(4) by (auto simp: same_head_def exec_filled_def)
  show ?thesis
    unfolding v(5) using name head len assms(7) parse_record [OF v(2,3)] by (simp add: decode_arguments)
qed

lemma below_6: "i < 6 \<Longrightarrow> i = 0 \<or> i = 1 \<or> i = 2 \<or> i = 3 \<or> i = 4 \<or> i = (5 :: nat)"
  by auto

lemma demo_arguments:
  "i < 6 \<Longrightarrow> demo_exec_memory (0x7000 + of_nat i) = [108, 115, 0, 45, 108, 0] ! i"
  using below_6 [of i]
  by (auto simp: demo_exec_memory_def store_at_def memory_at_def bytes_of_string_def)

lemma demo_name_read: "mem_read_str demo_exec_memory (\<lambda>_. False) 3 0x7000 = (3, [108, 115, 0])"
proof -
  have "mem_str demo_exec_memory (\<lambda>_. False) 3 0x7000 = Some [108, 115]"
    using demo_arguments [of 0] demo_arguments [of 1] demo_arguments [of 2]
    by (intro mem_str_finds) (auto simp: less_Suc_eq)
  then show ?thesis by (simp add: mem_read_str_def)
qed

theorem exec_reported_witness:
  "\<exists>st' raw p. tracepoint_sched_process_exec demo_exec_env demo_sched_ctx demo_exec_state = Some st' \<and>
     rb_log (proc_events st') = [raw] \<and> parseExecRecord raw = Inr p \<and> pr_pid (px_proc p) = 7 \<and>
     px_args p = bytes_of_string ''ls -l''"
proof -
  have args: "bytes_at demo_exec_memory 6 0x7000 = concat (map (\<lambda>a. a @ [0]) [[108, 115], [45, 108]])"
    using demo_arguments by (intro nth_equalityI) (simp_all add: bytes_at_def)
  have joined: "join_blank [[108, 115], [45, 108]] = bytes_of_string ''ls -l''"
    by (simp add: bytes_of_string_def byte_of_char_def)
  have name: "name_len demo_sched_ctx = 3" "name_ptr demo_sched_ctx = 0x7000"
    by (simp_all add: name_len_def name_ptr_def demo_sched_ctx_def MAX_FILENAME_LEN_def)
  have reads: "bpf_probe_read_str demo_exec_env = mem_read_str demo_exec_memory (\<lambda>_. False)"
    "bpf_probe_read_user demo_exec_env = mem_read demo_exec_memory (\<lambda>_. False)" "proc_room demo_exec_env n"
    "sp_pid demo_sched_ctx = 7" "rb_log (proc_events demo_exec_state) = []" for n
    by (simp_all add: demo_env_on_def bpf_env.extend_def memory_env_def demo_sched_ctx_def demo_exec_state_def)
  have prems: "sp_pid demo_sched_ctx \<noteq> 0"
    "0 < fst (bpf_probe_read_str demo_exec_env (name_len demo_sched_ctx) (name_ptr demo_sched_ctx))"
    "fst (bpf_probe_read_user demo_exec_env (args_taken demo_exec_env) (arg_start_of demo_exec_env)) = 0"
    by (simp_all add: name reads demo_name_read demo_read_done)
  obtain st' raw p where x: "tracepoint_sched_process_exec demo_exec_env demo_sched_ctx demo_exec_state = Some st'"
    "rb_log (proc_events st') = rb_log (proc_events demo_exec_state) @ [raw]" "parseExecRecord raw = Inr p"
    "pr_pid (px_proc p) = sp_pid demo_sched_ctx"
    "\<forall>argv part. (\<forall>a \<in> set (argv @ [part]). 0 \<notin> set a) \<and>
       bytes_at demo_exec_memory (args_taken demo_exec_env) (arg_start_of demo_exec_env) =
         concat (map (\<lambda>a. a @ [0]) argv) @ part \<longrightarrow> px_args p = join_blank (filter (\<lambda>a. a \<noteq> []) (argv @ [part]))"
    using exec_reported [OF demo_exec_reachable demo_env_on_ok prems(1,2) demo_exec_args(4) prems(3) reads(3)]
    by blast
  have "px_args p = join_blank [[108, 115], [45, 108]]"
    using x(5) [rule_format, of "[[108, 115], [45, 108]]" "[]"] args unfolding demo_exec_args by simp
  with x(1-4) show ?thesis unfolding joined reads by auto
qed

text \<open>
  Unreadable arguments are reported as such: the record carries no arguments, is marked
  truncated, and is still accepted by the parser.
\<close>

lemma exec_args_unreadable:
  assumes "exec_reachable st" and "exec_env_ok byte env" and "sp_pid ctx \<noteq> 0"
    and "args_present env" and "fst (bpf_probe_read_user env (args_taken env) (arg_start_of env)) < 0"
    and "proc_room env PROC_SIZE"
  shows "\<exists>st' raw p. tracepoint_sched_process_exec env ctx st = Some st' \<and>
    rb_log (proc_events st') = rb_log (proc_events st) @ [raw] \<and> length raw = PROC_SIZE \<and>
    parseExecRecord raw = Inr p \<and> pr_pid (px_proc p) = sp_pid ctx \<and>
    px_args p = [] \<and> pr_args_truncated (px_proc p) = 1"
proof -
  let ?v0 = "exec_heap st (bpf_get_smp_processor_id env) ! 0"
  have heap: "exec_heap_ok (exec_heap st)" using exec_reachable_inv [OF assms(1)] by (simp add: exec_inv_def)
  obtain v where v: "read_exec_args env (exec_filled env ctx ?v0) = Some v" "exec_value_ok v"
    "unat (pr_args_len (xv_proc v)) \<le> MAX_ARGS_LEN" "same_head (xv_proc (exec_filled env ctx ?v0)) (xv_proc v)"
    "tracepoint_sched_process_exec env ctx st = Some (st
      \<lparr>exec_heap := percpu_store (bpf_get_smp_processor_id env) 0 v (exec_heap st),
       proc_events := (if proc_room env (PROC_SIZE + unat (pr_args_len (xv_proc v)))
         then (proc_events st)\<lparr>rb_log := rb_log (proc_events st) @ [exec_record v]\<rparr> else proc_events st)\<rparr>)"
    using sched_exec_spec [OF assms(2) heap assms(3)] by blast
  have "pr_args_len (xv_proc (exec_filled env ctx ?v0)) = 0" by (simp add: exec_filled_def)
  then have len: "pr_args_len (xv_proc v) = 0" "pr_args_truncated (xv_proc v) = 1"
    using v(1) assms(4,5) by (auto simp: read_exec_args_spec [OF assms(2)] split: prod.splits)
  have "pr_pid (xv_proc v) = sp_pid ctx" using v(4) by (auto simp: same_head_def exec_filled_def)
  moreover have "length (exec_record v) = PROC_SIZE"
    using length_exec_value_bytes [OF v(2)] len by (simp add: exec_record_def)
  ultimately show ?thesis
    unfolding v(5) using len assms(6) parse_record [OF v(2,3)]
    by (simp add: decodeExecArgsBuffer_def trim_right_nul_def)
qed

lemma exec_args_unreadable_example:
  "\<exists>st' raw p. tracepoint_sched_process_exec
       (demo_exec_env\<lparr>bpf_probe_read_user := mem_read demo_exec_memory (\<lambda>_. True),
          bpf_probe_read_user_str := mem_read_str demo_exec_memory (\<lambda>_. True)\<rparr>) demo_sched_ctx demo_exec_state = Some st' \<and>
     rb_log (proc_events st') = [raw] \<and> parseExecRecord raw = Inr p \<and> px_args p = []"
proof -
  let ?E = "demo_exec_env\<lparr>bpf_probe_read_user := mem_read demo_exec_memory (\<lambda>_. True),
          bpf_probe_read_user_str := mem_read_str demo_exec_memory (\<lambda>_. True)\<rparr>"
  have ok: "exec_env_ok demo_exec_memory ?E"
    using demo_env_on_ok [of demo_exec_memory] mem.probe_memory_axioms [of demo_exec_memory "\<lambda>_. True"]
    by (simp add: exec_env_ok_def env_ok_def)
  have same: "core_bytes ?E n a fld = core_bytes demo_exec_env n a fld" for n a fld
    by (simp add: core_bytes_def)
  have args: "args_present ?E" "args_taken ?E = 6" "arg_start_of ?E = 0x7000" "proc_room ?E PROC_SIZE"
    using demo_exec_args unfolding args_present_def args_taken_def arg_start_of_def arg_end_of_def arg_mm_def same
    by (simp_all add: demo_env_on_def bpf_env.extend_def)
  have "fst (bpf_probe_read_user ?E 6 0x7000) < 0" by (simp add: mem_read_def upt_rec)
  then show ?thesis
    using exec_args_unreadable [OF demo_exec_reachable ok, of demo_sched_ctx] args
    by (simp add: demo_sched_ctx_def demo_exec_state_def) blast
qed

text \<open>
  The \<^verbatim>\<open>libssl\<close> test is exact on every name buffer: it holds of the paths whose last component
  starts with \<^verbatim>\<open>libssl\<close>.
\<close>

lemma libssl_test_exact:
  assumes "length name = MAX_FILENAME_LEN" and "nul_terminated name"
  shows "is_libssl name = Some (prefix (bytes_of_string ''libssl'') (basename (cstr name)))"
  using is_libssl_spec [OF assms] by (simp add: libssl_name_def)

lemma libssl_test_exact_example:
  "is_libssl (bytes_of_string ''/lib/libssl.so'' @ replicate 242 0) = Some True"
proof -
  have "basename (cstr (bytes_of_string ''/lib/libssl.so'' @ replicate 242 0)) = bytes_of_string ''libssl.so''"
    by (simp add: cstr_def basename_def bytes_of_string_def byte_of_char_def)
  then show ?thesis
    using libssl_test_exact [of "bytes_of_string ''/lib/libssl.so'' @ replicate 242 0"]
    by (simp add: MAX_FILENAME_LEN_def nul_terminated_def bytes_of_string_def)
qed

lemma open_watched:
  assumes "exec_env_ok byte e1" and "exec_inv st"
    and "r = bpf_probe_read_user_str e1 MAX_FILENAME_LEN (oc_filename c1)"
    and "0 < fst r" and "libssl_name (butlast (snd r))" and "length (ex_inflight_open st) < EXEC_MAX_ENTRIES"
    and "tracepoint_sys_enter_openat e1 c1 st = Some st1"
    and "lib_opens.others (bpf_get_current_pid_tgid e1) st1 st2"
    and "bpf_get_current_pid_tgid e2 = bpf_get_current_pid_tgid e1" and "0 \<le> sint (ox_ret c2)"
    and "length (inflight_mmap st2) < EXEC_MAX_ENTRIES"
    and "tracepoint_sys_exit_openat e2 c2 st2 = Some st3"
  shows "\<exists>ov. map_of (inflight_mmap st3) (mmap_key e2 (ox_ret c2)) = Some ov \<and> cstr (ov_filename ov) = butlast (snd r)"
proof -
  let ?ov = "\<lparr>ov_filename = mem_write (replicate MAX_FILENAME_LEN 0) (snd r)\<rparr>"
  have "map_of (ex_inflight_open st1) (bpf_get_current_pid_tgid e1) = Some ?ov"
    using assms(3-7) by (auto simp: enter_openat_spec [OF assms(1)] Let_def map_of_hash_update)
  moreover have "exec_inv st1" using exec_prog_ok [OF assms(1,2), of "ExEnterOpenat c1"] assms(7) by simp
  ultimately have st2: "exec_inv st2" "map_of (ex_inflight_open st2) (bpf_get_current_pid_tgid e2) = Some ?ov"
    using lib_opens.others_keep [OF assms(8)] assms(9) by simp_all
  have "hash_ok EXEC_MAX_ENTRIES (inflight_mmap st2)" using st2(1) by (simp add: exec_inv_def)
  from lru_room [OF this assms(11)] have "map_of (inflight_mmap st3) (mmap_key e2 (ox_ret c2)) = Some ?ov"
    using st2(2) assms(10,12) by (auto simp: tracepoint_sys_exit_openat_def mmap_key_def Let_def)
  then show ?thesis using stored_name_ok(2) [OF assms(1,3-5)] by simp
qed

text \<open>A thread that opens and maps a library.\<close>

definition demo_lib_env :: exec_env where
  "demo_lib_env = demo_env_on (memory_at 0x7000 (bytes_of_string ''/lib/libssl.so'' @ [0]))"

definition demo_lib_open :: openat_ctx where
  "demo_lib_open = \<lparr>oc_common = 0, oc_syscall_nr = 257, oc_dfd = 0, oc_filename = 0x7000, oc_flags = 0, oc_mode = 0\<rparr>"

definition demo_lib_exit :: openat_exit_ctx where
  "demo_lib_exit = \<lparr>ox_common = 0, ox_syscall_nr = 257, ox_ret = 3\<rparr>"

definition demo_lib_mmap :: mmap_ctx where
  "demo_lib_mmap = \<lparr>mc_common = 0, mc_syscall_nr = 9, mc_addr = 0, mc_length = 4096, mc_prot = 5, mc_flags = 2,
     mc_fd = 3, mc_offset = 0\<rparr>"

lemma demo_lib_fields [simp]:
  "bpf_get_current_pid_tgid demo_lib_env = 0x700000007" "bpf_ringbuf_reserve demo_lib_env n \<noteq> None"
  "oc_filename demo_lib_open = 0x7000" "ox_ret demo_lib_exit = 3" "mc_fd demo_lib_mmap = 3"
  by (simp_all add: demo_lib_env_def demo_env_on_def bpf_env.extend_def memory_env_def demo_lib_open_def
      demo_lib_exit_def demo_lib_mmap_def)

lemma demo_lib_name:
  "bpf_probe_read_user_str demo_lib_env MAX_FILENAME_LEN 0x7000 = (15, bytes_of_string ''/lib/libssl.so'' @ [0])"
  "libssl_name (bytes_of_string ''/lib/libssl.so'')"
proof -
  have "0 \<notin> set (bytes_of_string ''/lib/libssl.so'')" by (simp add: bytes_of_string_def)
  from mem_read_str_at [OF this, of MAX_FILENAME_LEN "0x7000"]
  show "bpf_probe_read_user_str demo_lib_env MAX_FILENAME_LEN 0x7000 = (15, bytes_of_string ''/lib/libssl.so'' @ [0])"
    by (simp add: demo_lib_env_def demo_env_on_def bpf_env.extend_def memory_env_def MAX_FILENAME_LEN_def)
  show "libssl_name (bytes_of_string ''/lib/libssl.so'')"
    by (simp add: libssl_name_def basename_def bytes_of_string_def byte_of_char_def)
qed

lemma demo_lib_env_ok:
  "exec_env_ok (memory_at 0x7000 (bytes_of_string ''/lib/libssl.so'' @ [0])) demo_lib_env"
  unfolding demo_lib_env_def by (rule demo_env_on_ok)

lemma demo_lib_opened:
  obtains st1 st3 ov where "tracepoint_sys_enter_openat demo_lib_env demo_lib_open demo_exec_state = Some st1"
    and "inflight_mmap st1 = []" and "tracepoint_sys_exit_openat demo_lib_env demo_lib_exit st1 = Some st3"
    and "map_of (inflight_mmap st3) (mmap_key demo_lib_env 3) = Some ov" and "exec_reachable st3"
proof -
  have e: "EXEC_MAX_ENTRIES > 0" by (simp add: EXEC_MAX_ENTRIES_def)
  have st: "ex_inflight_open demo_exec_state = []" "inflight_mmap demo_exec_state = []"
    by (simp_all add: demo_exec_state_def)
  note inv = exec_reachable_inv [OF demo_exec_reachable]
  obtain st1 where st1: "tracepoint_sys_enter_openat demo_lib_env demo_lib_open demo_exec_state = Some st1" "inflight_mmap st1 = []"
    using demo_lib_name by (simp add: enter_openat_spec [OF demo_lib_env_ok] st)
  have r1: "exec_reachable st1"
    using exec_step [OF demo_exec_reachable demo_lib_env_ok, of "ExEnterOpenat demo_lib_open" st1] st1 by simp
  obtain st3 where st3: "tracepoint_sys_exit_openat demo_lib_env demo_lib_exit st1 = Some st3"
    using exec_prog_ok [OF demo_lib_env_ok exec_reachable_inv [OF r1], of "ExExitOpenat demo_lib_exit"] by auto
  have r3: "exec_reachable st3"
    using exec_step [OF r1 demo_lib_env_ok, of "ExExitOpenat demo_lib_exit" st3] st3 by simp
  have "\<exists>ov. map_of (inflight_mmap st3) (mmap_key demo_lib_env 3) = Some ov"
    using open_watched [OF demo_lib_env_ok inv refl _ _ _ st1(1) lib_opens.others_refl _ _ _ st3] demo_lib_name e st st1(2)
    by auto
  with st1 st3 r3 show ?thesis using that by blast
qed

text \<open>
  C16: a load of \<^verbatim>\<open>libssl\<close> is reported.  A thread opens a file whose name ends in a \<^verbatim>\<open>libssl\<close>
  component; programs of other threads run until the open returns a descriptor; anything that
  does not concern this descriptor runs until the thread maps it.  When the maps have room for the
  entries and the ring for the event, and unless the LRU map evicted the entry meanwhile, the mapping
  reports one event with that file name, descriptor and thread, and the descriptor is no longer watched.
\<close>

theorem libssl_load_reported:
  assumes "exec_env_ok byte e1" and "exec_reachable st"
    and "r = bpf_probe_read_user_str e1 MAX_FILENAME_LEN (oc_filename c1)"
    and "0 < fst r" and "libssl_name (butlast (snd r))" and "length (ex_inflight_open st) < EXEC_MAX_ENTRIES"
    and "tracepoint_sys_enter_openat e1 c1 st = Some st1"
    and "lib_opens.others (bpf_get_current_pid_tgid e1) st1 st2"
    and "exec_env_ok byte2 e2" and "bpf_get_current_pid_tgid e2 = bpf_get_current_pid_tgid e1"
    and "0 \<le> sint (ox_ret c2)" and "length (inflight_mmap st2) < EXEC_MAX_ENTRIES"
    and "tracepoint_sys_exit_openat e2 c2 st2 = Some st3"
    and "lib_maps.others (mmap_key e3 (mc_fd c3)) st3 st4"
    and "map_of (inflight_mmap st4) (mmap_key e3 (mc_fd c3)) \<noteq> None"
    and "exec_env_ok byte3 e3" and "bpf_get_current_pid_tgid e3 = bpf_get_current_pid_tgid e1"
    and "mc_fd c3 = ox_ret c2" and "bpf_ringbuf_reserve e3 0 \<noteq> None"
  shows "\<exists>st5 d. tracepoint_sys_enter_mmap e3 c3 st4 = Some st5 \<and>
    rb_log (dynlib_events st5) = rb_log (dynlib_events st4) @ [d] \<and>
    cstr (dl_filename d) = butlast (snd r) \<and> dl_fd d = ox_ret c2 \<and>
    dl_pid_tgid d = bpf_get_current_pid_tgid e1 \<and>
    map_of (inflight_mmap st5) (mmap_key e3 (mc_fd c3)) = None"
proof -
  have inv: "exec_inv st" by (rule exec_reachable_inv [OF assms(2)])
  have key: "mmap_key e3 (mc_fd c3) = mmap_key e2 (ox_ret c2)"
    using assms(10,17,18) by (simp add: mmap_key_def)
  obtain ov where ov: "map_of (inflight_mmap st3) (mmap_key e3 (mc_fd c3)) = Some ov"
      "cstr (ov_filename ov) = butlast (snd r)"
    using open_watched [OF assms(1) inv assms(3-8,10-13)] unfolding key by blast
  have "exec_inv st1" using exec_prog_ok [OF assms(1) inv, of "ExEnterOpenat c1"] assms(7) by simp
  then have "exec_inv st2" using lib_opens.others_keep [OF assms(8)] by simp
  then have "exec_inv st3" using exec_prog_ok [OF assms(9), of st2 "ExExitOpenat c2"] assms(13) by simp
  with lib_maps.others_lossy [OF assms(14)] assms(15) ov(1)
  have st4: "exec_inv st4" "map_of (inflight_mmap st4) (mmap_key e3 (mc_fd c3)) = Some ov" by auto
  then show ?thesis
    using enter_mmap_spec [OF assms(16) st4(1), of c3] ov(2) assms(17-19)
    by (simp add: dynlib_event_def delete_conv')
qed

theorem libssl_load_reported_witness:
  "\<exists>st1 st3 st5 d. tracepoint_sys_enter_openat demo_lib_env demo_lib_open demo_exec_state = Some st1 \<and>
     tracepoint_sys_exit_openat demo_lib_env demo_lib_exit st1 = Some st3 \<and>
     tracepoint_sys_enter_mmap demo_lib_env demo_lib_mmap st3 = Some st5 \<and>
     last (rb_log (dynlib_events st5)) = d \<and> cstr (dl_filename d) = bytes_of_string ''/lib/libssl.so''"
proof -
  have e: "EXEC_MAX_ENTRIES > 0" by (simp add: EXEC_MAX_ENTRIES_def)
  have st: "ex_inflight_open demo_exec_state = []" by (simp add: demo_exec_state_def)
  obtain st1 st3 ov where s: "tracepoint_sys_enter_openat demo_lib_env demo_lib_open demo_exec_state = Some st1"
    "inflight_mmap st1 = []" "tracepoint_sys_exit_openat demo_lib_env demo_lib_exit st1 = Some st3"
    "map_of (inflight_mmap st3) (mmap_key demo_lib_env 3) = Some ov"
    by (rule demo_lib_opened)
  obtain st5 d where "tracepoint_sys_enter_mmap demo_lib_env demo_lib_mmap st3 = Some st5"
    "rb_log (dynlib_events st5) = rb_log (dynlib_events st3) @ [d]" "cstr (dl_filename d) = bytes_of_string ''/lib/libssl.so''"
    using libssl_load_reported [OF demo_lib_env_ok demo_exec_reachable refl _ _ _ s(1) lib_opens.others_refl
        demo_lib_env_ok _ _ _ s(3) lib_maps.others_refl _ demo_lib_env_ok, of demo_lib_mmap] demo_lib_name e st s
    by auto
  with s show ?thesis by auto
qed

text \<open>
  One load is reported once: after a mapping was reported, mapping the same descriptor again
  in the same thread reports nothing and changes nothing, whatever ran in between that does not
  concern this descriptor.
\<close>

lemma libssl_reported_once:
  assumes "exec_reachable st" and "exec_env_ok byte e1" and "bpf_ringbuf_reserve e1 0 \<noteq> None"
    and "tracepoint_sys_enter_mmap e1 c1 st = Some st1"
    and "lib_maps.others (mmap_key e1 (mc_fd c1)) st1 st2"
    and "exec_env_ok byte2 e2" and "mmap_key e2 (mc_fd c2) = mmap_key e1 (mc_fd c1)"
  shows "tracepoint_sys_enter_mmap e2 c2 st2 = Some st2"
proof -
  have inv: "exec_inv st" by (rule exec_reachable_inv [OF assms(1)])
  have "exec_prog (ExEnterMmap c1) e1 st = Some st1" using assms(4) by simp
  moreover have "touched_key (ExEnterMmap c1) e1 = Some (mmap_key e1 (mc_fd c1))" by simp
  ultimately have "exec_key_done (mmap_key e1 (mc_fd c1)) st st1"
    unfolding exec_key_done_def using assms(2,3)
    by (intro exI [of _ byte] exI [of _ e1] exI [of _ "ExEnterMmap c1"]) simp
  from lib_maps.no_stale_call [OF inv this assms(5)] assms(7) show ?thesis
    by (simp add: tracepoint_sys_enter_mmap_def mmap_key_def Let_def)
qed

lemma libssl_reported_once_example:
  "\<exists>st st1. map_of (inflight_mmap st) (mmap_key demo_lib_env 3) \<noteq> None \<and>
     tracepoint_sys_enter_mmap demo_lib_env demo_lib_mmap st = Some st1 \<and>
     tracepoint_sys_enter_mmap demo_lib_env demo_lib_mmap st1 = Some st1"
proof -
  obtain st ov where st: "map_of (inflight_mmap st) (mmap_key demo_lib_env 3) = Some ov" "exec_reachable st"
    by (rule demo_lib_opened)
  obtain st1 where st1: "tracepoint_sys_enter_mmap demo_lib_env demo_lib_mmap st = Some st1"
    using exec_prog_ok [OF demo_lib_env_ok exec_reachable_inv [OF st(2)], of "ExEnterMmap demo_lib_mmap"] by auto
  have "tracepoint_sys_enter_mmap demo_lib_env demo_lib_mmap st1 = Some st1"
    by (rule libssl_reported_once [OF st(2) demo_lib_env_ok _ st1 lib_maps.others_refl demo_lib_env_ok]) simp_all
  with st st1 show ?thesis by auto
qed

end
