(* ===== verification/Stdio.thy ===== *)
theory Stdio
  imports Bpf_Helpers
begin

text \<open>
  The standard-stream probe, \<^verbatim>\<open>stdio/stdio.bpf.c\<close>: reads of descriptor 0 and writes of
  descriptor 1 whose data looks like a JSON object are copied to userspace.  Every program
  returns 0; \<open>None\<close> is an access outside of a buffer.
\<close>

section \<open>Data\<close>

definition STDIO_MAX_ENTRIES :: nat where "STDIO_MAX_ENTRIES = 10240"
definition STDIO_COMM_LEN :: nat where "STDIO_COMM_LEN = 16"
definition STDIO_MAX_BUF_SIZE :: nat where "STDIO_MAX_BUF_SIZE = 128 * 1024"
definition PEEK_BYTES :: nat where "PEEK_BYTES = 4"

record enter_ctx =
  en_common :: s64
  en_syscall_nr :: s64
  en_fd :: u64
  en_buf :: u64
  en_count :: u64

record stdio_exit_ctx =
  sx_common :: s64
  sx_syscall_nr :: s64
  sx_ret :: s64

record inflight_read =
  ir_buf :: u64
  ir_count :: u64
  ir_fd :: u64

record stdio_event =
  se_timestamp_ns :: u64
  se_pid_tgid :: u64
  se_uid_gid :: u64
  se_req_len :: u64
  se_cgroup_id :: u64
  se_data_len :: u64
  se_fd :: u64
  se_rw :: u8
  se_data :: bytes
  se_comm :: bytes

record stdio_state =
  stdio_inflight :: "(u64, inflight_read) bpf_hash"
  stdio_events :: "stdio_event ringbuf"

type_synonym stdio_env = "(stdio_event, unit) bpf_env"

section \<open>The JSON test\<close>

definition json_blank :: "u8 \<Rightarrow> bool" where
  "json_blank c \<longleftrightarrow> c = 0x20 \<or> c = 0x09 \<or> c = 0x0A \<or> c = 0x0D"

definition mcp_body :: "bytes \<Rightarrow> nat \<Rightarrow> unit \<Rightarrow> (unit, bool) flow option" where
  "mcp_body pre i u =
     do { c \<leftarrow> buf_read pre i;
          Some (if json_blank c then Next u
                else if c = byte_of_char CHR ''{'' then Return True
                else Break u) }"

definition is_mcp_json_str :: "stdio_env \<Rightarrow> u64 \<Rightarrow> u32 \<Rightarrow> bool option" where
  "is_mcp_json_str env buf len =
     (if unat len < PEEK_BYTES then Some False
      else let (rc, pre) = bpf_probe_read env PEEK_BYTES buf in
      if rc \<noteq> 0 then Some False
      else do { r \<leftarrow> c_for PEEK_BYTES (mcp_body pre) ();
                Some (case r of Inl _ \<Rightarrow> False | Inr b \<Rightarrow> b) })"

section \<open>Events\<close>

text \<open>The reserved record is not zeroed: bytes of \<open>data\<close> past the copy stay as they were.\<close>

definition emit_stdio_event ::
  "stdio_env \<Rightarrow> u64 \<Rightarrow> u64 \<Rightarrow> u32 \<Rightarrow> u64 \<Rightarrow> u8 \<Rightarrow> stdio_state \<Rightarrow> stdio_state" where
  "emit_stdio_event env buf req_len data_len fd rw st =
     (case bpf_ringbuf_reserve env 0 of
        None \<Rightarrow> st
      | Some evt \<Rightarrow>
          let rb = ringbuf_reserved (stdio_events st);
              evt = evt\<lparr>se_timestamp_ns := bpf_ktime_get_ns env,
                        se_pid_tgid := bpf_get_current_pid_tgid env,
                        se_uid_gid := bpf_get_current_uid_gid env,
                        se_cgroup_id := bpf_get_current_cgroup_id env,
                        se_req_len := req_len,
                        se_data_len := ucast data_len,
                        se_fd := fd,
                        se_rw := rw,
                        se_comm := bpf_get_current_comm env STDIO_COMM_LEN,
                        se_data := mem_write (se_data evt) (snd (bpf_probe_read env (unat data_len) buf))\<rparr>
          in st\<lparr>stdio_events := bpf_ringbuf_submit evt rb\<rparr>)"

section \<open>The tracepoint programs\<close>

definition clamp_len :: "u32 \<Rightarrow> u32" where
  "clamp_len len = (if STDIO_MAX_BUF_SIZE < unat len then of_nat STDIO_MAX_BUF_SIZE else len)"

definition tracepoint_enter_read :: "stdio_env \<Rightarrow> enter_ctx \<Rightarrow> stdio_state \<Rightarrow> stdio_state option" where
  "tracepoint_enter_read env ctx st =
     (if en_count ctx = 0 then Some st
      else if en_fd ctx \<noteq> 0 then Some st
      else Some (st\<lparr>stdio_inflight := hash_update STDIO_MAX_ENTRIES (bpf_get_current_pid_tgid env)
        \<lparr>ir_buf = en_buf ctx, ir_count = en_count ctx, ir_fd = en_fd ctx\<rparr> (stdio_inflight st)\<rparr>))"

definition stdio_cleanup :: "u64 \<Rightarrow> stdio_state \<Rightarrow> stdio_state" where
  "stdio_cleanup pid_tgid st =
     st\<lparr>stdio_inflight := bpf_map_delete_elem pid_tgid (stdio_inflight st)\<rparr>"

definition tracepoint_exit_read :: "stdio_env \<Rightarrow> stdio_exit_ctx \<Rightarrow> stdio_state \<Rightarrow> stdio_state option" where
  "tracepoint_exit_read env ctx st =
     (let pid_tgid = bpf_get_current_pid_tgid env in
      if sint (sx_ret ctx) < 0 then Some (stdio_cleanup pid_tgid st)
      else let len = ucast (sx_ret ctx) :: u32 in
      if len = 0 then Some (stdio_cleanup pid_tgid st)
      else let len = clamp_len len in
      case bpf_map_lookup_elem (stdio_inflight st) pid_tgid of
        None \<Rightarrow> Some (stdio_cleanup pid_tgid st)
      | Some rd \<Rightarrow> do {
          json \<leftarrow> is_mcp_json_str env (ir_buf rd) len;
          let st = (if json then emit_stdio_event env (ir_buf rd) (ir_count rd) len (ir_fd rd) 4 st
                    else st);
          Some (stdio_cleanup pid_tgid st) })"

definition tracepoint_enter_write :: "stdio_env \<Rightarrow> enter_ctx \<Rightarrow> stdio_state \<Rightarrow> stdio_state option" where
  "tracepoint_enter_write env ctx st =
     (if en_count ctx = 0 then Some st
      else if en_fd ctx \<noteq> 1 then Some st
      else let len = clamp_len (ucast (en_count ctx)) in
      do { json \<leftarrow> is_mcp_json_str env (en_buf ctx) len;
           Some (if json then emit_stdio_event env (en_buf ctx) (en_count ctx) len (en_fd ctx) 2 st
                 else st) })"

datatype stdio_call = EnterRead enter_ctx | ExitRead stdio_exit_ctx | EnterStdWrite enter_ctx

primrec stdio_prog :: "stdio_call \<Rightarrow> stdio_env \<Rightarrow> stdio_state \<Rightarrow> stdio_state option" where
  "stdio_prog (EnterRead c) env = tracepoint_enter_read env c"
| "stdio_prog (ExitRead c) env = tracepoint_exit_read env c"
| "stdio_prog (EnterStdWrite c) env = tracepoint_enter_write env c"

section \<open>What the JSON test decides\<close>

text \<open>The first byte among the first four that is not blank opens an object.\<close>

definition opens_object :: "bytes \<Rightarrow> bool" where
  "opens_object b =
     (case dropWhile json_blank (take PEEK_BYTES b) of [] \<Rightarrow> False | c # _ \<Rightarrow> c = byte_of_char CHR ''{'')"

lemma mcp_loop:
  assumes "length pre = PEEK_BYTES"
  shows "\<exists>r. c_for PEEK_BYTES (mcp_body pre) () = Some r \<and>
    (case r of Inl _ \<Rightarrow> \<not> opens_object pre | Inr b \<Rightarrow> b \<and> opens_object pre)"
  (is "\<exists>r. _ \<and> ?Q r")
proof (rule c_for_rule [where I = "\<lambda>i _. \<forall>j < i. json_blank (pre ! j)"])
  fix j and u :: unit
  assume inv: "\<forall>i < j. json_blank (pre ! i)" and j: "j < PEEK_BYTES"
  have "dropWhile json_blank pre = dropWhile json_blank (drop j pre)"
    using inv j assms by (subst append_take_drop_id [of j pre, symmetric], subst dropWhile_append2)
      (auto simp: in_set_conv_nth simp del: append_take_drop_id)
  also have "drop j pre = pre ! j # drop (Suc j) pre"
    using j assms by (simp add: Cons_nth_drop_Suc)
  finally have dw: "dropWhile json_blank (take PEEK_BYTES pre) =
      dropWhile json_blank (pre ! j # drop (Suc j) pre)"
    using assms by simp
  show "case mcp_body pre j u of None \<Rightarrow> False
    | Some (Next u') \<Rightarrow> \<forall>i < Suc j. json_blank (pre ! i)
    | Some (Break u') \<Rightarrow> ?Q (Inl u') | Some (Return r) \<Rightarrow> ?Q (Inr r)"
    using inv j assms dw by (auto simp: mcp_body_def opens_object_def less_Suc_eq)
next
  fix u :: unit
  assume "\<forall>i < PEEK_BYTES. json_blank (pre ! i)"
  then have "dropWhile json_blank pre = []"
    using assms by (auto simp: dropWhile_eq_Nil_conv in_set_conv_nth)
  then show "?Q (Inl u)" using assms by (simp add: opens_object_def del: dropWhile_eq_Nil_conv)
qed simp

lemma is_mcp_json_str_spec:
  assumes "env_ok byte env"
  shows "is_mcp_json_str env buf len = Some
    (PEEK_BYTES \<le> unat len \<and> fst (bpf_probe_read env PEEK_BYTES buf) = 0 \<and>
     opens_object (snd (bpf_probe_read env PEEK_BYTES buf)))"
proof -
  let ?r = "bpf_probe_read env PEEK_BYTES buf"
  have len: "length (snd ?r) = PEEK_BYTES" if "fst ?r = 0"
    using probe_memory.length_read_done [OF env_okD(2) [OF assms] that] .
  show ?thesis
  proof (cases "fst ?r = 0 \<and> PEEK_BYTES \<le> unat len")
    case True
    then obtain r where "c_for PEEK_BYTES (mcp_body (snd ?r)) () = Some r"
      "case r of Inl _ \<Rightarrow> \<not> opens_object (snd ?r) | Inr b \<Rightarrow> b \<and> opens_object (snd ?r)"
      using mcp_loop [OF len] by blast
    with True show ?thesis
      by (cases r) (auto simp: is_mcp_json_str_def split: prod.splits)
  next
    case False
    then show ?thesis
      by (auto simp: is_mcp_json_str_def split: prod.splits)
  qed
qed

section \<open>Invariant\<close>

text \<open>A reserved record has the size of the structure.\<close>

definition stdio_env_ok :: "(u64 \<Rightarrow> u8) \<Rightarrow> stdio_env \<Rightarrow> bool" where
  "stdio_env_ok byte env \<longleftrightarrow> env_ok byte env \<and>
     (\<forall>n e. bpf_ringbuf_reserve env n = Some e \<longrightarrow> length (se_data e) = STDIO_MAX_BUF_SIZE)"

definition stdio_event_ok :: "stdio_event \<Rightarrow> bool" where
  "stdio_event_ok e \<longleftrightarrow>
     (se_rw e = 4 \<and> se_fd e = 0 \<or> se_rw e = 2 \<and> se_fd e = 1) \<and> se_req_len e \<noteq> 0 \<and>
     PEEK_BYTES \<le> unat (se_data_len e) \<and> unat (se_data_len e) \<le> STDIO_MAX_BUF_SIZE \<and>
     length (se_data e) = STDIO_MAX_BUF_SIZE \<and> length (se_comm e) = STDIO_COMM_LEN"

definition stdio_inv :: "stdio_state \<Rightarrow> bool" where
  "stdio_inv st \<longleftrightarrow> hash_ok STDIO_MAX_ENTRIES (stdio_inflight st) \<and>
     hash.all_entries (\<lambda>_ r. ir_fd r = 0 \<and> ir_count r \<noteq> 0) (stdio_inflight st) \<and>
     rb_pending (stdio_events st) = 0 \<and> (\<forall>e \<in> set (rb_log (stdio_events st)). stdio_event_ok e)"

lemma unat_clamp_len: "unat (clamp_len len) = min (unat len) STDIO_MAX_BUF_SIZE"
  by (simp add: clamp_len_def STDIO_MAX_BUF_SIZE_def min_def)

text \<open>The record that a successful capture appends.\<close>

definition captured :: "stdio_env \<Rightarrow> u64 \<Rightarrow> u64 \<Rightarrow> u32 \<Rightarrow> u64 \<Rightarrow> u8 \<Rightarrow> stdio_event \<Rightarrow> stdio_event" where
  "captured env buf req_len data_len fd rw evt =
     \<lparr>se_timestamp_ns = bpf_ktime_get_ns env, se_pid_tgid = bpf_get_current_pid_tgid env,
      se_uid_gid = bpf_get_current_uid_gid env, se_req_len = req_len,
      se_cgroup_id = bpf_get_current_cgroup_id env, se_data_len = ucast data_len, se_fd = fd, se_rw = rw,
      se_data = mem_write (se_data evt) (snd (bpf_probe_read env (unat data_len) buf)),
      se_comm = bpf_get_current_comm env STDIO_COMM_LEN\<rparr>"

lemma emit_stdio_event_spec:
  "emit_stdio_event env buf req_len data_len fd rw st =
     (case bpf_ringbuf_reserve env 0 of None \<Rightarrow> st
      | Some evt \<Rightarrow> st\<lparr>stdio_events := (stdio_events st)
          \<lparr>rb_log := rb_log (stdio_events st) @ [captured env buf req_len data_len fd rw evt]\<rparr>\<rparr>)"
  by (simp add: emit_stdio_event_def captured_def Let_def split: option.splits)

lemma captured_ok:
  assumes "stdio_env_ok byte env" and "bpf_ringbuf_reserve env 0 = Some evt"
    and "PEEK_BYTES \<le> unat len" and "unat len \<le> STDIO_MAX_BUF_SIZE" and "req_len \<noteq> 0"
    and "rw = 4 \<and> fd = 0 \<or> rw = 2 \<and> fd = 1"
  shows "stdio_event_ok (captured env buf req_len len fd rw evt)"
proof -
  have env: "env_ok byte env" "length (se_data evt) = STDIO_MAX_BUF_SIZE"
    using assms(1,2) by (auto simp: stdio_env_ok_def)
  have "length (snd (bpf_probe_read env (unat len) buf)) \<le> length (se_data evt)"
    using probe_memory.read_size [OF env_okD(2) [OF env(1)], of "unat len" buf] assms(4) env(2) by simp
  moreover have "unat (ucast len :: u64) = unat len"
    by (simp add: unat_ucast_up)
  ultimately show ?thesis
    using assms(3-6) env env_okD(3) [OF env(1)] by (simp add: stdio_event_ok_def captured_def)
qed

lemma stdio_inv_emit:
  assumes "stdio_env_ok byte env" and "stdio_inv st"
    and "PEEK_BYTES \<le> unat len" and "unat len \<le> STDIO_MAX_BUF_SIZE" and "req_len \<noteq> 0"
    and "rw = 4 \<and> fd = 0 \<or> rw = 2 \<and> fd = 1"
  shows "stdio_inv (emit_stdio_event env buf req_len len fd rw st)"
  using assms captured_ok [OF assms(1) _ assms(3-6)]
  by (auto simp: emit_stdio_event_spec stdio_inv_def split: option.splits)

lemma stdio_inv_cleanup: "stdio_inv st \<Longrightarrow> stdio_inv (stdio_cleanup p st)"
  by (simp add: stdio_inv_def stdio_cleanup_def hash_ok_delete
      hash.all_entries_delete [of STDIO_MAX_ENTRIES])

lemma stdio_prog_ok:
  assumes "stdio_env_ok byte env" and "stdio_inv st"
  shows "\<exists>st'. stdio_prog c env st = Some st' \<and> stdio_inv st'"
proof -
  have env: "env_ok byte env" using assms(1) by (simp add: stdio_env_ok_def)
  note json = is_mcp_json_str_spec [OF env]
  have clamp: "unat (clamp_len l) \<le> STDIO_MAX_BUF_SIZE" for l
    by (simp add: unat_clamp_len)
  show ?thesis
  proof (cases c)
    case (EnterRead c)
    with assms(2) show ?thesis
      by (auto simp: tracepoint_enter_read_def stdio_inv_def hash_ok_update
          intro!: hash.all_entries_update)
  next
    case (ExitRead c)
    have "ir_fd r = 0 \<and> ir_count r \<noteq> 0" if "map_of (stdio_inflight st) p = Some r" for p r
      using assms(2) that by (auto simp: stdio_inv_def hash.all_entries_def)
    with ExitRead assms clamp json show ?thesis
      by (auto simp: tracepoint_exit_read_def Let_def split: option.splits
          intro!: stdio_inv_cleanup stdio_inv_emit)
  next
    case (EnterStdWrite c)
    with assms clamp json show ?thesis
      by (auto simp: tracepoint_enter_write_def Let_def intro!: stdio_inv_emit)
  qed
qed

inductive stdio_reachable :: "stdio_state \<Rightarrow> bool" where
  stdio_start: "stdio_reachable \<lparr>stdio_inflight = [], stdio_events = \<lparr>rb_pending = 0, rb_log = []\<rparr>\<rparr>"
| stdio_step: "stdio_reachable st \<Longrightarrow> stdio_env_ok byte env \<Longrightarrow> stdio_prog c env st = Some st' \<Longrightarrow>
    stdio_reachable st'"

lemma stdio_reachable_inv: "stdio_reachable st \<Longrightarrow> stdio_inv st"
proof (induction rule: stdio_reachable.induct)
  case stdio_start
  show ?case by (simp add: stdio_inv_def hash.all_entries_def hash_ok_def)
next
  case (stdio_step st byte env c st')
  with stdio_prog_ok [OF stdio_step.hyps(2) stdio_step.IH, of c] show ?case by auto
qed

section \<open>Reads are paired by thread\<close>

definition stdio_thread_step :: "u64 \<Rightarrow> stdio_state \<Rightarrow> stdio_state \<Rightarrow> bool" where
  "stdio_thread_step p st st' \<longleftrightarrow> (\<exists>byte env c. stdio_env_ok byte env \<and>
     bpf_get_current_pid_tgid env = p \<and> stdio_prog c env st = Some st')"

definition stdio_read_exit :: "u64 \<Rightarrow> stdio_state \<Rightarrow> stdio_state \<Rightarrow> bool" where
  "stdio_read_exit p st st' \<longleftrightarrow> (\<exists>byte env c. stdio_env_ok byte env \<and>
     bpf_get_current_pid_tgid env = p \<and> stdio_prog (ExitRead c) env st = Some st')"

lemma emit_stdio_event_inflight [simp]:
  "stdio_inflight (emit_stdio_event env buf req_len len fd rw st) = stdio_inflight st"
  by (simp add: emit_stdio_event_spec split: option.splits)

lemma stdio_prog_frame:
  assumes "stdio_inv st" and "stdio_prog c env st = Some st'" and "q \<noteq> bpf_get_current_pid_tgid env"
  shows "map_of (stdio_inflight st') q = map_of (stdio_inflight st) q"
  using assms
  by (cases c)
    (auto simp: tracepoint_enter_read_def tracepoint_exit_read_def tracepoint_enter_write_def Let_def
      stdio_cleanup_def stdio_inv_def bind_eq_Some_conv delete_conv' hash.update_frame [of STDIO_MAX_ENTRIES]
      split: if_splits option.splits)

lemma exit_read_clears:
  "tracepoint_exit_read env c st = Some st' \<Longrightarrow>
     map_of (stdio_inflight st') (bpf_get_current_pid_tgid env) = None"
  by (auto simp: tracepoint_exit_read_def Let_def stdio_cleanup_def bind_eq_Some_conv delete_conv'
      split: if_splits option.splits)

interpretation stdio_calls: call_tracker "\<lambda>st. map_of (stdio_inflight st)" stdio_thread_step
  stdio_read_exit stdio_inv
proof unfold_locales
  have frame: "map_of (stdio_inflight s') q = map_of (stdio_inflight s) q"
    if "stdio_inv s" "stdio_thread_step p s s'" "q \<noteq> p" for p s s' q
    using that stdio_prog_frame unfolding stdio_thread_step_def by metis
  show "stdio_inv s'" if "stdio_inv s" "stdio_thread_step p s s'" for p s s'
    using that stdio_prog_ok unfolding stdio_thread_step_def by (metis option.inject)
  show "map_of (stdio_inflight s') q = map_of (stdio_inflight s) q"
    if "stdio_inv s" "stdio_thread_step p s s'" "q \<noteq> p" for p s s' q
    using frame [OF that] .
  show "map_of (stdio_inflight s') q = map_of (stdio_inflight s) q \<or> map_of (stdio_inflight s') q = None"
    if "stdio_inv s" "stdio_thread_step p s s'" "q \<noteq> p" for p s s' q
    using frame [OF that] by simp
  show "stdio_thread_step p s s'" if "stdio_read_exit p s s'" for p s s'
    using that unfolding stdio_read_exit_def stdio_thread_step_def by blast
  show "map_of (stdio_inflight s') p = None" if "stdio_inv s" "stdio_read_exit p s s'" for p s s'
    using that exit_read_clears unfolding stdio_read_exit_def by auto
qed

interpretation stdio_probe: safe_probe "\<lambda>(c, env). stdio_prog c env" "\<lambda>(c, env). \<exists>byte. stdio_env_ok byte env" stdio_inv
  by unfold_locales (auto dest: stdio_prog_ok)

end
