(* ===== verification/Stdio_Properties.thy ===== *)
theory Stdio_Properties
  imports Stdio
begin

text \<open>
  The properties of the stdio probe: memory safety and well-formed events, the exact meaning of
  the JSON test, and what is captured of a read from standard input and of a write to standard
  output.
\<close>

section \<open>A concrete process\<close>

definition demo_stdio_event :: stdio_event where
  "demo_stdio_event = \<lparr>se_timestamp_ns = 1, se_pid_tgid = 2, se_uid_gid = 3, se_req_len = 4, se_cgroup_id = 5,
     se_data_len = 6, se_fd = 7, se_rw = 8, se_data = replicate STDIO_MAX_BUF_SIZE 9, se_comm = []\<rparr>"

definition demo_json :: bytes where
  "demo_json = bytes_of_string '' {[]}''"

definition demo_stdio_env :: stdio_env where
  "demo_stdio_env = memory_env 0x700000007 (memory_at 0x1000 demo_json) (\<lambda>_. Some demo_stdio_event)"

definition demo_stdio_state :: stdio_state where
  "demo_stdio_state = \<lparr>stdio_inflight = [], stdio_events = \<lparr>rb_pending = 0, rb_log = []\<rparr>\<rparr>"

definition demo_stdio_ctx :: "u64 \<Rightarrow> enter_ctx" where
  "demo_stdio_ctx fd = \<lparr>en_common = 0, en_syscall_nr = 0, en_fd = fd, en_buf = 0x1000, en_count = 5\<rparr>"

lemma demo_stdio_env_ok: "stdio_env_ok (memory_at 0x1000 demo_json) demo_stdio_env"
  by (simp add: stdio_env_ok_def demo_stdio_env_def memory_env_ok)
    (simp add: memory_env_def demo_stdio_event_def)

lemma demo_stdio_reachable: "stdio_reachable demo_stdio_state"
  unfolding demo_stdio_state_def by (rule stdio_start)

lemma demo_stdio_read:
  "n \<le> 5 \<Longrightarrow> bpf_probe_read demo_stdio_env n 0x1000 = (0, take n demo_json)"
  by (simp add: demo_stdio_env_def memory_env_def mem_read_def list_ex_iff)
    (auto intro!: nth_equalityI simp: demo_json_def)

lemma demo_json_opens: "opens_object (take 4 demo_json)"
  by (simp add: opens_object_def demo_json_def PEEK_BYTES_def bytes_of_string_def json_blank_def byte_of_char_def)

lemma demo_stdio_fields [simp]:
  "bpf_get_current_pid_tgid demo_stdio_env = 0x700000007" "bpf_ringbuf_reserve demo_stdio_env n = Some demo_stdio_event"
  "en_fd (demo_stdio_ctx fd) = fd" "en_buf (demo_stdio_ctx fd) = 0x1000" "en_count (demo_stdio_ctx fd) = 5"
  "stdio_inflight demo_stdio_state = []" "rb_log (stdio_events demo_stdio_state) = []"
  by (simp_all add: demo_stdio_env_def memory_env_def demo_stdio_ctx_def demo_stdio_state_def)

section \<open>Properties\<close>

text \<open>
  In every reachable state every program of the stdio probe runs without an access outside
  of a buffer, leaves no reservation open and keeps its map within capacity; every event is a
  read from descriptor 0 or a write to descriptor 1 and claims between 4 and 128 KiB of data,
  which the record holds.
\<close>

lemma stdio_safe:
  assumes "stdio_reachable st" and "stdio_env_ok byte env"
  shows "\<exists>st'. stdio_prog c env st = Some st' \<and> stdio_reachable st' \<and> rb_pending (stdio_events st') = 0 \<and>
    length (stdio_inflight st') \<le> STDIO_MAX_ENTRIES \<and>
    (\<forall>e \<in> set (rb_log (stdio_events st')).
       (se_rw e = 4 \<and> se_fd e = 0 \<or> se_rw e = 2 \<and> se_fd e = 1) \<and>
       4 \<le> unat (se_data_len e) \<and> unat (se_data_len e) \<le> length (se_data e))"
proof -
  obtain st' where st': "stdio_prog c env st = Some st'" "stdio_inv st'"
    using stdio_prog_ok [OF assms(2) stdio_reachable_inv [OF assms(1)]] by blast
  with stdio_step [OF assms st'(1)] show ?thesis
    by (auto simp: stdio_inv_def hash_ok_def stdio_event_ok_def PEEK_BYTES_def)
qed

lemma stdio_safe_example:
  "\<exists>st'. stdio_prog (EnterStdWrite (demo_stdio_ctx 1)) demo_stdio_env demo_stdio_state = Some st' \<and> stdio_reachable st'"
  using stdio_safe [OF demo_stdio_reachable demo_stdio_env_ok] by blast

lemma opens_object_four:
  "opens_object [a, b, c, d] \<longleftrightarrow>
     (let brace = byte_of_char CHR ''{'' in
      a = brace \<or> json_blank a \<and> (b = brace \<or> json_blank b \<and> (c = brace \<or> json_blank c \<and> d = brace)))"
proof -
  have "\<not> json_blank (byte_of_char CHR ''{'')" by (simp add: json_blank_def byte_of_char_def)
  then show ?thesis by (auto simp: opens_object_def PEEK_BYTES_def Let_def)
qed

lemma opens_object_index:
  "opens_object (map f [0..<4]) \<longleftrightarrow>
     (\<exists>k < 4. f k = byte_of_char CHR ''{'' \<and> (\<forall>j < k. json_blank (f j)))"
proof -
  have "(\<exists>k < 4. P k) \<longleftrightarrow> P 0 \<or> P 1 \<or> P 2 \<or> P (3 :: nat)" for P
    by (auto simp: eval_nat_numeral less_Suc_eq)
  moreover have "(\<forall>j < 2. P j) \<longleftrightarrow> P 0 \<and> P (1 :: nat)" "(\<forall>j < 3. P j) \<longleftrightarrow> P 0 \<and> P 1 \<and> P (2 :: nat)" for P
    by (auto simp: eval_nat_numeral less_Suc_eq)
  moreover have "[0..<4] = [0, 1, 2, 3 :: nat]" by (simp add: upt_rec)
  ultimately show ?thesis by (simp add: opens_object_four Let_def) blast
qed

text \<open>
  The JSON test is exact: it holds of a readable buffer of at least four bytes whose first
  four bytes are blanks followed by an opening brace.
\<close>

lemma json_test_exact:
  assumes "stdio_env_ok byte env"
  shows "is_mcp_json_str env buf len = Some
    (4 \<le> unat len \<and> fst (bpf_probe_read env 4 buf) = 0 \<and>
     (\<exists>k < 4. byte (buf + of_nat k) = byte_of_char CHR ''{'' \<and> (\<forall>j < k. json_blank (byte (buf + of_nat j)))))"
proof -
  have env: "env_ok byte env" using assms by (simp add: stdio_env_ok_def)
  show ?thesis
  proof (cases "fst (bpf_probe_read env 4 buf) = 0")
    case True
    then have "snd (bpf_probe_read env 4 buf) = map (\<lambda>i. byte (buf + of_nat i)) [0..<4]"
      using probe_memory.read_done [OF env_okD(2) [OF env]] by blast
    with True opens_object_index [of "\<lambda>i. byte (buf + of_nat i)"] show ?thesis
      by (simp add: is_mcp_json_str_spec [OF env] PEEK_BYTES_def)
  qed (simp add: is_mcp_json_str_spec [OF env] PEEK_BYTES_def)
qed

lemma json_test_exact_example: "is_mcp_json_str demo_stdio_env 0x1000 5 = Some True"
proof -
  have "memory_at 0x1000 demo_json (0x1000 + of_nat 1) = byte_of_char CHR ''{''"
    "json_blank (memory_at 0x1000 demo_json 0x1000)"
    by (simp_all add: memory_at_def demo_json_def bytes_of_string_def json_blank_def byte_of_char_def)
  then have ex: "\<exists>k < 4. memory_at 0x1000 demo_json (0x1000 + of_nat k) = byte_of_char CHR ''{'' \<and>
      (\<forall>j < k. json_blank (memory_at 0x1000 demo_json (0x1000 + of_nat j)))"
    by (intro exI [of _ 1]) (simp del: of_nat_1)
  have "fst (bpf_probe_read demo_stdio_env 4 0x1000) = 0" "4 \<le> unat (5 :: u32)"
    using demo_stdio_read [of 4] by simp_all
  with ex show ?thesis unfolding json_test_exact [OF demo_stdio_env_ok] by blast
qed

text \<open>Of the four bytes at an address, the first that is not a blank is an opening brace.\<close>

definition opens_json :: "(u64 \<Rightarrow> u8) \<Rightarrow> u64 \<Rightarrow> bool" where
  "opens_json byte buf \<longleftrightarrow>
     (\<exists>k < 4. byte (buf + of_nat k) = byte_of_char CHR ''{'' \<and> (\<forall>j < k. json_blank (byte (buf + of_nat j))))"

lemma exit_read_spec:
  assumes "stdio_env_ok byte env" and "map_of (stdio_inflight st) (bpf_get_current_pid_tgid env) = Some \<lparr>ir_buf = buf, ir_count = count, ir_fd = fd\<rparr>"
    and "sint (sx_ret ctx) < 2 ^ 32"
  shows "\<exists>len b. tracepoint_exit_read env ctx st = Some (stdio_cleanup (bpf_get_current_pid_tgid env)
      (if b then emit_stdio_event env buf count len fd 4 st else st)) \<and>
    (b \<longleftrightarrow> 4 \<le> sint (sx_ret ctx) \<and> fst (bpf_probe_read env 4 buf) = 0 \<and>
      opens_json byte buf) \<and>
    (b \<longrightarrow> unat len = min (unat (sx_ret ctx)) STDIO_MAX_BUF_SIZE)"
proof (cases "sint (sx_ret ctx) \<le> 0")
  case True
  then have "sint (sx_ret ctx) < 0 \<or> sx_ret ctx = 0" by (metis order_le_less signed_0 signed_word_eqI)
  with True show ?thesis by (intro exI [of _ 0] exI [of _ False]) (auto simp: tracepoint_exit_read_def)
next
  case False
  let ?len = "clamp_len (ucast (sx_ret ctx))"
  have "uint (sx_ret ctx) = take_bit 64 (sint (sx_ret ctx))" by (simp add: uint_sint)
  then have sint: "sint (sx_ret ctx) = int (unat (sx_ret ctx))" using False assms(3) by (simp add: take_bit_int_eq_self)
  then have "unat (sx_ret ctx) < 2 ^ 32" using assms(3) by (metis of_nat_less_iff of_nat_numeral of_nat_power)
  then have ret: "unat (ucast (sx_ret ctx) :: u32) = unat (sx_ret ctx)"
    unfolding unsigned_ucast_eq by (intro take_bit_nat_eq_self) simp
  moreover have "unat (sx_ret ctx) \<noteq> 0" proof
    assume "unat (sx_ret ctx) = 0"
    with sint show False using False by (simp only: of_nat_0)
  qed
  ultimately have nz: "(ucast (sx_ret ctx) :: u32) \<noteq> 0" by auto
  have len: "unat ?len = min (unat (sx_ret ctx)) STDIO_MAX_BUF_SIZE" by (simp add: unat_clamp_len ret)
  have "int 4 \<le> int (unat (sx_ret ctx)) \<longleftrightarrow> 4 \<le> unat (sx_ret ctx)" by (rule of_nat_le_iff)
  then have four: "4 \<le> unat ?len \<longleftrightarrow> 4 \<le> sint (sx_ret ctx)" unfolding sint len by (simp add: STDIO_MAX_BUF_SIZE_def)
  show ?thesis
    using False nz assms(2) json_test_exact [OF assms(1), of buf ?len] len
    unfolding four opens_json_def [symmetric] tracepoint_exit_read_def by (intro exI [of _ ?len]) simp
qed

text \<open>
  C18: a read from standard input is captured.  Between entry and exit only other threads run.  When the
  read returned at least four bytes, the first four can be read again and are blanks followed by an
  opening brace, and the ring has room, one event is added: it carries the requested length, the received
  length cut to 128 KiB, and the bytes of the buffer.  Otherwise nothing is added, as after an error or
  at the end of the input.  In no case does the call stay in flight.  A read returns less than \<open>2 ^ 32\<close>
  bytes, and the map of reads in flight has room at entry.
\<close>

theorem stdin_read_captured:
  assumes "stdio_env_ok byte e1" and "stdio_reachable st" and "en_fd c1 = 0" and "en_count c1 \<noteq> 0"
    and "length (stdio_inflight st) < STDIO_MAX_ENTRIES"
    and "tracepoint_enter_read e1 c1 st = Some st1"
    and "stdio_calls.others (bpf_get_current_pid_tgid e1) st1 st2"
    and "stdio_env_ok byte2 e2" and "bpf_get_current_pid_tgid e2 = bpf_get_current_pid_tgid e1"
    and "sint (sx_ret c2) < 2 ^ 32"
  shows "\<exists>st3. tracepoint_exit_read e2 c2 st2 = Some st3 \<and>
    map_of (stdio_inflight st3) (bpf_get_current_pid_tgid e1) = None \<and>
    (if 4 \<le> sint (sx_ret c2) \<and> fst (bpf_probe_read e2 4 (en_buf c1)) = 0 \<and>
        opens_json byte2 (en_buf c1) \<and> bpf_ringbuf_reserve e2 0 \<noteq> None
     then \<exists>e. rb_log (stdio_events st3) = rb_log (stdio_events st2) @ [e] \<and>
        se_pid_tgid e = bpf_get_current_pid_tgid e1 \<and> se_rw e = 4 \<and> se_req_len e = en_count c1 \<and>
        unat (se_data_len e) = min (unat (sx_ret c2)) STDIO_MAX_BUF_SIZE \<and>
        (fst (bpf_probe_read e2 (unat (se_data_len e)) (en_buf c1)) = 0 \<longrightarrow>
         take (unat (se_data_len e)) (se_data e) =
           map (\<lambda>i. byte2 (en_buf c1 + of_nat i)) [0..<unat (se_data_len e)])
     else rb_log (stdio_events st3) = rb_log (stdio_events st2))"
proof -
  let ?pid = "bpf_get_current_pid_tgid e1"
  let ?rd = "\<lparr>ir_buf = en_buf c1, ir_count = en_count c1, ir_fd = en_fd c1\<rparr>"
  have env2: "env_ok byte2 e2" using assms(8) by (simp add: stdio_env_ok_def)
  have inv: "stdio_inv st" by (rule stdio_reachable_inv [OF assms(2)])
  have "map_of (stdio_inflight st1) ?pid = Some ?rd"
    using assms(3-6) by (auto simp: tracepoint_enter_read_def map_of_hash_update)
  moreover have "stdio_inv st1" using stdio_prog_ok [OF assms(1) inv, of "EnterRead c1"] assms(6) by simp
  ultimately have "map_of (stdio_inflight st2) ?pid = Some ?rd"
    using stdio_calls.others_keep [OF assms(7)] by simp
  then have "\<exists>len b. tracepoint_exit_read e2 c2 st2 = Some (stdio_cleanup ?pid
      (if b then emit_stdio_event e2 (en_buf c1) (en_count c1) len (en_fd c1) 4 st2 else st2)) \<and>
    (b \<longleftrightarrow> 4 \<le> sint (sx_ret c2) \<and> fst (bpf_probe_read e2 4 (en_buf c1)) = 0 \<and> opens_json byte2 (en_buf c1)) \<and>
    (b \<longrightarrow> unat len = min (unat (sx_ret c2)) STDIO_MAX_BUF_SIZE)"
    using exit_read_spec [OF assms(8) _ assms(10), of st2] unfolding assms(9) by blast
  then obtain len b where exit: "tracepoint_exit_read e2 c2 st2 = Some (stdio_cleanup ?pid
      (if b then emit_stdio_event e2 (en_buf c1) (en_count c1) len (en_fd c1) 4 st2 else st2))"
    and b: "b \<longleftrightarrow> 4 \<le> sint (sx_ret c2) \<and> fst (bpf_probe_read e2 4 (en_buf c1)) = 0 \<and> opens_json byte2 (en_buf c1)"
    and min: "b \<longrightarrow> unat len = min (unat (sx_ret c2)) STDIO_MAX_BUF_SIZE"
    by (elim exE conjE) (rule that)
  have data: "take (unat len) (se_data (captured e2 (en_buf c1) (en_count c1) len (en_fd c1) 4 evt)) =
      map (\<lambda>i. byte2 (en_buf c1 + of_nat i)) [0..<unat len]"
    if "fst (bpf_probe_read e2 (unat len) (en_buf c1)) = 0" for evt
    using probe_memory.read_done [OF env_okD(2) [OF env2] that] by (simp add: captured_def mem_write_def)
  have len: "unat (ucast len :: u64) = unat len" by (simp add: unat_ucast_up)
  show ?thesis
  proof (cases b)
    case True
    with b have "4 \<le> sint (sx_ret c2)" "fst (bpf_probe_read e2 4 (en_buf c1)) = 0" "opens_json byte2 (en_buf c1)" by simp_all
    with True show ?thesis
      unfolding exit using data len min assms(3,9)
      by (cases "bpf_ringbuf_reserve e2 0") (auto simp: stdio_cleanup_def delete_conv' emit_stdio_event_spec captured_def)
  next
    case False
    with b show ?thesis unfolding exit by (auto simp: stdio_cleanup_def delete_conv')
  qed
qed

lemma demo_opens_json: "opens_json (memory_at 0x1000 demo_json) 0x1000"
  using json_test_exact_example json_test_exact [OF demo_stdio_env_ok] by (simp add: opens_json_def)

lemma demo_clamp: "clamp_len 5 = 5"
  by (simp add: clamp_len_def STDIO_MAX_BUF_SIZE_def)

lemma demo_json_found: "is_mcp_json_str demo_stdio_env 0x1000 5 = Some True"
proof -
  have env: "env_ok (memory_at 0x1000 demo_json) demo_stdio_env" using demo_stdio_env_ok by (simp add: stdio_env_ok_def)
  show ?thesis using demo_stdio_read [of 4] demo_json_opens
    by (simp add: is_mcp_json_str_spec [OF env] PEEK_BYTES_def)
qed

lemma demo_json_bytes: "map (\<lambda>i. memory_at 0x1000 demo_json (0x1000 + of_nat i)) [0..<5] = demo_json"
  by (auto intro!: nth_equalityI simp: demo_json_def)

theorem stdin_read_captured_witness:
  "\<exists>st1 st3 e. tracepoint_enter_read demo_stdio_env (demo_stdio_ctx 0) demo_stdio_state = Some st1 \<and>
     tracepoint_exit_read demo_stdio_env \<lparr>sx_common = 0, sx_syscall_nr = 0, sx_ret = 5\<rparr> st1 = Some st3 \<and>
     last (rb_log (stdio_events st3)) = e \<and> take 5 (se_data e) = demo_json"
proof -
  let ?x = "\<lparr>sx_common = 0, sx_syscall_nr = 0, sx_ret = 5\<rparr>"
  have e: "0 < STDIO_MAX_ENTRIES" by (simp add: STDIO_MAX_ENTRIES_def)
  have min: "min 5 STDIO_MAX_BUF_SIZE = 5" by (simp add: STDIO_MAX_BUF_SIZE_def)
  obtain st1 where st1: "tracepoint_enter_read demo_stdio_env (demo_stdio_ctx 0) demo_stdio_state = Some st1"
    by (simp add: tracepoint_enter_read_def)
  obtain st3 ev where x: "tracepoint_exit_read demo_stdio_env ?x st1 = Some st3"
    "rb_log (stdio_events st3) = rb_log (stdio_events st1) @ [ev]" "unat (se_data_len ev) = 5"
    "fst (bpf_probe_read demo_stdio_env (unat (se_data_len ev)) 0x1000) = 0 \<longrightarrow>
       take (unat (se_data_len ev)) (se_data ev) =
         map (\<lambda>i. memory_at 0x1000 demo_json (0x1000 + of_nat i)) [0..<unat (se_data_len ev)]"
    using stdin_read_captured [OF demo_stdio_env_ok demo_stdio_reachable _ _ _ st1 stdio_calls.others_refl
        demo_stdio_env_ok refl, of ?x] e
      demo_stdio_read [of 4] demo_opens_json by (auto simp: min)
  have "take 5 (se_data ev) = demo_json"
    using x(4) demo_stdio_read [of 5] unfolding x(3) demo_json_bytes by simp
  with st1 x show ?thesis by auto
qed

text \<open>
  A write to standard output is captured when it opens a JSON object: one event with the
  written bytes, cut to 128 KiB.  Writes to any other descriptor, empty writes and writes that
  are not JSON add nothing; calls in flight are never touched.
\<close>

lemma stdout_write_captured:
  assumes "stdio_env_ok byte env" and "unat (en_count c) < 2 ^ 32"
  shows "\<exists>st'. tracepoint_enter_write env c st = Some st' \<and> stdio_inflight st' = stdio_inflight st \<and>
    (if en_fd c = 1 \<and> is_mcp_json_str env (en_buf c) (clamp_len (ucast (en_count c))) = Some True \<and>
        bpf_ringbuf_reserve env 0 \<noteq> None
     then \<exists>e. rb_log (stdio_events st') = rb_log (stdio_events st) @ [e] \<and>
        se_pid_tgid e = bpf_get_current_pid_tgid env \<and> se_rw e = 2 \<and> se_req_len e = en_count c \<and>
        unat (se_data_len e) = min (unat (en_count c)) STDIO_MAX_BUF_SIZE \<and>
        (fst (bpf_probe_read env (unat (se_data_len e)) (en_buf c)) = 0 \<longrightarrow>
         take (unat (se_data_len e)) (se_data e) =
           map (\<lambda>i. byte (en_buf c + of_nat i)) [0..<unat (se_data_len e)])
     else rb_log (stdio_events st') = rb_log (stdio_events st))"
proof -
  let ?len = "clamp_len (ucast (en_count c))"
  have env: "env_ok byte env" using assms(1) by (simp add: stdio_env_ok_def)
  have "unat (ucast (en_count c) :: u32) = unat (en_count c)"
    using assms(2) unfolding unsigned_ucast_eq by (intro take_bit_nat_eq_self) simp
  then have min: "unat ?len = min (unat (en_count c)) STDIO_MAX_BUF_SIZE"
    by (simp add: unat_clamp_len)
  have len: "unat (ucast ?len :: u64) = unat ?len" by (simp add: unat_ucast_up)
  obtain b where b: "is_mcp_json_str env (en_buf c) ?len = Some b"
    using is_mcp_json_str_spec [OF env] by blast
  have zero: "\<not> b" if "en_count c = 0"
    using b that by (auto simp: is_mcp_json_str_spec [OF env] PEEK_BYTES_def unat_clamp_len)
  have data: "take (unat ?len) (se_data (captured env (en_buf c) (en_count c) ?len fd 2 evt)) =
      map (\<lambda>i. byte (en_buf c + of_nat i)) [0..<unat ?len]"
    if "fst (bpf_probe_read env (unat ?len) (en_buf c)) = 0" for fd evt
    using probe_memory.read_done [OF env_okD(2) [OF env] that] by (simp add: captured_def mem_write_def)
  show ?thesis
    using b zero data len min
    by (cases "bpf_ringbuf_reserve env 0")
      (auto simp: tracepoint_enter_write_def emit_stdio_event_spec captured_def)
qed

lemma stdout_write_captured_example:
  "\<exists>st' e. tracepoint_enter_write demo_stdio_env (demo_stdio_ctx 1) demo_stdio_state = Some st' \<and>
     rb_log (stdio_events st') = [e] \<and> take 5 (se_data e) = demo_json"
proof -
  have min: "min 5 STDIO_MAX_BUF_SIZE = 5" by (simp add: STDIO_MAX_BUF_SIZE_def)
  obtain st' ev where x: "tracepoint_enter_write demo_stdio_env (demo_stdio_ctx 1) demo_stdio_state = Some st'"
    "rb_log (stdio_events st') = [ev]" "unat (se_data_len ev) = 5"
    "fst (bpf_probe_read demo_stdio_env (unat (se_data_len ev)) 0x1000) = 0 \<longrightarrow>
       take (unat (se_data_len ev)) (se_data ev) =
         map (\<lambda>i. memory_at 0x1000 demo_json (0x1000 + of_nat i)) [0..<unat (se_data_len ev)]"
    using stdout_write_captured [OF demo_stdio_env_ok, of "demo_stdio_ctx 1" demo_stdio_state]
    by (auto simp: demo_clamp demo_json_found min)
  have "take 5 (se_data ev) = demo_json"
    using x(4) demo_stdio_read [of 5] unfolding x(3) demo_json_bytes by simp
  with x show ?thesis by auto
qed

end
