(* ===== verification/Tcpconn.thy ===== *)
theory Tcpconn
  imports Bpf_Helpers
begin

text \<open>
  The TCP probe, \<^verbatim>\<open>tcpconn/tcpconn.bpf.c\<close>: a connect call remembers its caller under the
  socket, and the transition of that socket from SYN-SENT to ESTABLISHED reports the
  connection in the caller's name.  The \<^verbatim>\<open>BPF_PROG\<close> wrappers only unpack arguments.  Every
  program returns 0.
\<close>

section \<open>Data\<close>

definition AF_INET :: u16 where "AF_INET = 2"
definition AF_INET6 :: u16 where "AF_INET6 = 10"
definition TCP_COMM_LEN :: nat where "TCP_COMM_LEN = 16"
definition TCP_MAX_ENTRIES :: nat where "TCP_MAX_ENTRIES = 16384"
definition BPF_TCP_ESTABLISHED :: s32 where "BPF_TCP_ESTABLISHED = 1"
definition BPF_TCP_SYN_SENT :: u8 where "BPF_TCP_SYN_SENT = 2"

record in6_addr =
  u6_addr8 :: bytes

record sock_common =
  skc_daddr :: u32
  skc_rcv_saddr :: u32
  skc_v6_daddr :: in6_addr
  skc_v6_rcv_saddr :: in6_addr
  skc_dport :: u16
  skc_num :: u16
  skc_family :: u16
  skc_state :: u8

record tcp_event =
  te_timestamp_ns :: u64
  te_pid_tgid :: u64
  te_uid_gid :: u64
  te_cgroup_id :: u64
  te_family :: u16
  te_dport :: u16
  te_comm :: bytes
  te_daddr :: bytes

record connect_meta =
  cm_pid_tgid :: u64
  cm_uid_gid :: u64
  cm_cgroup_id :: u64
  cm_comm :: bytes

record tcp_state =
  inflight_connect :: "(u64, connect_meta) bpf_hash"
  tcp_events :: "tcp_event ringbuf"

text \<open>\<open>sk_common\<close> is what \<^verbatim>\<open>BPF_CORE_READ\<close> finds in the kernel's socket at an address.\<close>

record tcp_env = "(tcp_event, u64) bpf_env" +
  sk_common :: "u64 \<Rightarrow> sock_common"

section \<open>The programs\<close>

definition remember_connect :: "tcp_env \<Rightarrow> u64 \<Rightarrow> tcp_state \<Rightarrow> tcp_state" where
  "remember_connect env sk st =
     (if sk = 0 then st
      else let value = \<lparr>cm_pid_tgid = bpf_get_current_pid_tgid env,
                        cm_uid_gid = bpf_get_current_uid_gid env,
                        cm_cgroup_id = bpf_get_current_cgroup_id env,
                        cm_comm = bpf_get_current_comm env TCP_COMM_LEN\<rparr>
           in st\<lparr>inflight_connect := lru_update TCP_MAX_ENTRIES (lru_evict env) sk value (inflight_connect st)\<rparr>)"

definition trace_tcp_v4_connect :: "tcp_env \<Rightarrow> u64 \<Rightarrow> tcp_state \<Rightarrow> tcp_state" where
  "trace_tcp_v4_connect env sk st = remember_connect env sk st"

definition trace_tcp_v6_connect :: "tcp_env \<Rightarrow> u64 \<Rightarrow> tcp_state \<Rightarrow> tcp_state" where
  "trace_tcp_v6_connect env sk st = remember_connect env sk st"

definition forget_connect :: "u64 \<Rightarrow> tcp_state \<Rightarrow> tcp_state" where
  "forget_connect sk st = st\<lparr>inflight_connect := bpf_map_delete_elem sk (inflight_connect st)\<rparr>"

definition trace_tcp_close :: "tcp_env \<Rightarrow> u64 \<Rightarrow> tcp_state \<Rightarrow> tcp_state" where
  "trace_tcp_close env sk st = (if sk = 0 then st else forget_connect sk st)"

definition tcp_event_memset0 :: "tcp_event \<Rightarrow> tcp_event" where
  "tcp_event_memset0 evt =
     \<lparr>te_timestamp_ns = 0, te_pid_tgid = 0, te_uid_gid = 0, te_cgroup_id = 0, te_family = 0,
      te_dport = 0, te_comm = replicate TCP_COMM_LEN 0, te_daddr = replicate 16 0\<rparr>"

definition trace_tcp_set_state :: "tcp_env \<Rightarrow> u64 \<Rightarrow> s32 \<Rightarrow> tcp_state \<Rightarrow> tcp_state" where
  "trace_tcp_set_state env sk state st =
     (if sk = 0 then st
      else case bpf_map_lookup_elem (inflight_connect st) sk of
        None \<Rightarrow> st
      | Some meta \<Rightarrow>
          if state \<noteq> BPF_TCP_ESTABLISHED
          then (if skc_state (sk_common env sk) = BPF_TCP_SYN_SENT then forget_connect sk st else st)
          else if skc_state (sk_common env sk) \<noteq> BPF_TCP_SYN_SENT then st
          else let family = skc_family (sk_common env sk) in
          if family \<noteq> AF_INET \<and> family \<noteq> AF_INET6 then st
          else case bpf_ringbuf_reserve env 0 of
            None \<Rightarrow> forget_connect sk st
          | Some evt \<Rightarrow>
              let st = st\<lparr>tcp_events := ringbuf_reserved (tcp_events st)\<rparr>;
                  evt = (tcp_event_memset0 evt)
                    \<lparr>te_timestamp_ns := bpf_ktime_get_ns env,
                     te_pid_tgid := cm_pid_tgid meta,
                     te_uid_gid := cm_uid_gid meta,
                     te_cgroup_id := cm_cgroup_id meta,
                     te_family := family,
                     te_dport := skc_dport (sk_common env sk),
                     te_comm := cm_comm meta\<rparr>;
                  evt = (if family = AF_INET
                    then evt\<lparr>te_daddr := mem_write (te_daddr evt) (to_le 4 (skc_daddr (sk_common env sk)))\<rparr>
                    else evt\<lparr>te_daddr := u6_addr8 (skc_v6_daddr (sk_common env sk))\<rparr>)
              in forget_connect sk (st\<lparr>tcp_events := bpf_ringbuf_submit evt (tcp_events st)\<rparr>))"

datatype tcp_call = TcpV4Connect | TcpV6Connect | TcpClose | TcpSetState s32

primrec tcp_prog :: "tcp_call \<Rightarrow> tcp_env \<Rightarrow> u64 \<Rightarrow> tcp_state \<Rightarrow> tcp_state" where
  "tcp_prog TcpV4Connect env sk = trace_tcp_v4_connect env sk"
| "tcp_prog TcpV6Connect env sk = trace_tcp_v6_connect env sk"
| "tcp_prog TcpClose env sk = trace_tcp_close env sk"
| "tcp_prog (TcpSetState s) env sk = trace_tcp_set_state env sk s"

section \<open>Invariant\<close>

definition tcp_env_ok :: "(u64 \<Rightarrow> u8) \<Rightarrow> tcp_env \<Rightarrow> bool" where
  "tcp_env_ok byte env \<longleftrightarrow> env_ok byte env \<and>
     (\<forall>sk. length (u6_addr8 (skc_v6_daddr (sk_common env sk))) = 16)"

definition tcp_event_ok :: "tcp_event \<Rightarrow> bool" where
  "tcp_event_ok e \<longleftrightarrow> length (te_comm e) = TCP_COMM_LEN \<and> length (te_daddr e) = 16 \<and>
     (te_family e = AF_INET \<and> drop 4 (te_daddr e) = replicate 12 0 \<or> te_family e = AF_INET6)"

definition tcp_inv :: "tcp_state \<Rightarrow> bool" where
  "tcp_inv st \<longleftrightarrow> hash_ok TCP_MAX_ENTRIES (inflight_connect st) \<and>
     hash.all_entries (\<lambda>sk m. sk \<noteq> 0 \<and> length (cm_comm m) = TCP_COMM_LEN) (inflight_connect st) \<and>
     rb_pending (tcp_events st) = 0 \<and> (\<forall>e \<in> set (rb_log (tcp_events st)). tcp_event_ok e)"

text \<open>The event of an established connection.\<close>

definition connect_event :: "tcp_env \<Rightarrow> u64 \<Rightarrow> connect_meta \<Rightarrow> tcp_event" where
  "connect_event env sk meta =
     (let c = sk_common env sk in
      \<lparr>te_timestamp_ns = bpf_ktime_get_ns env, te_pid_tgid = cm_pid_tgid meta,
       te_uid_gid = cm_uid_gid meta, te_cgroup_id = cm_cgroup_id meta, te_family = skc_family c,
       te_dport = skc_dport c, te_comm = cm_comm meta,
       te_daddr = (if skc_family c = AF_INET then to_le 4 (skc_daddr c) @ replicate 12 0
                   else u6_addr8 (skc_v6_daddr c))\<rparr>)"

definition establishes :: "tcp_env \<Rightarrow> u64 \<Rightarrow> bool" where
  "establishes env sk \<longleftrightarrow> skc_state (sk_common env sk) = BPF_TCP_SYN_SENT \<and>
     (skc_family (sk_common env sk) = AF_INET \<or> skc_family (sk_common env sk) = AF_INET6)"

lemma set_state_established:
  assumes "sk \<noteq> 0" and "map_of (inflight_connect st) sk = Some meta" and "establishes env sk"
  shows "trace_tcp_set_state env sk BPF_TCP_ESTABLISHED st = forget_connect sk
    (if bpf_ringbuf_reserve env 0 = None then st
     else st\<lparr>tcp_events := (tcp_events st)
            \<lparr>rb_log := rb_log (tcp_events st) @ [connect_event env sk meta]\<rparr>\<rparr>)"
  using assms
  by (auto simp: trace_tcp_set_state_def establishes_def Let_def connect_event_def tcp_event_memset0_def
      mem_write_def AF_INET_def AF_INET6_def split: option.splits)

lemma set_state_quiet:
  assumes "\<not> (state = BPF_TCP_ESTABLISHED \<and> establishes env sk)"
  shows "trace_tcp_set_state env sk state st \<in> {st, forget_connect sk st}"
  using assms
  by (auto simp: trace_tcp_set_state_def establishes_def Let_def split: option.splits)

lemma tcp_inv_forget: "tcp_inv st \<Longrightarrow> tcp_inv (forget_connect sk st)"
  by (simp add: tcp_inv_def forget_connect_def hash_ok_delete hash.all_entries_delete [of TCP_MAX_ENTRIES])

lemma connect_event_ok:
  assumes "tcp_env_ok byte env" and "establishes env sk" and "length (cm_comm meta) = TCP_COMM_LEN"
  shows "tcp_event_ok (connect_event env sk meta)"
  using assms by (auto simp: tcp_env_ok_def establishes_def tcp_event_ok_def connect_event_def Let_def)

lemma tcp_inv_set_state:
  assumes "tcp_env_ok byte env" and "tcp_inv st"
  shows "tcp_inv (trace_tcp_set_state env sk state st)"
proof (cases "state = BPF_TCP_ESTABLISHED \<and> establishes env sk \<and> sk \<noteq> 0 \<and>
    map_of (inflight_connect st) sk \<noteq> None")
  case True
  then obtain meta where m: "map_of (inflight_connect st) sk = Some meta" by auto
  then have "length (cm_comm meta) = TCP_COMM_LEN"
    using assms(2) by (auto simp: tcp_inv_def hash.all_entries_def)
  with connect_event_ok [OF assms(1)] True assms(2) m
  have "tcp_inv (st\<lparr>tcp_events := (tcp_events st)
      \<lparr>rb_log := rb_log (tcp_events st) @ [connect_event env sk meta]\<rparr>\<rparr>)"
    by (auto simp: tcp_inv_def)
  with True assms(2) m show ?thesis
    by (auto simp: set_state_established intro!: tcp_inv_forget)
next
  case False
  then consider "\<not> (state = BPF_TCP_ESTABLISHED \<and> establishes env sk)"
    | "sk = 0 \<or> map_of (inflight_connect st) sk = None"
    by blast
  then have "trace_tcp_set_state env sk state st \<in> {st, forget_connect sk st}"
    by cases (rule set_state_quiet, assumption, auto simp: trace_tcp_set_state_def)
  with assms(2) show ?thesis by (auto intro: tcp_inv_forget)
qed

lemma tcp_inv_remember:
  assumes "tcp_env_ok byte env" and "tcp_inv st"
  shows "tcp_inv (remember_connect env sk st)"
  using assms
  by (auto simp: tcp_inv_def remember_connect_def Let_def hash_ok_lru tcp_env_ok_def env_ok_def
      intro!: lru.all_entries_update)

lemma tcp_prog_inv:
  assumes "tcp_env_ok byte env" and "tcp_inv st"
  shows "tcp_inv (tcp_prog c env sk st)"
  using assms tcp_inv_set_state [OF assms] tcp_inv_remember [OF assms] tcp_inv_forget [OF assms(2)]
  by (cases c) (simp_all add: trace_tcp_v4_connect_def trace_tcp_v6_connect_def trace_tcp_close_def)

inductive tcp_reachable :: "tcp_state \<Rightarrow> bool" where
  tcp_start: "tcp_reachable \<lparr>inflight_connect = [], tcp_events = \<lparr>rb_pending = 0, rb_log = []\<rparr>\<rparr>"
| tcp_step: "tcp_reachable st \<Longrightarrow> tcp_env_ok byte env \<Longrightarrow> tcp_reachable (tcp_prog c env sk st)"

lemma tcp_reachable_inv: "tcp_reachable st \<Longrightarrow> tcp_inv st"
proof (induction rule: tcp_reachable.induct)
  case tcp_start
  show ?case by (simp add: tcp_inv_def hash.all_entries_def hash_ok_def)
qed (rule tcp_prog_inv)

section \<open>Connections are attributed per socket\<close>

definition tcp_socket_step :: "u64 \<Rightarrow> tcp_state \<Rightarrow> tcp_state \<Rightarrow> bool" where
  "tcp_socket_step sk st st' \<longleftrightarrow> (\<exists>byte env c. tcp_env_ok byte env \<and> st' = tcp_prog c env sk st)"

text \<open>The steps that end the life of a remembered connect.\<close>

definition tcp_socket_done :: "u64 \<Rightarrow> tcp_state \<Rightarrow> tcp_state \<Rightarrow> bool" where
  "tcp_socket_done sk st st' \<longleftrightarrow> (\<exists>byte env. tcp_env_ok byte env \<and> sk \<noteq> 0 \<and>
     (st' = tcp_prog TcpClose env sk st \<or>
      st' = tcp_prog (TcpSetState BPF_TCP_ESTABLISHED) env sk st \<and> establishes env sk))"

lemma tcp_prog_lossy:
  assumes "tcp_inv st" and "q \<noteq> sk"
  shows "map_of (inflight_connect (tcp_prog c env sk st)) q = map_of (inflight_connect st) q \<or>
    map_of (inflight_connect (tcp_prog c env sk st)) q = None"
proof -
  have ok: "hash_ok TCP_MAX_ENTRIES (inflight_connect st)"
    using assms(1) by (simp add: tcp_inv_def)
  have forget: "map_of (inflight_connect (forget_connect sk s)) q = map_of (inflight_connect s) q" for s
    using assms(2) by (simp add: forget_connect_def delete_conv')
  show ?thesis
    using assms(2) lru.update_other [OF ok assms(2)] set_state_quiet [of _ env sk st] forget
      set_state_established [of sk st _ env]
    by (cases c) (auto simp: trace_tcp_v4_connect_def trace_tcp_v6_connect_def trace_tcp_close_def
        remember_connect_def trace_tcp_set_state_def Let_def split: option.splits)
qed

interpretation tcp_socks: lossy_tracker "\<lambda>st. map_of (inflight_connect st)" tcp_socket_step
  tcp_socket_done tcp_inv
proof unfold_locales
  show "tcp_inv s'" if "tcp_inv s" "tcp_socket_step p s s'" for p s s'
    using that tcp_prog_inv unfolding tcp_socket_step_def by blast
  show "map_of (inflight_connect s') q = map_of (inflight_connect s) q \<or>
      map_of (inflight_connect s') q = None"
    if "tcp_inv s" "tcp_socket_step p s s'" "q \<noteq> p" for p s s' q
    using that(2) tcp_prog_lossy [OF that(1,3)] unfolding tcp_socket_step_def by metis
  show "tcp_socket_step p s s'" if "tcp_socket_done p s s'" for p s s'
    using that unfolding tcp_socket_done_def tcp_socket_step_def by blast
  show "map_of (inflight_connect s') p = None" if "tcp_inv s" "tcp_socket_done p s s'" for p s s'
  proof -
    have forget: "map_of (inflight_connect (forget_connect p t)) p = None" for t
      by (simp add: forget_connect_def delete_conv')
    show ?thesis
    proof (cases "map_of (inflight_connect s) p")
      case None
      with that forget show ?thesis
        by (auto simp: tcp_socket_done_def trace_tcp_close_def trace_tcp_set_state_def)
    next
      case (Some m)
      with that forget show ?thesis
        by (auto simp: tcp_socket_done_def trace_tcp_close_def set_state_established)
    qed
  qed
qed

interpretation tcp_probe: safe_probe "\<lambda>(c, env, sk) st. Some (tcp_prog c env sk st)" "\<lambda>(c, env, sk). \<exists>byte. tcp_env_ok byte env" tcp_inv
  by unfold_locales (auto dest: tcp_prog_inv)

end
