(* ===== verification/Tcpconn_Properties.thy ===== *)
theory Tcpconn_Properties
  imports Tcpconn
begin

text \<open>
  The properties of the TCP probe: well-formed events, the attribution of an established
  connection to the process that called connect, and the silence about connections that fail or
  were not opened by a remembered call.
\<close>

section \<open>A concrete connection\<close>

definition demo_sock :: sock_common where
  "demo_sock = \<lparr>skc_daddr = 0x0100007F, skc_rcv_saddr = 0, skc_v6_daddr = \<lparr>u6_addr8 = replicate 16 0\<rparr>,
     skc_v6_rcv_saddr = \<lparr>u6_addr8 = replicate 16 0\<rparr>, skc_dport = 0x5000, skc_num = 1, skc_family = AF_INET,
     skc_state = BPF_TCP_SYN_SENT\<rparr>"

definition demo_tcp_env :: "u64 \<Rightarrow> tcp_env" where
  "demo_tcp_env pid = bpf_env.extend (memory_env pid (\<lambda>_. 0)
       (\<lambda>_. Some \<lparr>te_timestamp_ns = 1, te_pid_tgid = 2, te_uid_gid = 3, te_cgroup_id = 4, te_family = 5,
          te_dport = 6, te_comm = [], te_daddr = []\<rparr>)) \<lparr>sk_common = (\<lambda>_. demo_sock)\<rparr>"

definition demo_tcp_state :: tcp_state where
  "demo_tcp_state = \<lparr>inflight_connect = [], tcp_events = \<lparr>rb_pending = 0, rb_log = []\<rparr>\<rparr>"

lemma demo_tcp_env_ok: "tcp_env_ok (\<lambda>_. 0) (demo_tcp_env pid)"
  using memory_env_ok [of "\<lambda>_. 0"]
  by (simp add: tcp_env_ok_def env_ok_def demo_tcp_env_def bpf_env.extend_def demo_sock_def memory_env_def)

lemma demo_tcp_reachable: "tcp_reachable demo_tcp_state"
  unfolding demo_tcp_state_def by (rule tcp_start)

lemma demo_establishes: "establishes (demo_tcp_env pid) sk"
  by (simp add: establishes_def demo_tcp_env_def bpf_env.extend_def demo_sock_def)

lemma demo_tcp_fields [simp]:
  "bpf_get_current_pid_tgid (demo_tcp_env pid) = pid" "bpf_ringbuf_reserve (demo_tcp_env pid) n \<noteq> None"
  "inflight_connect demo_tcp_state = []" "rb_log (tcp_events demo_tcp_state) = []"
  by (simp_all add: demo_tcp_env_def bpf_env.extend_def memory_env_def demo_tcp_state_def)

section \<open>Properties\<close>

text \<open>
  In every reachable state no reservation is open, the map is within its capacity, and every
  event is an IPv4 or IPv6 connection with a full address, an IPv4 address being followed by
  twelve zero bytes.
\<close>

lemma tcp_safe:
  assumes "tcp_reachable st" and "tcp_env_ok byte env"
  shows "tcp_reachable (tcp_prog c env sk st) \<and> rb_pending (tcp_events (tcp_prog c env sk st)) = 0 \<and>
    length (inflight_connect (tcp_prog c env sk st)) \<le> TCP_MAX_ENTRIES \<and>
    (\<forall>e \<in> set (rb_log (tcp_events (tcp_prog c env sk st))). tcp_event_ok e)"
  using tcp_prog_inv [OF assms(2) tcp_reachable_inv [OF assms(1)]] tcp_step [OF assms]
  by (auto simp: tcp_inv_def hash_ok_def)

lemma tcp_safe_example:
  "tcp_reachable (tcp_prog TcpV4Connect (demo_tcp_env 7) 0x9000 demo_tcp_state)"
  using tcp_safe [OF demo_tcp_reachable demo_tcp_env_ok] by blast

definition caller_meta :: "tcp_env \<Rightarrow> connect_meta" where
  "caller_meta env = \<lparr>cm_pid_tgid = bpf_get_current_pid_tgid env, cm_uid_gid = bpf_get_current_uid_gid env,
     cm_cgroup_id = bpf_get_current_cgroup_id env, cm_comm = bpf_get_current_comm env TCP_COMM_LEN\<rparr>"

lemma remember_stores:
  assumes "tcp_inv st" and "sk \<noteq> 0" and "length (inflight_connect st) < TCP_MAX_ENTRIES"
    and "c = TcpV4Connect \<or> c = TcpV6Connect"
  shows "map_of (inflight_connect (tcp_prog c env sk st)) sk = Some (caller_meta env)"
  using assms lru_room [of TCP_MAX_ENTRIES "inflight_connect st"]
  by (auto simp: tcp_inv_def trace_tcp_v4_connect_def trace_tcp_v6_connect_def remember_connect_def
      caller_meta_def Let_def)

text \<open>
  C17: an established connection is attributed to the process that opened it.  A process calls
  connect on a socket; anything that concerns other sockets runs; the socket goes from SYN-SENT
  to ESTABLISHED, in whatever context the kernel processes the answer.  Unless the LRU map
  evicted the entry meanwhile, one event is reported, with the thread, user, cgroup and command
  of the connecting process and the peer's address and port; the entry is removed.
\<close>

theorem connection_attributed:
  assumes "tcp_reachable st" and "tcp_env_ok byte e1" and "sk \<noteq> 0"
    and "c = TcpV4Connect \<or> c = TcpV6Connect" and "length (inflight_connect st) < TCP_MAX_ENTRIES"
    and "tcp_socks.others sk (tcp_prog c e1 sk st) st2"
    and "map_of (inflight_connect st2) sk \<noteq> None"
    and "establishes e2 sk" and "bpf_ringbuf_reserve e2 0 \<noteq> None"
  shows "let st3 = tcp_prog (TcpSetState BPF_TCP_ESTABLISHED) e2 sk st2 in
    rb_log (tcp_events st3) = rb_log (tcp_events st2) @ [connect_event e2 sk (caller_meta e1)] \<and>
    map_of (inflight_connect st3) sk = None"
proof -
  have inv: "tcp_inv st" by (rule tcp_reachable_inv [OF assms(1)])
  have "map_of (inflight_connect (tcp_prog c e1 sk st)) sk = Some (caller_meta e1)"
    by (rule remember_stores [OF inv assms(3,5,4)])
  then have "map_of (inflight_connect st2) sk = Some (caller_meta e1)"
    using tcp_socks.others_lossy [OF assms(6) tcp_prog_inv [OF assms(2) inv]] assms(7) by auto
  then show ?thesis
    using set_state_established [OF assms(3) _ assms(8)] assms(9)
    by (simp add: forget_connect_def delete_conv')
qed

theorem connection_attributed_witness:
  "te_pid_tgid (last (rb_log (tcp_events (tcp_prog (TcpSetState BPF_TCP_ESTABLISHED) (demo_tcp_env 0) 0x9000
     (tcp_prog TcpV4Connect (demo_tcp_env 7) 0x9000 demo_tcp_state))))) = 7"
proof -
  have "map_of (inflight_connect (tcp_prog TcpV4Connect (demo_tcp_env 7) 0x9000 demo_tcp_state)) 0x9000 \<noteq> None"
    by (simp add: trace_tcp_v4_connect_def remember_connect_def lru_update_def hash_update_def TCP_MAX_ENTRIES_def)
  then show ?thesis
    using connection_attributed [OF demo_tcp_reachable demo_tcp_env_ok [of 7] _ _ _ tcp_socks.others_refl,
        of "0x9000" TcpV4Connect "demo_tcp_env 0"] demo_establishes
    by (simp add: Let_def connect_event_def caller_meta_def TCP_MAX_ENTRIES_def)
qed

text \<open>
  Nothing is reported for any other transition: a state change that is not from SYN-SENT to
  ESTABLISHED on an IPv4 or IPv6 socket, or that concerns a socket without a remembered connect,
  leaves the ring as it is; so do connect and close themselves.
\<close>

lemma other_transitions_silent:
  assumes "\<not> (\<exists>s. c = TcpSetState s \<and> s = BPF_TCP_ESTABLISHED \<and> establishes env sk \<and>
    map_of (inflight_connect st) sk \<noteq> None)"
  shows "tcp_events (tcp_prog c env sk st) = tcp_events st"
proof (cases c)
  case (TcpSetState s)
  show ?thesis
  proof (cases "map_of (inflight_connect st) sk")
    case None
    then have "trace_tcp_set_state env sk s st = st" by (simp add: trace_tcp_set_state_def)
    with TcpSetState show ?thesis by simp
  next
    case (Some m)
    then have "trace_tcp_set_state env sk s st \<in> {st, forget_connect sk st}"
      using assms TcpSetState set_state_quiet [of s env sk st] by auto
    with TcpSetState show ?thesis by (auto simp: forget_connect_def)
  qed
qed (simp_all add: trace_tcp_v4_connect_def trace_tcp_v6_connect_def remember_connect_def trace_tcp_close_def
    forget_connect_def Let_def)

lemma other_transitions_silent_example:
  "tcp_events (tcp_prog (TcpSetState 7) (demo_tcp_env 0) 0x9000 demo_tcp_state) = tcp_events demo_tcp_state"
  by (rule other_transitions_silent) simp

text \<open>
  A connect is reported at most once: after the socket was established or closed, further
  state changes of it report nothing, whatever happened to other sockets, until a new connect.
\<close>

lemma connection_reported_once:
  assumes "tcp_reachable st" and "tcp_env_ok byte e1" and "sk \<noteq> 0"
    and "c = TcpClose \<or> c = TcpSetState BPF_TCP_ESTABLISHED \<and> establishes e1 sk"
    and "tcp_socks.others sk (tcp_prog c e1 sk st) st2"
  shows "tcp_prog (TcpSetState s) e2 sk st2 = st2"
proof -
  have inv: "tcp_inv st" by (rule tcp_reachable_inv [OF assms(1)])
  have "tcp_socket_done sk st (tcp_prog c e1 sk st)"
    unfolding tcp_socket_done_def using assms(2-4) by blast
  from tcp_socks.no_stale_call [OF inv this assms(5)] show ?thesis
    by (simp add: trace_tcp_set_state_def)
qed

lemma connection_reported_once_example:
  "tcp_prog (TcpSetState 1) (demo_tcp_env 0) 0x9000 (tcp_prog TcpClose (demo_tcp_env 7) 0x9000
     (tcp_prog TcpV4Connect (demo_tcp_env 7) 0x9000 demo_tcp_state)) =
   tcp_prog TcpClose (demo_tcp_env 7) 0x9000 (tcp_prog TcpV4Connect (demo_tcp_env 7) 0x9000 demo_tcp_state)"
  by (rule connection_reported_once [OF tcp_step [OF demo_tcp_reachable demo_tcp_env_ok] demo_tcp_env_ok _ _
        tcp_socks.others_refl]) simp_all

end
