(* ===== verification/Postgres.thy ===== *)
theory Postgres
  imports Bpf_Helpers
begin

text \<open>
  The Postgres probe, \<^verbatim>\<open>postgres/pg.bpf.c\<close>: the first \<^verbatim>\<open>sendto\<close> on a connection decides its
  kind from the protocol number of the start-up packet, later ones are cut into protocol
  messages, and the messages of six types are copied to userspace.  Every program returns 0;
  \<open>None\<close> is an access outside of a buffer.
\<close>

section \<open>Data\<close>

definition PG_COMM_LEN :: nat where "PG_COMM_LEN = 16"
definition PG_MAX_LOOP :: nat where "PG_MAX_LOOP = 64"
definition PG_MAX_ENTRIES :: nat where "PG_MAX_ENTRIES = 10240"
definition PG_MAX_BUF_SIZE :: nat where "PG_MAX_BUF_SIZE = 16 * 1024"

definition CONN_FLAG_PLAINTEXT :: u32 where "CONN_FLAG_PLAINTEXT = 1"
definition CONN_FLAG_SSL :: u32 where "CONN_FLAG_SSL = 2"
definition CONN_FLAG_GSSENC :: u32 where "CONN_FLAG_GSSENC = 3"
definition CONN_FLAG_OTHER :: u32 where "CONN_FLAG_OTHER = 4"

lemmas conn_flag_defs = CONN_FLAG_PLAINTEXT_def CONN_FLAG_SSL_def CONN_FLAG_GSSENC_def CONN_FLAG_OTHER_def

record sendto_ctx =
  st_common :: s64
  st_syscall_nr :: s64
  st_fd :: u64
  st_buf :: u64
  st_size :: u64
  st_flags :: u64
  st_addr :: u64
  st_addr_len :: u64

record pg_close_ctx =
  pc_common :: s64
  pc_syscall_nr :: s64
  pc_fd :: u64

record conn_key =
  ck_pid_tgid :: u64
  ck_fd :: u64

record pg_event =
  pe_timestamp_ns :: u64
  pe_pid_tgid :: u64
  pe_uid_gid :: u64
  pe_req_len :: u64
  pe_cgroup_id :: u64
  pe_data_len :: u64
  pe_fd :: u64
  pe_msg_type :: u8
  pe_data :: bytes
  pe_comm :: bytes

record event_meta =
  em_timestamp_ns :: u64
  em_uid_gid :: u64
  em_cgroup_id :: u64
  em_comm :: bytes

record pg_state =
  pg_inflight :: "(conn_key, u32) bpf_hash"
  pg_events :: "pg_event ringbuf"

type_synonym pg_env = "(pg_event, unit) bpf_env"

section \<open>The programs\<close>

text \<open>\<^verbatim>\<open>(b[k] << 24) | (b[k+1] << 16) | (b[k+2] << 8) | b[k+3]\<close>, converted to \<^verbatim>\<open>u32\<close>.\<close>

definition be32_at :: "bytes \<Rightarrow> nat \<Rightarrow> u32 option" where
  "be32_at b k =
     do { b0 \<leftarrow> buf_read b k; b1 \<leftarrow> buf_read b (k + 1); b2 \<leftarrow> buf_read b (k + 2); b3 \<leftarrow> buf_read b (k + 3);
          Some (push_bit 24 (ucast b0) OR push_bit 16 (ucast b1) OR push_bit 8 (ucast b2) OR ucast b3) }"

definition detect_startup_flag :: "pg_env \<Rightarrow> u64 \<Rightarrow> u64 \<Rightarrow> u32 option" where
  "detect_startup_flag env buf sz =
     (if sz < 8 then Some 0
      else let (rc, pre) = bpf_probe_read_user env 8 buf in
      if rc < 0 then Some 0
      else do {
        protocol \<leftarrow> be32_at pre 4;
        Some (if drop_bit 16 protocol = 3 then CONN_FLAG_PLAINTEXT
              else if protocol = 80877103 then CONN_FLAG_SSL
              else if protocol = 80877104 then CONN_FLAG_GSSENC
              else CONN_FLAG_OTHER) })"

definition is_supported_pg_msg_type :: "u8 \<Rightarrow> bool" where
  "is_supported_pg_msg_type tag \<longleftrightarrow>
     tag = 0x51 \<or> tag = 0x50 \<or> tag = 0x42 \<or> tag = 0x45 \<or> tag = 0x43 \<or> tag = 0x58"

definition new_event_meta :: "pg_env \<Rightarrow> event_meta" where
  "new_event_meta env =
     \<lparr>em_timestamp_ns = bpf_ktime_get_ns env, em_uid_gid = bpf_get_current_uid_gid env,
      em_cgroup_id = bpf_get_current_cgroup_id env,
      em_comm = bpf_get_current_comm env PG_COMM_LEN\<rparr>"

text \<open>
  The reservation made in the \<open>n\<close>-th round of the caller's loop.  The reserved record is not
  zeroed, and the return value of the copy is ignored.  The result is -1 when there is no room.
\<close>

definition emit_pg_event ::
  "pg_env \<Rightarrow> nat \<Rightarrow> conn_key \<Rightarrow> event_meta \<Rightarrow> u64 \<Rightarrow> u8 \<Rightarrow> u64 \<Rightarrow> u32 \<Rightarrow> pg_state \<Rightarrow> int \<times> pg_state" where
  "emit_pg_event env n key meta req_len tag buf len st =
     (case bpf_ringbuf_reserve env n of
        None \<Rightarrow> (-1, st)
      | Some evt \<Rightarrow>
          let rb = ringbuf_reserved (pg_events st);
              evt = evt\<lparr>pe_timestamp_ns := em_timestamp_ns meta,
                        pe_pid_tgid := ck_pid_tgid key,
                        pe_uid_gid := em_uid_gid meta,
                        pe_cgroup_id := em_cgroup_id meta,
                        pe_req_len := req_len,
                        pe_data_len := ucast len,
                        pe_fd := ck_fd key,
                        pe_msg_type := tag,
                        pe_comm := em_comm meta,
                        pe_data := mem_write (pe_data evt) (snd (bpf_probe_read_user env (unat len) buf))\<rparr>
          in (0, st\<lparr>pg_events := bpf_ringbuf_submit evt rb\<rparr>))"

text \<open>
  The payload length from the length field, which counts itself: the 32-bit subtraction wraps
  for a field below 4, and the result is cut to the buffer size.
\<close>

definition pg_length :: "u32 \<Rightarrow> u32" where
  "pg_length be = (if PG_MAX_BUF_SIZE < unat (be - 4) then of_nat PG_MAX_BUF_SIZE else be - 4)"

text \<open>One round of the message loop; its locals are \<^verbatim>\<open>total_length\<close> and \<^verbatim>\<open>buf\<close>.\<close>

definition sendto_body ::
  "pg_env \<Rightarrow> conn_key \<Rightarrow> event_meta \<Rightarrow> u64 \<Rightarrow> nat \<Rightarrow> u64 \<times> u64 \<times> pg_state \<Rightarrow>
     (u64 \<times> u64 \<times> pg_state, pg_state) flow option" where
  "sendto_body env key meta req_len i = (\<lambda>(total_length, buf, st).
     if total_length < 5 then Some (Break (total_length, buf, st))
     else let (rc, hdr) = bpf_probe_read_user env 5 buf in
     if rc < 0 then Some (Return st)
     else do {
       tag \<leftarrow> buf_read hdr 0;
       be \<leftarrow> be32_at hdr 1;
       let len = pg_length be;
       Some (if len = 0 then Return st
             else if total_length < ucast (len + 5) then Return st
             else let (rc, st) = (if is_supported_pg_msg_type tag
                      then emit_pg_event env i key meta req_len tag (buf + 5) len st else (0, st))
                  in if rc \<noteq> 0 then Return st
                     else Next (total_length - ucast (len + 5), buf + ucast len + 5, st)) })"

definition tracepoint_enter_sendto :: "pg_env \<Rightarrow> sendto_ctx \<Rightarrow> pg_state \<Rightarrow> pg_state option" where
  "tracepoint_enter_sendto env ctx st =
     (let key = \<lparr>ck_pid_tgid = bpf_get_current_pid_tgid env, ck_fd = st_fd ctx\<rparr> in
      case bpf_map_lookup_elem (pg_inflight st) key of
        None \<Rightarrow> do {
          new_flag \<leftarrow> detect_startup_flag env (st_buf ctx) (st_size ctx);
          Some (if new_flag = 0 then st
                else st\<lparr>pg_inflight := hash_update PG_MAX_ENTRIES key new_flag (pg_inflight st)\<rparr>) }
      | Some flag \<Rightarrow>
          if CONN_FLAG_GSSENC < flag then Some st
          else do {
            r \<leftarrow> c_for PG_MAX_LOOP (sendto_body env key (new_event_meta env) (st_size ctx))
                   (st_size ctx, st_buf ctx, st);
            Some (case r of Inl (_, _, st) \<Rightarrow> st | Inr st \<Rightarrow> st) })"

definition tracepoint_enter_close :: "pg_env \<Rightarrow> pg_close_ctx \<Rightarrow> pg_state \<Rightarrow> pg_state option" where
  "tracepoint_enter_close env ctx st =
     (let key = \<lparr>ck_pid_tgid = bpf_get_current_pid_tgid env, ck_fd = pc_fd ctx\<rparr> in
      case bpf_map_lookup_elem (pg_inflight st) key of
        None \<Rightarrow> Some st
      | Some flag \<Rightarrow> Some (st\<lparr>pg_inflight := bpf_map_delete_elem key (pg_inflight st)\<rparr>))"

datatype pg_call = PgSendto sendto_ctx | PgClose pg_close_ctx

primrec pg_prog :: "pg_call \<Rightarrow> pg_env \<Rightarrow> pg_state \<Rightarrow> pg_state option" where
  "pg_prog (PgSendto c) env = tracepoint_enter_sendto env c"
| "pg_prog (PgClose c) env = tracepoint_enter_close env c"

primrec pg_call_fd :: "pg_call \<Rightarrow> u64" where
  "pg_call_fd (PgSendto c) = st_fd c"
| "pg_call_fd (PgClose c) = pc_fd c"

section \<open>Invariant\<close>

definition pg_env_ok :: "(u64 \<Rightarrow> u8) \<Rightarrow> pg_env \<Rightarrow> bool" where
  "pg_env_ok byte env \<longleftrightarrow> env_ok byte env \<and>
     (\<forall>n e. bpf_ringbuf_reserve env n = Some e \<longrightarrow> length (pe_data e) = PG_MAX_BUF_SIZE)"

definition pg_event_ok :: "pg_event \<Rightarrow> bool" where
  "pg_event_ok e \<longleftrightarrow> is_supported_pg_msg_type (pe_msg_type e) \<and>
     0 < unat (pe_data_len e) \<and> unat (pe_data_len e) \<le> PG_MAX_BUF_SIZE \<and>
     unat (pe_data_len e) + 5 \<le> unat (pe_req_len e) \<and>
     length (pe_data e) = PG_MAX_BUF_SIZE \<and> length (pe_comm e) = PG_COMM_LEN"

definition pg_inv :: "pg_state \<Rightarrow> bool" where
  "pg_inv st \<longleftrightarrow> hash_ok PG_MAX_ENTRIES (pg_inflight st) \<and>
     hash.all_entries (\<lambda>_ f. f \<in> {CONN_FLAG_PLAINTEXT, CONN_FLAG_SSL, CONN_FLAG_GSSENC, CONN_FLAG_OTHER})
       (pg_inflight st) \<and>
     rb_pending (pg_events st) = 0 \<and> (\<forall>e \<in> set (rb_log (pg_events st)). pg_event_ok e)"

definition message_event ::
  "pg_env \<Rightarrow> conn_key \<Rightarrow> event_meta \<Rightarrow> u64 \<Rightarrow> u8 \<Rightarrow> u64 \<Rightarrow> u32 \<Rightarrow> pg_event \<Rightarrow> pg_event" where
  "message_event env key meta req_len tag buf len evt =
     \<lparr>pe_timestamp_ns = em_timestamp_ns meta, pe_pid_tgid = ck_pid_tgid key,
      pe_uid_gid = em_uid_gid meta, pe_req_len = req_len, pe_cgroup_id = em_cgroup_id meta,
      pe_data_len = ucast len, pe_fd = ck_fd key, pe_msg_type = tag,
      pe_data = mem_write (pe_data evt) (snd (bpf_probe_read_user env (unat len) buf)),
      pe_comm = em_comm meta\<rparr>"

lemma emit_pg_event_spec:
  "emit_pg_event env n key meta req_len tag buf len st =
     (case bpf_ringbuf_reserve env n of None \<Rightarrow> (-1, st)
      | Some evt \<Rightarrow> (0, st\<lparr>pg_events := (pg_events st)
          \<lparr>rb_log := rb_log (pg_events st) @ [message_event env key meta req_len tag buf len evt]\<rparr>\<rparr>))"
  by (simp add: emit_pg_event_def message_event_def Let_def split: option.splits)

lemma message_event_ok:
  assumes "pg_env_ok byte env" and "bpf_ringbuf_reserve env n = Some evt"
    and "is_supported_pg_msg_type tag" and "0 < unat len" and "unat len \<le> PG_MAX_BUF_SIZE"
    and "unat len + 5 \<le> unat req_len"
  shows "pg_event_ok (message_event env key (new_event_meta env) req_len tag buf len evt)"
proof -
  have env: "env_ok byte env" "length (pe_data evt) = PG_MAX_BUF_SIZE"
    using assms(1,2) by (auto simp: pg_env_ok_def)
  have "length (snd (bpf_probe_read_user env (unat len) buf)) \<le> length (pe_data evt)"
    using probe_memory.read_size [OF env_okD(1) [OF env(1)], of "unat len" buf] assms(5) env(2) by simp
  moreover have "unat (ucast len :: u64) = unat len"
    by (simp add: unat_ucast_up)
  ultimately show ?thesis
    using assms(3-6) env env_okD(3) [OF env(1)]
    by (simp add: pg_event_ok_def message_event_def new_event_meta_def)
qed

text \<open>The clamped length is small, so the 32-bit sum with the header size does not wrap.\<close>

lemma pg_length_le: "unat (pg_length be) \<le> PG_MAX_BUF_SIZE"
  by (simp add: pg_length_def PG_MAX_BUF_SIZE_def)

lemma unat_frame_size: "unat (ucast (pg_length be + 5) :: u64) = unat (pg_length be) + 5"
proof -
  have "unat (pg_length be + 5) = unat (pg_length be) + 5"
    using pg_length_le [of be] by (simp add: unat_word_ariths PG_MAX_BUF_SIZE_def)
  then show ?thesis by (simp add: unat_ucast_up)
qed

lemma be32_at_in:
  "k + 3 < length b \<Longrightarrow> be32_at b k = Some (push_bit 24 (ucast (b ! k)) OR
     push_bit 16 (ucast (b ! (k + 1))) OR push_bit 8 (ucast (b ! (k + 2))) OR ucast (b ! (k + 3)))"
  by (simp add: be32_at_def)

text \<open>One round, given the header that was read.\<close>

lemma sendto_body_step:
  assumes "bpf_probe_read_user env 5 buf = (0, hdr)" and "length hdr = 5"
    and "be32_at hdr 1 = Some be" and "5 \<le> unat tot"
  shows "sendto_body env key meta req_len i (tot, buf, st) = Some
    (if pg_length be = 0 \<or> unat tot < unat (pg_length be) + 5 then Return st
     else let (rc, st) = (if is_supported_pg_msg_type (hdr ! 0)
              then emit_pg_event env i key meta req_len (hdr ! 0) (buf + 5) (pg_length be) st else (0, st))
          in if rc \<noteq> 0 then Return st
             else Next (tot - ucast (pg_length be + 5), buf + ucast (pg_length be) + 5, st))"
  using assms
  by (simp add: sendto_body_def word_less_nat_alt unat_frame_size Let_def)

lemma sendto_body_ok:
  assumes "pg_env_ok byte env" and "pg_inv st" and "unat tot \<le> unat req_len"
  shows "case sendto_body env key (new_event_meta env) req_len i (tot, buf, st) of
      None \<Rightarrow> False
    | Some (Next (tot', buf', st')) \<Rightarrow> unat tot' \<le> unat req_len \<and> pg_inv st' \<and>
        pg_inflight st' = pg_inflight st
    | Some (Break (tot', buf', st')) \<Rightarrow> pg_inv st' \<and> pg_inflight st' = pg_inflight st
    | Some (Return st') \<Rightarrow> pg_inv st' \<and> pg_inflight st' = pg_inflight st"
proof -
  obtain rc hdr where r: "bpf_probe_read_user env 5 buf = (rc, hdr)" by fastforce
  have mem: "probe_memory (bpf_probe_read_user env) (bpf_probe_read_user_str env) byte"
    using assms(1) by (auto simp: pg_env_ok_def)
  consider (short) "unat tot < 5" | (fault) "5 \<le> unat tot" "rc < 0" | (hdr) "5 \<le> unat tot" "rc = 0"
    using probe_memory.read_rc [OF mem, of 5 buf] r by fastforce
  then show ?thesis
  proof cases
    case hdr
    with r have len: "length hdr = 5" using probe_memory.length_read_done [OF mem, of 5 buf] by simp
    then obtain be where be: "be32_at hdr 1 = Some be" using be32_at_in [of 1 hdr] by simp
    have emit: "pg_inv (st\<lparr>pg_events := (pg_events st)\<lparr>rb_log := rb_log (pg_events st) @
        [message_event env key (new_event_meta env) req_len (hdr ! 0) (buf + 5) (pg_length be) evt]\<rparr>\<rparr>)"
      if "bpf_ringbuf_reserve env i = Some evt" "is_supported_pg_msg_type (hdr ! 0)"
        "pg_length be \<noteq> 0" "\<not> unat tot < unat (pg_length be) + 5" for evt
      using message_event_ok [OF assms(1) that(1,2)] that pg_length_le [of be] assms(2,3)
      by (auto simp: pg_inv_def unat_gt_0)
    have less: "unat (tot - ucast (pg_length be + 5)) \<le> unat req_len"
      if "\<not> unat tot < unat (pg_length be) + 5"
      using that assms(3) by (simp add: unat_sub_if' unat_frame_size)
    show ?thesis
      unfolding sendto_body_step [OF r [unfolded hdr(2)] len be hdr(1)]
      using emit less assms(2) by (auto simp: emit_pg_event_spec split: option.splits)
  qed (use r assms(2) in \<open>auto simp: sendto_body_def word_less_nat_alt\<close>)
qed

lemma sendto_loop_ok:
  assumes "pg_env_ok byte env" and "pg_inv st"
  shows "\<exists>r. c_for n (sendto_body env key (new_event_meta env) req_len) (req_len, buf, st) = Some r \<and>
    (case r of Inl (_, _, st') \<Rightarrow> pg_inv st' \<and> pg_inflight st' = pg_inflight st
     | Inr st' \<Rightarrow> pg_inv st' \<and> pg_inflight st' = pg_inflight st)"
  (is "\<exists>r. _ \<and> ?Q r")
proof (rule c_for_rule [where I = "\<lambda>_ (tot, _, st'). unat tot \<le> unat req_len \<and> pg_inv st' \<and>
    pg_inflight st' = pg_inflight st"])
  fix j and s :: "u64 \<times> u64 \<times> pg_state"
  obtain tot b st1 where s: "s = (tot, b, st1)" by (cases s)
  assume "case s of (tot, _, st') \<Rightarrow> unat tot \<le> unat req_len \<and> pg_inv st' \<and> pg_inflight st' = pg_inflight st"
  with s sendto_body_ok [OF assms(1), of st1 tot req_len key j b]
  show "case sendto_body env key (new_event_meta env) req_len j s of None \<Rightarrow> False
    | Some (Next s') \<Rightarrow> (case s' of (tot, _, st') \<Rightarrow> unat tot \<le> unat req_len \<and> pg_inv st' \<and>
        pg_inflight st' = pg_inflight st)
    | Some (Break s') \<Rightarrow> ?Q (Inl s') | Some (Return r) \<Rightarrow> ?Q (Inr r)"
    by (auto split: option.splits flow.splits)
qed (use assms(2) in auto)

lemma detect_startup_flag_ok:
  assumes "pg_env_ok byte env"
  shows "\<exists>f. detect_startup_flag env buf sz = Some f \<and>
    f \<in> {0, CONN_FLAG_PLAINTEXT, CONN_FLAG_SSL, CONN_FLAG_GSSENC, CONN_FLAG_OTHER}"
proof -
  have mem: "probe_memory (bpf_probe_read_user env) (bpf_probe_read_user_str env) byte"
    using assms by (auto simp: pg_env_ok_def)
  show ?thesis
    using probe_memory.length_read_done [OF mem, of 8 buf] probe_memory.read_rc [OF mem, of 8 buf]
    by (auto simp: detect_startup_flag_def be32_at_in Let_def split: prod.splits)
qed

text \<open>Where a program finds the connection's key.\<close>

abbreviation pg_key :: "pg_call \<Rightarrow> pg_env \<Rightarrow> conn_key" where
  "pg_key c env \<equiv> \<lparr>ck_pid_tgid = bpf_get_current_pid_tgid env, ck_fd = pg_call_fd c\<rparr>"

lemma pg_prog_ok:
  assumes "pg_env_ok byte env" and "pg_inv st"
  shows "\<exists>st'. pg_prog c env st = Some st' \<and> pg_inv st' \<and>
    (\<forall>k. k \<noteq> pg_key c env \<longrightarrow> map_of (pg_inflight st') k = map_of (pg_inflight st) k)"
proof (cases c)
  case (PgSendto s)
  obtain f where f: "detect_startup_flag env (st_buf s) (st_size s) = Some f"
    "f \<in> {0, CONN_FLAG_PLAINTEXT, CONN_FLAG_SSL, CONN_FLAG_GSSENC, CONN_FLAG_OTHER}"
    using detect_startup_flag_ok [OF assms(1)] by blast
  obtain r where r: "c_for PG_MAX_LOOP (sendto_body env (pg_key c env) (new_event_meta env) (st_size s))
      (st_size s, st_buf s, st) = Some r"
    "case r of Inl (_, _, st') \<Rightarrow> pg_inv st' \<and> pg_inflight st' = pg_inflight st
     | Inr st' \<Rightarrow> pg_inv st' \<and> pg_inflight st' = pg_inflight st"
    using sendto_loop_ok [OF assms] by blast
  have "pg_inv (st\<lparr>pg_inflight := hash_update PG_MAX_ENTRIES k f (pg_inflight st)\<rparr>)" if "f \<noteq> 0" for k
    using assms(2) f(2) that by (auto simp: pg_inv_def hash_ok_update intro!: hash.all_entries_update)
  moreover have "map_of (hash_update PG_MAX_ENTRIES k f (pg_inflight st)) k' = map_of (pg_inflight st) k'"
    if "k' \<noteq> k" for k k'
    using assms(2) that hash.update_frame [of PG_MAX_ENTRIES "pg_inflight st" k' k f] by (simp add: pg_inv_def)
  ultimately show ?thesis
    using PgSendto f r assms(2)
    by (cases r) (auto simp: tracepoint_enter_sendto_def Let_def split: option.splits)
next
  case (PgClose s)
  with assms(2) show ?thesis
    by (auto simp: tracepoint_enter_close_def Let_def pg_inv_def hash_ok_delete delete_conv'
        hash.all_entries_delete [of PG_MAX_ENTRIES] split: option.splits)
qed

inductive pg_reachable :: "pg_state \<Rightarrow> bool" where
  pg_start: "pg_reachable \<lparr>pg_inflight = [], pg_events = \<lparr>rb_pending = 0, rb_log = []\<rparr>\<rparr>"
| pg_step: "pg_reachable st \<Longrightarrow> pg_env_ok byte env \<Longrightarrow> pg_prog c env st = Some st' \<Longrightarrow> pg_reachable st'"

lemma pg_reachable_inv: "pg_reachable st \<Longrightarrow> pg_inv st"
proof (induction rule: pg_reachable.induct)
  case pg_start
  show ?case by (simp add: pg_inv_def hash.all_entries_def hash_ok_def)
next
  case (pg_step st byte env c st')
  with pg_prog_ok [OF pg_step.hyps(2) pg_step.IH, of c] show ?case by auto
qed

section \<open>Connections do not disturb each other\<close>

definition pg_conn_step :: "conn_key \<Rightarrow> pg_state \<Rightarrow> pg_state \<Rightarrow> bool" where
  "pg_conn_step k st st' \<longleftrightarrow> (\<exists>byte env c. pg_env_ok byte env \<and> k = pg_key c env \<and> pg_prog c env st = Some st')"

definition pg_conn_close :: "conn_key \<Rightarrow> pg_state \<Rightarrow> pg_state \<Rightarrow> bool" where
  "pg_conn_close k st st' \<longleftrightarrow> (\<exists>byte env c. pg_env_ok byte env \<and> k = pg_key (PgClose c) env \<and>
     pg_prog (PgClose c) env st = Some st')"

lemma close_clears:
  "tracepoint_enter_close env c st = Some st' \<Longrightarrow>
     map_of (pg_inflight st') \<lparr>ck_pid_tgid = bpf_get_current_pid_tgid env, ck_fd = pc_fd c\<rparr> = None"
  by (auto simp: tracepoint_enter_close_def Let_def delete_conv' split: option.splits)

interpretation pg_conns: call_tracker "\<lambda>st. map_of (pg_inflight st)" pg_conn_step pg_conn_close pg_inv
proof unfold_locales
  have step: "pg_inv s' \<and> (\<forall>q. q \<noteq> k \<longrightarrow> map_of (pg_inflight s') q = map_of (pg_inflight s) q)"
    if "pg_inv s" "pg_conn_step k s s'" for k s s'
    using that(2) pg_prog_ok [OF _ that(1)] unfolding pg_conn_step_def by (metis option.inject)
  show "pg_inv s'" if "pg_inv s" "pg_conn_step k s s'" for k s s'
    using step [OF that] by simp
  show "map_of (pg_inflight s') q = map_of (pg_inflight s) q"
    if "pg_inv s" "pg_conn_step k s s'" "q \<noteq> k" for k s s' q
    using step [OF that(1,2)] that(3) by simp
  show "map_of (pg_inflight s') q = map_of (pg_inflight s) q \<or> map_of (pg_inflight s') q = None"
    if "pg_inv s" "pg_conn_step k s s'" "q \<noteq> k" for k s s' q
    using step [OF that(1,2)] that(3) by simp
  show "pg_conn_step k s s'" if "pg_conn_close k s s'" for k s s'
    using that unfolding pg_conn_close_def pg_conn_step_def by blast
  show "map_of (pg_inflight s') k = None" if "pg_inv s" "pg_conn_close k s s'" for k s s'
    using that close_clears unfolding pg_conn_close_def by auto
qed

interpretation pg_probe: safe_probe "\<lambda>(c, env). pg_prog c env" "\<lambda>(c, env). \<exists>byte. pg_env_ok byte env" pg_inv
  by unfold_locales (use pg_prog_ok in fastforce)

end
