(* ===== verification/Postgres_Messages.thy ===== *)
theory Postgres_Messages
  imports Postgres
begin

text \<open>
  What the message loop of \<^verbatim>\<open>postgres/pg.bpf.c\<close> recovers from a buffer: the wire format of the
  Postgres front-end messages, and the loop as its decoder.
\<close>

section \<open>The wire format\<close>

type_synonym pg_message = "u8 \<times> bytes"

text \<open>A type byte, the length of the rest in network order counting itself, the payload.\<close>

definition pg_frame :: "pg_message \<Rightarrow> bytes" where
  "pg_frame m = fst m # rev (to_le 4 (of_nat (length (snd m) + 4) :: u32)) @ snd m"

definition pg_encode :: "pg_message list \<Rightarrow> bytes" where
  "pg_encode ms = concat (map pg_frame ms)"

text \<open>Messages the loop can step over: a payload that is not empty and fits the buffer.\<close>

definition fits :: "pg_message \<Rightarrow> bool" where
  "fits m \<longleftrightarrow> snd m \<noteq> [] \<and> length (snd m) \<le> PG_MAX_BUF_SIZE"

text \<open>What userspace sees of an event.\<close>

definition pg_view :: "pg_event \<Rightarrow> pg_message" where
  "pg_view e = (pe_msg_type e, take (unat (pe_data_len e)) (pe_data e))"

lemma to_le_4: "to_le 4 w = [ucast w, ucast (drop_bit 8 w), ucast (drop_bit 16 w), ucast (drop_bit 24 w)]"
  by (simp add: to_le_def upt_rec)

lemma bit_byte_of:
  "bit (push_bit k (ucast (ucast (drop_bit k w) :: u8)) :: u32) n \<longleftrightarrow>
     k \<le> n \<and> n < 32 \<and> n < k + 8 \<and> bit (w :: u32) n"
  by (auto simp: bit_push_bit_iff bit_unsigned_iff bit_drop_bit_eq)

lemma bit_low_byte: "bit (ucast (ucast w :: u8) :: u32) n \<longleftrightarrow> n < 8 \<and> bit (w :: u32) n"
  by (auto simp: bit_unsigned_iff)

lemma be32_join:
  "push_bit 24 (ucast (ucast (drop_bit 24 w) :: u8)) OR push_bit 16 (ucast (ucast (drop_bit 16 w) :: u8)) OR
   push_bit 8 (ucast (ucast (drop_bit 8 w) :: u8)) OR ucast (ucast w :: u8) = (w :: u32)"
  (is "?l = w")
proof (rule bit_word_eqI)
  show "bit ?l n = bit w n" if "n < LENGTH(32)" for n
    using that unfolding bit_or_iff bit_byte_of bit_low_byte by auto
qed

lemma be32_front: "be32_at (rev (to_le 4 (w :: u32))) 0 = Some w"
  using be32_join [of w] by (simp add: be32_at_def buf_read_def to_le_4)

lemma be32_append: "be32_at (l @ r) (length l + k) = be32_at r k"
  by (simp add: be32_at_def buf_read_def nth_append add.assoc)

lemma be32_frame: "be32_at (t # rev (to_le 4 (w :: u32))) 1 = Some w"
  using be32_append [of "[t]" "rev (to_le 4 w)" 0] be32_front [of w] by simp

lemma length_pg_frame [simp]: "length (pg_frame m) = length (snd m) + 5"
  by (simp add: pg_frame_def)

lemma take_pg_frame: "take 5 (pg_frame m @ r) = fst m # rev (to_le 4 (of_nat (length (snd m) + 4) :: u32))"
  by (simp add: pg_frame_def)

lemma drop_pg_frame: "drop 5 (pg_frame m @ r) = snd m @ r"
  by (simp add: pg_frame_def)

section \<open>The loop decodes\<close>

lemma pg_length_frame:
  "length p \<le> PG_MAX_BUF_SIZE \<Longrightarrow> pg_length (of_nat (length p + 4)) = of_nat (length p)"
  by (simp add: pg_length_def PG_MAX_BUF_SIZE_def unat_of_nat)

text \<open>
  One round, for any header at the front of the buffer whose length field, after the
  subtraction and the cut, covers the bytes \<open>data\<close>.
\<close>

definition pg_header :: "u8 \<Rightarrow> u32 \<Rightarrow> bytes" where
  "pg_header tag w = tag # rev (to_le 4 w)"

lemma length_pg_header [simp]: "length (pg_header tag w) = 5"
  by (simp add: pg_header_def)

lemma sendto_body_chunk:
  assumes "holds (bpf_probe_read_user env) buf (pg_header tag w @ data @ r)" and "pg_length w = of_nat (length data)"
    and "data \<noteq> []" and "length data \<le> PG_MAX_BUF_SIZE" and "length data + 5 + length r < 2 ^ 64"
    and "bpf_ringbuf_reserve env i = Some evt"
  shows "\<exists>evs. sendto_body env key meta req_len i (of_nat (length data + 5 + length r), buf, st) =
      Some (Next (of_nat (length r), buf + of_nat (length data + 5),
        st\<lparr>pg_events := (pg_events st)\<lparr>rb_log := rb_log (pg_events st) @ evs\<rparr>\<rparr>)) \<and>
    map pg_view evs = (if is_supported_pg_msg_type tag then [(tag, data)] else [])"
proof -
  let ?n = "length data"
  let ?e = "message_event env key meta req_len tag (buf + 5) (of_nat ?n) evt"
  have un: "unat (of_nat ?n :: u32) = ?n"
    using assms(4) by (simp add: unat_of_nat PG_MAX_BUF_SIZE_def)
  then have nz: "of_nat ?n \<noteq> (0 :: u32)"
    using assms(3) by (metis length_0_conv unat_0)
  have un': "ucast (of_nat ?n :: u32) = (of_nat ?n :: u64)"
    using assms(4) by (simp add: word_unat_eq_iff unat_ucast_up unat_of_nat PG_MAX_BUF_SIZE_def)
  have hdr: "bpf_probe_read_user env 5 buf = (0, pg_header tag w)"
    using holds_read [OF assms(1), of 5] by simp
  have data: "bpf_probe_read_user env ?n (buf + 5) = (0, data)"
    using holds_read [OF holds_append [OF assms(1)], of ?n] by simp
  have tot: "unat (of_nat (?n + 5 + length r) :: u64) = ?n + 5 + length r"
    by (rule u64_of_nat [OF assms(5)])
  have view: "pg_view ?e = (tag, data)"
    using un un' data assms(4) by (simp add: pg_view_def message_event_def unat_of_nat PG_MAX_BUF_SIZE_def)
  have "unat (ucast (of_nat ?n + 5 :: u32) :: u64) = unat (of_nat (?n + 5) :: u64)"
    using unat_frame_size [of w] un assms(2,4) u64_of_nat [of "?n + 5"] by (simp add: PG_MAX_BUF_SIZE_def)
  then have sz: "ucast (of_nat ?n + 5 :: u32) = (of_nat (?n + 5) :: u64)"
    by (simp only: word_unat_eq_iff)
  show ?thesis
    using sendto_body_step [OF hdr _ be32_frame [of tag w, folded pg_header_def],
        of "of_nat (?n + 5 + length r)" key meta req_len i st]
      tot nz un un' sz assms(2,6) view
    by (intro exI [of _ "if is_supported_pg_msg_type tag then [?e] else []"])
      (simp add: emit_pg_event_spec pg_header_def)
qed

lemma pg_frame_header: "pg_frame (tag, p) = pg_header tag (of_nat (length p + 4)) @ p"
  by (simp add: pg_frame_def pg_header_def)

abbreviation sent :: "pg_event list \<Rightarrow> pg_state \<Rightarrow> pg_state" where
  "sent evs st \<equiv> st\<lparr>pg_events := (pg_events st)\<lparr>rb_log := rb_log (pg_events st) @ evs\<rparr>\<rparr>"

lemma sendto_body_frame:
  assumes "holds (bpf_probe_read_user env) buf (pg_frame m @ r)" and "fits m" and "length (pg_frame m @ r) < 2 ^ 64"
    and "bpf_ringbuf_reserve env i = Some evt"
  shows "\<exists>evs. sendto_body env key meta req_len i (of_nat (length (pg_frame m @ r)), buf, st) =
      Some (Next (of_nat (length r), buf + of_nat (length (pg_frame m)), sent evs st)) \<and>
    map pg_view evs = (if is_supported_pg_msg_type (fst m) then [m] else [])"
proof -
  obtain t p where m: "m = (t, p)" by fastforce
  show ?thesis
    using sendto_body_chunk [of env buf t "of_nat (length p + 4)" p r i evt key meta req_len st]
      assms pg_length_frame [of p] unfolding m
    by (simp add: fits_def pg_frame_header ac_simps split del: if_split)
qed

text \<open>The messages at the front of the buffer, one round each.\<close>

lemma sendto_loop_frames:
  assumes "holds (bpf_probe_read_user env) buf (pg_encode ms @ r)" and "list_all fits ms" and "length (pg_encode ms @ r) < 2 ^ 64"
    and "\<forall>j. bpf_ringbuf_reserve env j \<noteq> None" and "length ms \<le> n"
  shows "\<exists>evs. c_for_from n i (sendto_body env key meta req_len)
      (of_nat (length (pg_encode ms @ r)), buf, st) =
    c_for_from (n - length ms) (i + length ms) (sendto_body env key meta req_len)
      (of_nat (length r), buf + of_nat (length (pg_encode ms)), sent evs st) \<and>
    map pg_view evs = filter (\<lambda>m. is_supported_pg_msg_type (fst m)) ms"
  using assms
proof (induction ms arbitrary: n i buf st)
  case Nil
  then show ?case by (intro exI [of _ "[]"]) (simp add: pg_encode_def)
next
  case (Cons m ms)
  let ?body = "sendto_body env key meta req_len" and ?r = "pg_encode ms @ r"
  have enc: "pg_encode (m # ms) @ r = pg_frame m @ ?r" by (simp add: pg_encode_def)
  obtain evt where "bpf_ringbuf_reserve env i = Some evt" using Cons.prems(4) by blast
  with Cons.prems(1-3) obtain e where e:
    "?body i (of_nat (length (pg_frame m @ ?r)), buf, st) =
      Some (Next (of_nat (length ?r), buf + of_nat (length (pg_frame m)), sent e st))"
    "map pg_view e = (if is_supported_pg_msg_type (fst m) then [m] else [])"
    unfolding enc using sendto_body_frame [of env buf m ?r i evt key meta req_len st] by auto
  obtain n' where n: "n = Suc n'" "length ms \<le> n'" using Cons.prems(5) by (cases n) auto
  have "holds (bpf_probe_read_user env) (buf + of_nat (length (pg_frame m))) ?r"
    using Cons.prems(1) unfolding enc by (rule holds_append)
  with Cons.IH [OF this _ _ Cons.prems(4) n(2), of "Suc i" "sent e st"] Cons.prems(2,3)
  obtain es where es: "c_for_from n' (Suc i) ?body
      (of_nat (length ?r), buf + of_nat (length (pg_frame m)), sent e st) =
    c_for_from (n' - length ms) (Suc i + length ms) ?body
      (of_nat (length r), buf + of_nat (length (pg_frame m)) + of_nat (length (pg_encode ms)), sent es (sent e st))"
    "map pg_view es = filter (\<lambda>m. is_supported_pg_msg_type (fst m)) ms"
    unfolding enc by auto
  have "c_for_from n i ?body (of_nat (length (pg_encode (m # ms) @ r)), buf, st) =
      c_for_from n' (Suc i) ?body (of_nat (length ?r), buf + of_nat (length (pg_frame m)), sent e st)"
    unfolding enc n(1) c_for_from.simps e(1) by simp
  then show ?case
    using es e(2) n(1) by (intro exI [of _ "e @ es"]) (simp add: pg_encode_def add.assoc)
qed

section \<open>The whole program\<close>

text \<open>A call on a connection that is parsed, with room for every record.\<close>

definition pg_parsed :: "pg_env \<Rightarrow> sendto_ctx \<Rightarrow> bytes \<Rightarrow> pg_state \<Rightarrow> bool" where
  "pg_parsed env ctx b st \<longleftrightarrow>
     (\<exists>flag. map_of (pg_inflight st) (pg_key (PgSendto ctx) env) = Some flag \<and> flag \<le> CONN_FLAG_GSSENC) \<and>
     (\<forall>j. bpf_ringbuf_reserve env j \<noteq> None) \<and>
     holds (bpf_probe_read_user env) (st_buf ctx) b \<and> length b < 2 ^ 64 \<and> st_size ctx = of_nat (length b)"

lemma sendto_loop:
  assumes "pg_parsed env ctx b st"
  shows "tracepoint_enter_sendto env ctx st = map_option (\<lambda>r. case r of Inl (_, _, st) \<Rightarrow> st | Inr st \<Rightarrow> st)
    (c_for_from PG_MAX_LOOP 0 (sendto_body env (pg_key (PgSendto ctx) env) (new_event_meta env) (st_size ctx))
      (of_nat (length b), st_buf ctx, st))"
  using assms
  by (auto simp: pg_parsed_def tracepoint_enter_sendto_def c_for_def map_conv_bind_option comp_def Let_def
      split: option.splits)

lemma sendto_frames:
  assumes "pg_parsed env ctx (pg_encode ms @ r) st" and "list_all fits ms" and "length ms \<le> PG_MAX_LOOP"
  shows "\<exists>evs. tracepoint_enter_sendto env ctx st = map_option (\<lambda>r. case r of Inl (_, _, st) \<Rightarrow> st | Inr st \<Rightarrow> st)
      (c_for_from (PG_MAX_LOOP - length ms) (length ms)
        (sendto_body env (pg_key (PgSendto ctx) env) (new_event_meta env) (st_size ctx))
        (of_nat (length r), st_buf ctx + of_nat (length (pg_encode ms)), sent evs st)) \<and>
    map pg_view evs = filter (\<lambda>m. is_supported_pg_msg_type (fst m)) ms"
  using sendto_loop_frames [of env "st_buf ctx" ms r PG_MAX_LOOP 0 "pg_key (PgSendto ctx) env"
      "new_event_meta env" "st_size ctx" st] assms sendto_loop [OF assms(1)]
  by (auto simp: pg_parsed_def)

lemma sendto_body_end:
  "sendto_body env key meta req_len i (0, buf, st) = Some (Break (0, buf, st))"
  by (simp add: sendto_body_def)

lemma c_for_from_stop: "n \<noteq> 0 \<Longrightarrow> body i s = Some (Break s') \<Longrightarrow> c_for_from n i body s = Some (Inl s')"
  "n \<noteq> 0 \<Longrightarrow> body i s = Some (Return t) \<Longrightarrow> c_for_from n i body s = Some (Inr t)"
  by (cases n; simp)+

lemma sendto_parses:
  assumes "pg_parsed env ctx (pg_encode ms) st" and "list_all fits ms"
  shows "\<exists>evs. tracepoint_enter_sendto env ctx st = Some (sent evs st) \<and>
    map pg_view evs = filter (\<lambda>m. is_supported_pg_msg_type (fst m)) (take PG_MAX_LOOP ms)"
proof (cases "length ms < PG_MAX_LOOP")
  case True
  then show ?thesis
    using sendto_frames [of env ctx ms "[]" st] assms
    by (auto simp: c_for_from_stop sendto_body_end)
next
  case False
  let ?ms = "take PG_MAX_LOOP ms"
  have "pg_encode ms = pg_encode ?ms @ pg_encode (drop PG_MAX_LOOP ms)"
    unfolding pg_encode_def by (metis append_take_drop_id concat_append map_append)
  moreover have "list_all fits ?ms"
    using assms(2) by (auto simp: list_all_iff dest: in_set_takeD)
  ultimately show ?thesis
    using sendto_frames [of env ctx ?ms "pg_encode (drop PG_MAX_LOOP ms)" st] assms(1) False
    by auto
qed

text \<open>
  C13: a buffer of complete messages, each with a payload of 1 to 16384 bytes, sent on a tracked
  connection while the ring has room, is decoded exactly: the events of the call carry, in order, the
  type and payload of the messages of a supported type among the first 64, and nothing else changes.
\<close>

theorem sendto_decodes:
  assumes "pg_parsed env ctx (pg_encode ms) st" and "list_all fits ms"
  shows "\<exists>evs. tracepoint_enter_sendto env ctx st = Some (sent evs st) \<and>
    map pg_view evs = filter (\<lambda>m. is_supported_pg_msg_type (fst m)) (take PG_MAX_LOOP ms)"
  by (rule sendto_parses [OF assms])

text \<open>A header that announces an empty payload ends the parse.\<close>

lemma sendto_body_empty:
  assumes "holds (bpf_probe_read_user env) buf (pg_frame (tag, []) @ r)" and "length (pg_frame (tag, []) @ r) < 2 ^ 64"
  shows "sendto_body env key meta req_len i (of_nat (length (pg_frame (tag, []) @ r)), buf, st) =
    Some (Return st)"
proof -
  have hdr: "bpf_probe_read_user env 5 buf = (0, pg_header tag 4)"
    using holds_read [OF assms(1), of 5] by (simp add: pg_frame_header)
  have "5 \<le> unat (of_nat (length (pg_frame (tag, []) @ r)) :: u64)"
    unfolding u64_of_nat [OF assms(2)] by simp
  then show ?thesis
    by (subst sendto_body_step [OF hdr _ be32_frame [of tag 4, folded pg_header_def]])
      (simp_all add: pg_length_def PG_MAX_BUF_SIZE_def)
qed

text \<open>
  C37: a message without payload, such as Terminate (\<^verbatim>\<open>X\<close>, one of the six supported types) or
  Sync, ends the parse: it is not reported, and neither is any message behind it in the same
  buffer.
\<close>

theorem empty_message_ends_parse:
  assumes "pg_parsed env ctx (pg_encode ms @ pg_frame (tag, []) @ r) st"
    and "list_all fits ms" and "length ms < PG_MAX_LOOP"
  shows "\<exists>evs. tracepoint_enter_sendto env ctx st = Some (sent evs st) \<and>
    map pg_view evs = filter (\<lambda>m. is_supported_pg_msg_type (fst m)) ms"
proof -
  let ?r = "pg_frame (tag, []) @ r"
  have "holds (bpf_probe_read_user env) (st_buf ctx + of_nat (length (pg_encode ms))) ?r" "length ?r < 2 ^ 64"
    using assms(1) holds_append by (auto simp: pg_parsed_def)
  then show ?thesis
    using sendto_frames [OF assms(1,2)] assms(3) sendto_body_empty [of env _ tag r]
    by (force simp: c_for_from_stop)
qed

lemma sendto_loop_last:
  assumes "holds (bpf_probe_read_user env) buf (pg_frame m)" and "fits m" and "\<forall>j. bpf_ringbuf_reserve env j \<noteq> None" and "1 < n"
  shows "\<exists>evs b. c_for_from n i (sendto_body env key meta req_len) (of_nat (length (pg_frame m)), buf, st) =
      Some (Inl (0, b, sent evs st)) \<and>
    map pg_view evs = filter (\<lambda>m. is_supported_pg_msg_type (fst m)) [m]"
proof -
  have enc: "pg_encode [m] @ [] = pg_frame m" by (simp add: pg_encode_def)
  have len: "length (pg_frame m) < 2 ^ 64" using assms(2) by (simp add: fits_def PG_MAX_BUF_SIZE_def)
  obtain evs where "c_for_from n i (sendto_body env key meta req_len) (of_nat (length (pg_frame m)), buf, st) =
      c_for_from (n - 1) (i + 1) (sendto_body env key meta req_len)
        (0, buf + of_nat (length (pg_encode [m])), sent evs st)"
    "map pg_view evs = filter (\<lambda>m. is_supported_pg_msg_type (fst m)) [m]"
    using sendto_loop_frames [of env buf "[m]" "[]" n i key meta req_len st, unfolded enc] assms len by auto
  then show ?thesis using assms(4) by (auto simp: c_for_from_stop sendto_body_end)
qed

text \<open>
  C38: a payload above 16384 bytes is cut there and the parse resumes inside it, so the bytes
  behind the cut are taken for messages: a client that sends one message can make the probe
  report two, the second with a type and content of the client's choice.
\<close>

theorem oversize_message_splits:
  assumes "pg_parsed env ctx (pg_frame (tag, filler @ pg_frame m)) st"
    and "length filler = PG_MAX_BUF_SIZE" and "fits m"
  shows "\<exists>evs. tracepoint_enter_sendto env ctx st = Some (sent evs st) \<and>
    map pg_view evs = filter (\<lambda>m. is_supported_pg_msg_type (fst m)) [(tag, filler), m]"
proof -
  let ?r = "pg_frame m" and ?body = "sendto_body env (pg_key (PgSendto ctx) env) (new_event_meta env) (st_size ctx)"
  let ?w = "of_nat (length (filler @ ?r) + 4) :: u32"
  have len: "length (snd m) \<le> PG_MAX_BUF_SIZE" using assms(3) by (simp add: fits_def)
  have w: "pg_length ?w = of_nat (length filler)"
    using assms(2) len by (simp add: pg_length_def PG_MAX_BUF_SIZE_def unat_word_ariths unat_of_nat)
  have b: "pg_frame (tag, filler @ ?r) = pg_header tag ?w @ filler @ ?r"
    by (simp only: pg_frame_header append_assoc)
  have h: "holds (bpf_probe_read_user env) (st_buf ctx) (pg_header tag ?w @ filler @ ?r)"
    using assms(1) unfolding pg_parsed_def b by blast
  obtain evt where "bpf_ringbuf_reserve env 0 = Some evt" using assms(1) by (auto simp: pg_parsed_def)
  then obtain e where e: "?body 0 (of_nat (length filler + 5 + length ?r), st_buf ctx, st) =
      Some (Next (of_nat (length ?r), st_buf ctx + of_nat (length filler + 5), sent e st))"
    "map pg_view e = (if is_supported_pg_msg_type tag then [(tag, filler)] else [])"
    using sendto_body_chunk [OF h w, of 0 evt] assms(2) len by (force simp: PG_MAX_BUF_SIZE_def)
  have rest: "holds (bpf_probe_read_user env) (st_buf ctx + of_nat (length filler + 5)) ?r"
    using holds_append [of "bpf_probe_read_user env" "st_buf ctx" "pg_header tag ?w @ filler" ?r] h by (simp add: add.commute)
  have res: "\<forall>j. bpf_ringbuf_reserve env j \<noteq> None" using assms(1) by (simp add: pg_parsed_def)
  obtain es b where es: "c_for_from 63 1 ?body
      (of_nat (length ?r), st_buf ctx + of_nat (length filler + 5), sent e st) = Some (Inl (0, b, sent es (sent e st)))"
    "map pg_view es = filter (\<lambda>m. is_supported_pg_msg_type (fst m)) [m]"
    using sendto_loop_last [OF rest assms(3) res, of 63 1 "pg_key (PgSendto ctx) env"
        "new_event_meta env" "st_size ctx" "sent e st"] by auto
  have loop: "PG_MAX_LOOP = Suc 63" and "length (pg_frame (tag, filler @ ?r)) = length filler + 5 + length ?r"
    by (simp_all add: PG_MAX_LOOP_def)
  then have "tracepoint_enter_sendto env ctx st = Some (sent es (sent e st))"
    unfolding sendto_loop [OF assms(1)] loop c_for_from.simps
    using e(1) es(1) by simp
  then show ?thesis using e(2) es(2) by (intro exI [of _ "e @ es"]) simp
qed

section \<open>A session\<close>

text \<open>The start-up packet: its length, the protocol number, parameters.\<close>

definition pg_startup :: "u32 \<Rightarrow> bytes \<Rightarrow> bytes" where
  "pg_startup protocol params =
     rev (to_le 4 (of_nat (length params + 8) :: u32)) @ rev (to_le 4 protocol) @ params"

definition startup_kind :: "u32 \<Rightarrow> u32" where
  "startup_kind protocol =
     (if unat protocol div 65536 = 3 then CONN_FLAG_PLAINTEXT
      else if protocol = 80877103 then CONN_FLAG_SSL
      else if protocol = 80877104 then CONN_FLAG_GSSENC
      else CONN_FLAG_OTHER)"

lemma not_less_eight: "unat n = k + 8 \<Longrightarrow> \<not> n < (8 :: u64)"
  by (simp add: word_less_nat_alt)

lemma major_version: "drop_bit 16 p = (3 :: u32) \<longleftrightarrow> unat p div 65536 = 3"
proof -
  have "unat (drop_bit 16 p) = unat p div 65536"
    by (simp only: unat_drop_bit_eq) (simp add: drop_bit_eq_div)
  moreover have "drop_bit 16 p = 3 \<longleftrightarrow> unat (drop_bit 16 p) = unat (3 :: u32)"
    by (simp only: word_unat_eq_iff)
  ultimately show ?thesis by simp
qed

lemma detect_startup_flag_spec:
  assumes "holds (bpf_probe_read_user env) buf (pg_startup protocol params)" and "length params + 8 < 2 ^ 64"
  shows "detect_startup_flag env buf (of_nat (length (pg_startup protocol params))) = Some (startup_kind protocol)"
proof -
  obtain pre where pre: "bpf_probe_read_user env 8 buf = (0, pre)" "be32_at pre 4 = Some protocol"
  proof
    let ?len = "rev (to_le 4 (of_nat (length params + 8) :: u32))"
    show "bpf_probe_read_user env 8 buf = (0, ?len @ rev (to_le 4 protocol))"
      using holds_read [OF assms(1), of 8] by (simp add: pg_startup_def)
    show "be32_at (?len @ rev (to_le 4 protocol)) 4 = Some protocol"
      using be32_append [of ?len "rev (to_le 4 protocol)" 0] be32_front [of protocol] by simp
  qed
  have "\<not> (of_nat (length (pg_startup protocol params)) :: u64) < 8"
    using not_less_eight [OF u64_of_nat [OF assms(2)]] by (simp add: pg_startup_def add.commute)
  moreover have "drop_bit 16 protocol = 3 \<longleftrightarrow> unat protocol div 65536 = 3"
    by (rule major_version)
  ultimately show ?thesis
    by (simp add: detect_startup_flag_def pre startup_kind_def split del: if_split)
qed

lemma startup_tracked:
  assumes "pg_env_ok byte env" and "pg_inv st"
    and "map_of (pg_inflight st) (pg_key (PgSendto ctx) env) = None"
    and "length (pg_inflight st) < PG_MAX_ENTRIES"
    and "holds (bpf_probe_read_user env) (st_buf ctx) (pg_startup protocol params)" and "length params + 8 < 2 ^ 64"
    and "st_size ctx = of_nat (length (pg_startup protocol params))"
  shows "\<exists>st'. tracepoint_enter_sendto env ctx st = Some st' \<and> pg_inv st' \<and>
    map_of (pg_inflight st') (pg_key (PgSendto ctx) env) = Some (startup_kind protocol) \<and>
    pg_events st' = pg_events st"
proof -
  have "startup_kind protocol \<noteq> 0" by (simp add: startup_kind_def conn_flag_defs)
  then show ?thesis
    using pg_prog_ok [OF assms(1,2), of "PgSendto ctx"] assms(3,4,7) detect_startup_flag_spec [OF assms(5,6)]
    by (auto simp: tracepoint_enter_sendto_def Let_def map_of_hash_update)
qed

text \<open>
  C25: a whole session.  A connection that is not tracked yet sends a start-up packet of
  protocol version 3, any number of programs run for other connections, and then the
  connection sends messages: they are
  decoded exactly, as a single call's messages are, whatever the others
  did in between.
\<close>

theorem plaintext_session:
  assumes "pg_env_ok byte env" and "pg_reachable st"
    and "map_of (pg_inflight st) (pg_key (PgSendto ctx) env) = None"
    and "length (pg_inflight st) < PG_MAX_ENTRIES"
    and "holds (bpf_probe_read_user env) (st_buf ctx) (pg_startup protocol params)" and "length params + 8 < 2 ^ 64"
    and "st_size ctx = of_nat (length (pg_startup protocol params))"
    and "unat protocol div 65536 = 3"
    and "tracepoint_enter_sendto env ctx st = Some st1"
    and "pg_conns.others (pg_key (PgSendto ctx) env) st1 st2"
    and "pg_key (PgSendto ctx2) env2 = pg_key (PgSendto ctx) env"
    and "\<forall>j. bpf_ringbuf_reserve env2 j \<noteq> None"
    and "holds (bpf_probe_read_user env2) (st_buf ctx2) (pg_encode ms)" and "length (pg_encode ms) < 2 ^ 64"
    and "st_size ctx2 = of_nat (length (pg_encode ms))" and "list_all fits ms"
  shows "\<exists>evs. tracepoint_enter_sendto env2 ctx2 st2 = Some (sent evs st2) \<and>
    map pg_view evs = filter (\<lambda>m. is_supported_pg_msg_type (fst m)) (take PG_MAX_LOOP ms)"
proof -
  let ?k = "pg_key (PgSendto ctx) env"
  have kind: "startup_kind protocol = CONN_FLAG_PLAINTEXT"
    using assms(8) by (simp add: startup_kind_def)
  have "pg_inv st1 \<and> map_of (pg_inflight st1) ?k = Some CONN_FLAG_PLAINTEXT"
    using startup_tracked [OF assms(1) pg_reachable_inv [OF assms(2)] assms(3-7)] assms(9) kind by auto
  then have "map_of (pg_inflight st2) ?k = Some CONN_FLAG_PLAINTEXT"
    using pg_conns.others_keep [OF assms(10)] by simp
  then have "pg_parsed env2 ctx2 (pg_encode ms) st2"
    using assms(11-15) unfolding pg_parsed_def by (simp add: conn_flag_defs)
  then show ?thesis by (rule sendto_parses) (rule assms(16))
qed

section \<open>Concrete runs\<close>

text \<open>A thread with a buffer at a fixed address, and a ring that always has room.\<close>

definition pg_blank :: pg_event where
  "pg_blank = \<lparr>pe_timestamp_ns = 0, pe_pid_tgid = 0, pe_uid_gid = 0, pe_req_len = 0, pe_cgroup_id = 0,
     pe_data_len = 0, pe_fd = 0, pe_msg_type = 0, pe_data = replicate PG_MAX_BUF_SIZE 0xAA, pe_comm = []\<rparr>"

definition pg_demo_env :: "bytes \<Rightarrow> pg_env" where
  "pg_demo_env b = memory_env 77 (memory_at 0x1000 b) (\<lambda>_. Some pg_blank)"

definition pg_demo_ctx :: "bytes \<Rightarrow> sendto_ctx" where
  "pg_demo_ctx b = \<lparr>st_common = 0, st_syscall_nr = 44, st_fd = 9, st_buf = 0x1000, st_size = of_nat (length b),
     st_flags = 0, st_addr = 0, st_addr_len = 0\<rparr>"

definition pg_demo_state :: pg_state where
  "pg_demo_state = \<lparr>pg_inflight = [(\<lparr>ck_pid_tgid = 77, ck_fd = 9\<rparr>, CONN_FLAG_PLAINTEXT)],
     pg_events = \<lparr>rb_pending = 0, rb_log = []\<rparr>\<rparr>"

definition pg_fresh_state :: pg_state where
  "pg_fresh_state = \<lparr>pg_inflight = [], pg_events = \<lparr>rb_pending = 0, rb_log = []\<rparr>\<rparr>"

lemma pg_demo_holds: "length b < 2 ^ 64 \<Longrightarrow> holds (bpf_probe_read_user (pg_demo_env b)) 0x1000 b"
  unfolding holds_def pg_demo_env_def by (simp add: memory_env_def mem_read_at)

lemma pg_demo_env_ok: "pg_env_ok (memory_at 0x1000 b) (pg_demo_env b)"
  by (simp add: pg_env_ok_def pg_demo_env_def memory_env_ok) (simp add: memory_env_def pg_blank_def)

lemma pg_demo_parsed: "length b < 2 ^ 64 \<Longrightarrow> pg_parsed (pg_demo_env b) (pg_demo_ctx b) b pg_demo_state"
  using pg_demo_holds [of b]
  by (auto simp: pg_parsed_def pg_demo_env_def pg_demo_ctx_def pg_demo_state_def memory_env_def conn_flag_defs)

theorem sendto_decodes_witness:
  "let ms = [(0x50, [1]), (0x53, [2, 3]), (0x51, [4])]; b = pg_encode ms in
   \<exists>evs. tracepoint_enter_sendto (pg_demo_env b) (pg_demo_ctx b) pg_demo_state = Some (sent evs pg_demo_state) \<and>
     map pg_view evs = [(0x50, [1]), (0x51, [4])]"
  using sendto_decodes [OF pg_demo_parsed, of "[(0x50, [1]), (0x53, [2, 3]), (0x51, [4])]"]
  by (simp add: Let_def pg_encode_def fits_def PG_MAX_BUF_SIZE_def PG_MAX_LOOP_def is_supported_pg_msg_type_def)

theorem empty_message_ends_parse_witness:
  "let b = pg_encode [(0x51, [4])] @ pg_frame (0x58, []) @ pg_frame (0x51, [5]) in
   \<exists>evs. tracepoint_enter_sendto (pg_demo_env b) (pg_demo_ctx b) pg_demo_state = Some (sent evs pg_demo_state) \<and>
     map pg_view evs = [(0x51, [4])]"
  using empty_message_ends_parse [OF pg_demo_parsed, of "[(0x51, [4])]" "0x58" "pg_frame (0x51, [5])"]
  by (simp add: Let_def pg_encode_def fits_def PG_MAX_BUF_SIZE_def PG_MAX_LOOP_def is_supported_pg_msg_type_def)

theorem oversize_message_splits_witness:
  "let b = pg_frame (0x51, replicate PG_MAX_BUF_SIZE 7 @ pg_frame (0x43, [1, 2])) in
   \<exists>evs. tracepoint_enter_sendto (pg_demo_env b) (pg_demo_ctx b) pg_demo_state = Some (sent evs pg_demo_state) \<and>
     map pg_view evs = [(0x51, replicate PG_MAX_BUF_SIZE 7), (0x43, [1, 2])]"
proof -
  let ?f = "replicate PG_MAX_BUF_SIZE 7 :: bytes" and ?m = "(0x43, [1, 2]) :: pg_message"
  have "length (pg_frame (0x51, ?f @ pg_frame ?m)) < 2 ^ 64" and "fits ?m"
    by (simp_all add: fits_def PG_MAX_BUF_SIZE_def)
  then show ?thesis
    using oversize_message_splits [OF pg_demo_parsed length_replicate, of "0x51" 7 ?m]
    by (simp add: Let_def is_supported_pg_msg_type_def)
qed

theorem plaintext_session_witness:
  "let b = pg_startup 196608 [0]; ms = [(0x51, [4])]; b2 = pg_encode ms in
   \<exists>st1 evs. tracepoint_enter_sendto (pg_demo_env b) (pg_demo_ctx b) pg_fresh_state = Some st1 \<and>
     tracepoint_enter_sendto (pg_demo_env b2) (pg_demo_ctx b2) st1 = Some (sent evs st1) \<and>
     map pg_view evs = [(0x51, [4])]"
proof -
  let ?b = "pg_startup 196608 [0]" and ?ms = "[(0x51, [4])] :: pg_message list"
  let ?env = "pg_demo_env ?b" and ?ctx = "pg_demo_ctx ?b"
  let ?k = "pg_key (PgSendto ?ctx) ?env"
  have len: "length ?b < 2 ^ 64" "length (pg_encode ?ms) < 2 ^ 64" "length [0 :: u8] + 8 < 2 ^ 64"
    by (simp_all add: pg_startup_def pg_encode_def)
  have key: "pg_key (PgSendto (pg_demo_ctx (pg_encode ?ms))) (pg_demo_env (pg_encode ?ms)) = ?k"
    by (simp add: pg_demo_ctx_def pg_demo_env_def memory_env_def)
  have ctx: "st_buf (pg_demo_ctx c) = 0x1000" "st_size (pg_demo_ctx c) = of_nat (length c)" for c
    by (simp_all add: pg_demo_ctx_def)
  have fresh: "pg_reachable pg_fresh_state" "map_of (pg_inflight pg_fresh_state) ?k = None"
    "length (pg_inflight pg_fresh_state) < PG_MAX_ENTRIES"
    using pg_start by (simp_all add: pg_fresh_state_def PG_MAX_ENTRIES_def)
  have held: "holds (bpf_probe_read_user ?env) (st_buf ?ctx) ?b"
    "holds (bpf_probe_read_user (pg_demo_env (pg_encode ?ms))) (st_buf (pg_demo_ctx (pg_encode ?ms))) (pg_encode ?ms)"
    using pg_demo_holds [OF len(1)] pg_demo_holds [OF len(2)] by (simp_all add: ctx)
  obtain st1 where st1: "tracepoint_enter_sendto ?env ?ctx pg_fresh_state = Some st1"
    using pg_prog_ok [OF pg_demo_env_ok pg_reachable_inv [OF fresh(1)], of "PgSendto ?ctx"] by auto
  have room: "\<forall>j. bpf_ringbuf_reserve (pg_demo_env (pg_encode ?ms)) j \<noteq> None"
    by (simp add: pg_demo_env_def memory_env_def)
  have "unat (196608 :: u32) div 65536 = 3" and "list_all fits ?ms"
    by (simp_all add: fits_def PG_MAX_BUF_SIZE_def)
  then show ?thesis
    using plaintext_session [OF pg_demo_env_ok fresh held(1) len(3) ctx(2) _ st1 pg_conns.others_refl key room
        held(2) len(2) ctx(2)] st1
    by (auto simp: Let_def is_supported_pg_msg_type_def PG_MAX_LOOP_def)
qed

end
