(* ===== verification/Ssl_Common.thy ===== *)
theory Ssl_Common
  imports Bpf_Helpers
begin

text \<open>
  What both TLS probes share, \<^verbatim>\<open>tls/ssl_common.h\<close>: the arguments of a traced call, read from
  the registers (\<^verbatim>\<open>headers/common.h\<close>, \<^verbatim>\<open>headers/bpf_tracing.h\<close>), and the loop that ships the
  plaintext in chunks of at most 64 KiB.
\<close>

section \<open>Registers\<close>

record x86_pt_regs =
  r15 :: u64
  r14 :: u64
  r13 :: u64
  r12 :: u64
  rbp :: u64
  rbx :: u64
  r11 :: u64
  r10 :: u64
  r9 :: u64
  r8 :: u64
  rax :: u64
  rcx :: u64
  rdx :: u64
  rsi :: u64
  rdi :: u64
  orig_rax :: u64
  rip :: u64
  cs_reg :: u64
  eflags :: u64
  rsp :: u64
  ss_reg :: u64

text \<open>The 31 general registers of the second target, by number.\<close>

record user_pt_regs =
  arm_regs :: "nat \<Rightarrow> u64"
  arm_sp :: u64
  arm_pc :: u64
  arm_pstate :: u64

datatype pt_regs = X86_Regs x86_pt_regs | Arm64_Regs user_pt_regs

primrec PT_REGS_PARM1 :: "pt_regs \<Rightarrow> u64" where
  "PT_REGS_PARM1 (X86_Regs r) = rdi r"
| "PT_REGS_PARM1 (Arm64_Regs r) = arm_regs r 0"

primrec PT_REGS_PARM2 :: "pt_regs \<Rightarrow> u64" where
  "PT_REGS_PARM2 (X86_Regs r) = rsi r"
| "PT_REGS_PARM2 (Arm64_Regs r) = arm_regs r 1"

primrec PT_REGS_PARM3 :: "pt_regs \<Rightarrow> u64" where
  "PT_REGS_PARM3 (X86_Regs r) = rdx r"
| "PT_REGS_PARM3 (Arm64_Regs r) = arm_regs r 2"

primrec PT_REGS_PARM4 :: "pt_regs \<Rightarrow> u64" where
  "PT_REGS_PARM4 (X86_Regs r) = rcx r"
| "PT_REGS_PARM4 (Arm64_Regs r) = arm_regs r 3"

primrec PT_REGS_RC :: "pt_regs \<Rightarrow> u64" where
  "PT_REGS_RC (X86_Regs r) = rax r"
| "PT_REGS_RC (Arm64_Regs r) = arm_regs r 0"

section \<open>Data\<close>

definition SSL_MAX_BODY_SIZE :: nat where "SSL_MAX_BODY_SIZE = 64 * 1024"
definition SSL_MAX_LOOP :: nat where "SSL_MAX_LOOP = 64"
definition SSL_MAX_ENTRIES :: nat where "SSL_MAX_ENTRIES = 10240"
definition SSL_COMM_LEN :: nat where "SSL_COMM_LEN = 16"

lemmas ssl_sizes = SSL_MAX_BODY_SIZE_def SSL_MAX_LOOP_def

record call_info =
  ci_buf_addr :: u64
  ci_len :: u64
  ci_ssl_ptr :: u64

record call_info_ex =
  cx_base :: call_info
  cx_consumed_len_ptr :: u64

record ssl_event =
  le_timestamp_ns :: u64
  le_pid_tgid :: u64
  le_uid_gid :: u64
  le_cgroup_id :: u64
  le_ssl_ptr :: u64
  le_req_len :: u64
  le_data_len :: u64
  le_rw :: u8
  le_comm :: bytes
  le_data :: bytes

type_synonym ssl_env = "(ssl_event, unit) bpf_env"

text \<open>\<^verbatim>\<open>(int)\<close> of a register, widened back to \<^verbatim>\<open>u64\<close>: the low half, sign-extended.\<close>

definition int_cast :: "u64 \<Rightarrow> u64" where
  "int_cast w = scast (ucast w :: s32)"

definition new_call_info :: "pt_regs \<Rightarrow> call_info" where
  "new_call_info ctx =
     \<lparr>ci_buf_addr = PT_REGS_PARM2 ctx, ci_len = int_cast (PT_REGS_PARM3 ctx), ci_ssl_ptr = PT_REGS_PARM1 ctx\<rparr>"

definition new_call_info_ex :: "pt_regs \<Rightarrow> call_info_ex" where
  "new_call_info_ex ctx =
     \<lparr>cx_base = \<lparr>ci_buf_addr = PT_REGS_PARM2 ctx, ci_len = int_cast (PT_REGS_PARM3 ctx),
                 ci_ssl_ptr = PT_REGS_PARM1 ctx\<rparr>,
      cx_consumed_len_ptr = PT_REGS_PARM4 ctx\<rparr>"

text \<open>The extended calls take a \<^verbatim>\<open>size_t\<close>, of which the cast keeps the low half, sign-extended.\<close>

lemma ex_length_sign_extended:
  "PT_REGS_PARM3 ctx = 0x80000000 \<Longrightarrow> ci_len (cx_base (new_call_info_ex ctx)) = 0xFFFFFFFF80000000"
  by (simp add: new_call_info_ex_def int_cast_def)

section \<open>Shipping the plaintext\<close>

text \<open>
  One round; its locals are \<^verbatim>\<open>remaining\<close> and \<^verbatim>\<open>buf\<close>.  A failed reservation only costs a
  round.  The reserved record is not zeroed and the return value of the copy is ignored.
\<close>

definition emit_ssl_body ::
  "ssl_env \<Rightarrow> u64 \<Rightarrow> call_info \<Rightarrow> u8 \<Rightarrow> nat \<Rightarrow> u64 \<times> u64 \<times> ssl_event ringbuf \<Rightarrow>
     (u64 \<times> u64 \<times> ssl_event ringbuf, unit) flow option" where
  "emit_ssl_body env key info rw i = (\<lambda>(remaining, buf, rb).
     let len = ucast remaining :: u32 in
     if len = 0 then Some (Break (remaining, buf, rb))
     else let len = (if SSL_MAX_BODY_SIZE < unat len then of_nat SSL_MAX_BODY_SIZE else len) in
     case bpf_ringbuf_reserve env i of
       None \<Rightarrow> Some (Next (remaining, buf, rb))
     | Some evt \<Rightarrow>
         let rb = ringbuf_reserved rb;
             evt = evt\<lparr>le_pid_tgid := key,
                       le_ssl_ptr := ci_ssl_ptr info,
                       le_uid_gid := bpf_get_current_uid_gid env,
                       le_cgroup_id := bpf_get_current_cgroup_id env,
                       le_timestamp_ns := bpf_ktime_get_ns env,
                       le_req_len := ci_len info,
                       le_data_len := ucast len,
                       le_rw := rw,
                       le_comm := bpf_get_current_comm env SSL_COMM_LEN,
                       le_data := mem_write (le_data evt) (snd (bpf_probe_read_user env (unat len) buf))\<rparr>;
             rb = bpf_ringbuf_submit evt rb
         in Some (Next (remaining - ucast len, buf + ucast len, rb)))"

definition emit_ssl_events ::
  "ssl_env \<Rightarrow> u64 \<Rightarrow> call_info \<Rightarrow> u64 \<Rightarrow> u8 \<Rightarrow> ssl_event ringbuf \<Rightarrow> ssl_event ringbuf option" where
  "emit_ssl_events env key info remaining rw rb =
     (let max_bytes = of_nat (SSL_MAX_LOOP * SSL_MAX_BODY_SIZE);
          remaining = (if max_bytes < remaining then max_bytes else remaining)
      in do { r \<leftarrow> c_for SSL_MAX_LOOP (emit_ssl_body env key info rw) (remaining, ci_buf_addr info, rb);
              Some (case r of Inl (_, _, rb) \<Rightarrow> rb | Inr _ \<Rightarrow> rb) })"

section \<open>One round\<close>

definition chunk_event ::
  "ssl_env \<Rightarrow> u64 \<Rightarrow> call_info \<Rightarrow> u8 \<Rightarrow> nat \<Rightarrow> u64 \<Rightarrow> ssl_event \<Rightarrow> ssl_event" where
  "chunk_event env key info rw n buf evt =
     \<lparr>le_timestamp_ns = bpf_ktime_get_ns env, le_pid_tgid = key, le_uid_gid = bpf_get_current_uid_gid env,
      le_cgroup_id = bpf_get_current_cgroup_id env, le_ssl_ptr = ci_ssl_ptr info, le_req_len = ci_len info,
      le_data_len = of_nat n, le_rw = rw, le_comm = bpf_get_current_comm env SSL_COMM_LEN,
      le_data = mem_write (le_data evt) (snd (bpf_probe_read_user env n buf))\<rparr>"

lemma emit_ssl_body_step:
  assumes "n \<le> SSL_MAX_LOOP * SSL_MAX_BODY_SIZE"
  shows "emit_ssl_body env key info rw i (of_nat n, buf, rb) = Some
    (if n = 0 then Break (0, buf, rb)
     else case bpf_ringbuf_reserve env i of
       None \<Rightarrow> Next (of_nat n, buf, rb)
     | Some evt \<Rightarrow> let k = min n SSL_MAX_BODY_SIZE in
         Next (of_nat (n - k), buf + of_nat k,
           rb\<lparr>rb_log := rb_log rb @ [chunk_event env key info rw k buf evt]\<rparr>))"
proof -
  let ?k = "min n SSL_MAX_BODY_SIZE"
  have u64: "unat (of_nat n :: u64) = n"
    using assms by (intro u64_of_nat) (simp add: ssl_sizes)
  have u32: "unat (ucast (of_nat n :: u64) :: u32) = n"
    using assms u64 by (simp add: unsigned_ucast_eq take_bit_nat_eq_self ssl_sizes)
  have zero: "ucast (of_nat n :: u64) = (0 :: u32) \<longleftrightarrow> n = 0"
    using u32 by (metis unat_0 unat_eq_zero)
  define len :: u32 where "len = (if SSL_MAX_BODY_SIZE < n then of_nat SSL_MAX_BODY_SIZE
    else ucast (of_nat n :: u64))"
  have len: "unat len = ?k"
    using u32 by (simp add: len_def min_def SSL_MAX_BODY_SIZE_def)
  then have len64: "(ucast len :: u64) = of_nat ?k"
    using u64_of_nat [of ?k] by (simp add: word_unat_eq_iff unat_ucast_up SSL_MAX_BODY_SIZE_def)
  have sub: "(of_nat n :: u64) - of_nat ?k = of_nat (n - ?k)"
    by (simp add: of_nat_diff)
  show ?thesis
    unfolding emit_ssl_body_def Let_def prod.case zero u32 len_def [symmetric] len64 len sub
    by (simp add: chunk_event_def split: option.splits)
qed

section \<open>The chunks as a stream\<close>

definition ssl_payload :: "ssl_event \<Rightarrow> bytes" where
  "ssl_payload e = take (unat (le_data_len e)) (le_data e)"

text \<open>How many of the first \<open>i\<close> reservations succeed.\<close>

definition granted :: "ssl_env \<Rightarrow> nat \<Rightarrow> nat" where
  "granted env i = length (filter (\<lambda>j. bpf_ringbuf_reserve env j \<noteq> None) [0..<i])"

lemma granted_Suc: "granted env (Suc i) = granted env i + (if bpf_ringbuf_reserve env i = None then 0 else 1)"
  by (simp add: granted_def)

lemma granted_mono: "i \<le> j \<Longrightarrow> granted env i \<le> granted env j"
  by (induction j) (auto simp: granted_Suc le_Suc_eq)

lemma granted_all: "(\<And>j. j < i \<Longrightarrow> bpf_ringbuf_reserve env j \<noteq> None) \<Longrightarrow> granted env i = i"
  by (induction i) (auto simp: granted_Suc granted_def)

text \<open>What every chunk of a call says about the call.\<close>

definition chunk_of :: "ssl_env \<Rightarrow> u64 \<Rightarrow> call_info \<Rightarrow> u8 \<Rightarrow> ssl_event \<Rightarrow> bool" where
  "chunk_of env key info rw e \<longleftrightarrow>
     le_pid_tgid e = key \<and> le_ssl_ptr e = ci_ssl_ptr info \<and> le_req_len e = ci_len info \<and> le_rw e = rw \<and>
     le_timestamp_ns e = bpf_ktime_get_ns env \<and> le_uid_gid e = bpf_get_current_uid_gid env \<and>
     le_cgroup_id e = bpf_get_current_cgroup_id env \<and> le_comm e = bpf_get_current_comm env SSL_COMM_LEN \<and>
     0 < unat (le_data_len e) \<and> unat (le_data_len e) \<le> SSL_MAX_BODY_SIZE"

lemma chunk_event_of:
  "0 < n \<Longrightarrow> n \<le> SSL_MAX_BODY_SIZE \<Longrightarrow> chunk_of env key info rw (chunk_event env key info rw n buf evt)"
  using u64_of_nat [of n] by (simp add: chunk_of_def chunk_event_def SSL_MAX_BODY_SIZE_def)

lemma chunk_event_payload:
  assumes "holds (bpf_probe_read_user env) a b" and "off + n \<le> length b" and "n \<le> SSL_MAX_BODY_SIZE"
  shows "ssl_payload (chunk_event env key info rw n (a + of_nat off) evt) = take n (drop off b)"
proof -
  have "bpf_probe_read_user env n (a + of_nat off) = (0, take n (drop off b))"
    using assms(1,2) by (simp add: holds_def)
  moreover have "unat (of_nat n :: u64) = length (take n (drop off b))"
    using assms(2,3) u64_of_nat [of n] by (simp add: SSL_MAX_BODY_SIZE_def)
  ultimately show ?thesis by (simp only: ssl_payload_def chunk_event_def ssl_event.simps snd_conv take_mem_write)
qed

text \<open>The state of the loop after \<open>i\<close> rounds over a buffer \<open>b\<close>.\<close>

definition shipped ::
  "ssl_env \<Rightarrow> u64 \<Rightarrow> call_info \<Rightarrow> u8 \<Rightarrow> ssl_event ringbuf \<Rightarrow> bytes \<Rightarrow> nat \<Rightarrow>
     u64 \<times> u64 \<times> ssl_event ringbuf \<Rightarrow> bool" where
  "shipped env key info rw rb b i = (\<lambda>(remaining, buf, rb').
     let off = min (length b) (granted env i * SSL_MAX_BODY_SIZE) in
     remaining = of_nat (length b - off) \<and> buf = ci_buf_addr info + of_nat off \<and>
     (\<exists>evs. rb' = rb\<lparr>rb_log := rb_log rb @ evs\<rparr> \<and> concat (map ssl_payload evs) = take off b \<and>
        length evs \<le> i \<and> (\<forall>e \<in> set evs. chunk_of env key info rw e)))"

lemma min_step: "min n (a + m) = min n a + min (n - min n a) (m :: nat)"
  by arith

lemma shipped_round:
  assumes "holds (bpf_probe_read_user env) (ci_buf_addr info) b"
    and "length b \<le> SSL_MAX_LOOP * SSL_MAX_BODY_SIZE" and "shipped env key info rw rb b i s"
  shows "case emit_ssl_body env key info rw i s of
      None \<Rightarrow> False
    | Some (Next s') \<Rightarrow> shipped env key info rw rb b (Suc i) s'
    | Some (Break s') \<Rightarrow> s' = s \<and> length b \<le> granted env i * SSL_MAX_BODY_SIZE
    | Some (Return _) \<Rightarrow> False"
proof -
  let ?off = "min (length b) (granted env i * SSL_MAX_BODY_SIZE)"
  let ?n = "length b - ?off" and ?k = "min (length b - ?off) SSL_MAX_BODY_SIZE"
  obtain evs where s: "s = (of_nat ?n, ci_buf_addr info + of_nat ?off, rb\<lparr>rb_log := rb_log rb @ evs\<rparr>)"
    "concat (map ssl_payload evs) = take ?off b" "length evs \<le> i" "\<forall>e \<in> set evs. chunk_of env key info rw e"
    using assms(3) by (cases s) (auto simp: shipped_def Let_def)
  have body: "emit_ssl_body env key info rw i s = Some
      (if ?n = 0 then Break s
       else case bpf_ringbuf_reserve env i of None \<Rightarrow> Next s
       | Some evt \<Rightarrow> Next (of_nat (?n - ?k), ci_buf_addr info + of_nat ?off + of_nat ?k,
           rb\<lparr>rb_log := rb_log rb @ evs @
              [chunk_event env key info rw ?k (ci_buf_addr info + of_nat ?off) evt]\<rparr>))"
    using emit_ssl_body_step [of ?n env key info rw i] assms(2) unfolding s(1)
    by (auto simp: Let_def split: option.splits)
  have "shipped env key info rw rb b (Suc i) (of_nat (?n - ?k), ci_buf_addr info + of_nat ?off + of_nat ?k,
      rb\<lparr>rb_log := rb_log rb @ evs @ [chunk_event env key info rw ?k (ci_buf_addr info + of_nat ?off) evt]\<rparr>)"
    if "bpf_ringbuf_reserve env i = Some evt" "?n \<noteq> 0" for evt
  proof -
    have off: "min (length b) (granted env (Suc i) * SSL_MAX_BODY_SIZE) = ?off + ?k"
      using that(1) min_step [of "length b" "granted env i * SSL_MAX_BODY_SIZE" SSL_MAX_BODY_SIZE]
      by (simp add: granted_Suc add.commute)
    have "?off + ?k \<le> length b" and k: "?k \<le> SSL_MAX_BODY_SIZE" "0 < ?k"
      using that(2) by (auto simp: SSL_MAX_BODY_SIZE_def)
    then have "concat (map ssl_payload (evs @ [chunk_event env key info rw ?k (ci_buf_addr info + of_nat ?off) evt])) =
        take (?off + ?k) b"
      using chunk_event_payload [OF assms(1), of ?off ?k] s(2) by (simp add: take_add)
    then show ?thesis
      using s(3,4) chunk_event_of [OF k(2,1)] unfolding shipped_def off Let_def prod.case
      by (intro conjI exI [of _ "evs @ [chunk_event env key info rw ?k (ci_buf_addr info + of_nat ?off) evt]"])
        (simp_all add: add.assoc)
  qed
  moreover have "shipped env key info rw rb b (Suc i) s" if "bpf_ringbuf_reserve env i = None"
    using that assms(3) by (cases s) (auto simp: shipped_def Let_def granted_Suc le_SucI)
  ultimately show ?thesis
    unfolding body by (auto split: option.splits)
qed

lemma take_min_eq: "x \<le> y \<Longrightarrow> x = y \<or> length c \<le> x \<Longrightarrow> take (min (length c) x) c = take y c"
  by (auto simp: min_def)

lemma emit_ssl_loop:
  assumes "holds (bpf_probe_read_user env) (ci_buf_addr info) b"
    and "length b \<le> SSL_MAX_LOOP * SSL_MAX_BODY_SIZE"
  shows "\<exists>r. c_for n (emit_ssl_body env key info rw) (of_nat (length b), ci_buf_addr info, rb) = Some r \<and>
    (\<exists>s. r = Inl s \<and> (\<exists>i \<le> n. shipped env key info rw rb b i s \<and>
      (i = n \<or> length b \<le> granted env i * SSL_MAX_BODY_SIZE)))"
  (is "\<exists>r. _ \<and> ?Q r")
proof (rule c_for_rule [where I = "shipped env key info rw rb b"])
  show "case emit_ssl_body env key info rw j s of None \<Rightarrow> False
    | Some (Next s') \<Rightarrow> shipped env key info rw rb b (Suc j) s'
    | Some (Break s') \<Rightarrow> ?Q (Inl s') | Some (Return r) \<Rightarrow> ?Q (Inr r)"
    if "shipped env key info rw rb b j s" "j < n" for j s
    using shipped_round [OF assms that(1)] that by (auto split: option.splits flow.splits intro!: exI [of _ j])
qed (auto simp: shipped_def granted_def intro!: exI [of _ "[]"])

text \<open>
  The bytes of a call of up to 4 MiB arrive as one contiguous prefix, however the reservations
  fail in between, and every successful reservation carries 64 KiB of it or all that is left.
\<close>

lemma emit_ssl_events_ships:
  assumes "holds (bpf_probe_read_user env) (ci_buf_addr info) b" and "length b < 2 ^ 64"
  shows "\<exists>evs. emit_ssl_events env key info (of_nat (length b)) rw rb = Some (rb\<lparr>rb_log := rb_log rb @ evs\<rparr>) \<and>
    concat (map ssl_payload evs) =
      take (granted env SSL_MAX_LOOP * SSL_MAX_BODY_SIZE) (take (SSL_MAX_LOOP * SSL_MAX_BODY_SIZE) b) \<and>
    length evs \<le> SSL_MAX_LOOP \<and> (\<forall>e \<in> set evs. chunk_of env key info rw e)"
proof -
  let ?b = "take (SSL_MAX_LOOP * SSL_MAX_BODY_SIZE) b"
  have clamp: "(if of_nat (SSL_MAX_LOOP * SSL_MAX_BODY_SIZE) < (of_nat (length b) :: u64)
      then of_nat (SSL_MAX_LOOP * SSL_MAX_BODY_SIZE) else of_nat (length b)) = (of_nat (length ?b) :: u64)"
    using u64_of_nat [OF assms(2)] by (simp add: word_less_nat_alt min_def ssl_sizes)
  obtain rem buf rb' i where r: "c_for SSL_MAX_LOOP (emit_ssl_body env key info rw)
      (of_nat (length ?b), ci_buf_addr info, rb) = Some (Inl (rem, buf, rb'))"
    "i \<le> SSL_MAX_LOOP" "shipped env key info rw rb ?b i (rem, buf, rb')"
    "i = SSL_MAX_LOOP \<or> length ?b \<le> granted env i * SSL_MAX_BODY_SIZE"
    using emit_ssl_loop [OF holds_take [OF assms(1)], of "SSL_MAX_LOOP * SSL_MAX_BODY_SIZE" SSL_MAX_LOOP key rw rb]
    by auto
  have "granted env i * SSL_MAX_BODY_SIZE \<le> granted env SSL_MAX_LOOP * SSL_MAX_BODY_SIZE"
    using granted_mono [OF r(2)] by simp
  then have "take (min (length ?b) (granted env i * SSL_MAX_BODY_SIZE)) ?b =
      take (granted env SSL_MAX_LOOP * SSL_MAX_BODY_SIZE) ?b"
    using r(4) by (intro take_min_eq) auto
  with r show ?thesis
    unfolding emit_ssl_events_def clamp Let_def by (auto simp: shipped_def Let_def)
qed

section \<open>Well-formed events\<close>

definition ssl_env_ok :: "(u64 \<Rightarrow> u8) \<Rightarrow> ssl_env \<Rightarrow> bool" where
  "ssl_env_ok byte env \<longleftrightarrow> env_ok byte env \<and>
     (\<forall>n e. bpf_ringbuf_reserve env n = Some e \<longrightarrow> length (le_data e) = SSL_MAX_BODY_SIZE)"

definition ssl_event_ok :: "ssl_event \<Rightarrow> bool" where
  "ssl_event_ok e \<longleftrightarrow> le_rw e \<in> {2, 4} \<and>
     0 < unat (le_data_len e) \<and> unat (le_data_len e) \<le> SSL_MAX_BODY_SIZE \<and>
     length (le_data e) = SSL_MAX_BODY_SIZE \<and> length (le_comm e) = SSL_COMM_LEN"

definition ssl_ring_ok :: "ssl_event ringbuf \<Rightarrow> bool" where
  "ssl_ring_ok rb \<longleftrightarrow> rb_pending rb = 0 \<and> (\<forall>e \<in> set (rb_log rb). ssl_event_ok e)"

lemma chunk_event_ok:
  assumes "ssl_env_ok byte env" and "bpf_ringbuf_reserve env i = Some evt" and "0 < n"
    and "n \<le> SSL_MAX_BODY_SIZE" and "rw \<in> {2, 4}"
  shows "ssl_event_ok (chunk_event env key info rw n buf evt)"
proof -
  have env: "env_ok byte env" "length (le_data evt) = SSL_MAX_BODY_SIZE"
    using assms(1,2) by (auto simp: ssl_env_ok_def)
  have "length (snd (bpf_probe_read_user env n buf)) \<le> length (le_data evt)"
    using probe_memory.read_size [OF env_okD(1) [OF env(1)], of n buf] assms(4) env(2) by simp
  then show ?thesis
    using assms(3-5) env env_okD(3) [OF env(1)] u64_of_nat [of n]
    by (simp add: ssl_event_ok_def chunk_event_def SSL_MAX_BODY_SIZE_def)
qed

text \<open>Whatever the reads return, the loop ends and appends well-formed events only.\<close>

lemma emit_ssl_events_ok:
  assumes "ssl_env_ok byte env" and "ssl_ring_ok rb" and "rw \<in> {2, 4}"
  shows "\<exists>rb'. emit_ssl_events env key info remaining rw rb = Some rb' \<and> ssl_ring_ok rb'"
proof -
  let ?max = "SSL_MAX_LOOP * SSL_MAX_BODY_SIZE"
  define m :: u64 where "m = (if of_nat ?max < remaining then of_nat ?max else remaining)"
  have m: "unat m \<le> ?max"
    by (auto simp: m_def word_less_nat_alt ssl_sizes)
  have "\<exists>r. c_for SSL_MAX_LOOP (emit_ssl_body env key info rw) (m, ci_buf_addr info, rb) = Some r \<and>
      (case r of Inl (_, _, rb') \<Rightarrow> ssl_ring_ok rb' | Inr _ \<Rightarrow> False)"
    (is "\<exists>r. _ \<and> ?Q r")
  proof (rule c_for_rule [where I = "\<lambda>_ (m, _, rb'). unat m \<le> ?max \<and> ssl_ring_ok rb'"])
    fix j and s :: "u64 \<times> u64 \<times> ssl_event ringbuf"
    obtain m b rb' where s: "s = (m, b, rb')" by (cases s)
    assume "case s of (m, _, rb') \<Rightarrow> unat m \<le> ?max \<and> ssl_ring_ok rb'"
    with s have m: "unat m \<le> ?max" "ssl_ring_ok rb'" by simp_all
    have ok: "ssl_event_ok (chunk_event env key info rw (min (unat m) SSL_MAX_BODY_SIZE) b evt)"
      if "bpf_ringbuf_reserve env j = Some evt" "unat m \<noteq> 0" for evt
      using chunk_event_ok [OF assms(1) that(1) _ _ assms(3)] that(2) by (simp add: SSL_MAX_BODY_SIZE_def)
    have le: "unat (of_nat (unat m - k) :: u64) \<le> ?max" for k
      using m(1) u64_of_nat [of "unat m - k"] by (simp add: ssl_sizes)
    show "case emit_ssl_body env key info rw j s of None \<Rightarrow> False
      | Some (Next s') \<Rightarrow> (case s' of (m, _, rb') \<Rightarrow> unat m \<le> ?max \<and> ssl_ring_ok rb')
      | Some (Break s') \<Rightarrow> ?Q (Inl s') | Some (Return r) \<Rightarrow> ?Q (Inr r)"
      using emit_ssl_body_step [OF m(1), of env key info rw j b rb'] m ok le unfolding s
      by (auto simp: Let_def ssl_ring_ok_def split: option.splits simp del: of_nat_diff)
  qed (use m assms(2) in auto)
  then obtain r where r: "c_for SSL_MAX_LOOP (emit_ssl_body env key info rw) (m, ci_buf_addr info, rb) = Some r" "?Q r"
    by blast
  from r show ?thesis
    unfolding emit_ssl_events_def m_def [symmetric] Let_def by (cases r) auto
qed

end
