(* ===== verification/Openssl.thy ===== *)
theory Openssl
  imports Ssl_Common
begin

text \<open>
  The OpenSSL probe, \<^verbatim>\<open>tls/ssl.bpf.c\<close>: an entry program stores the arguments of the call, the
  exit program ships the bytes the call reports to have moved.  The \<^verbatim>\<open>_ex\<close> variants return
  the count through a pointer and use a map of their own.  Every program returns 0.
\<close>

section \<open>The programs\<close>

record openssl_state =
  start_map :: "(u64, call_info) bpf_hash"
  start_ex_map :: "(u64, call_info_ex) bpf_hash"
  ssl_events :: "ssl_event ringbuf"

definition probe_ssl_read_entry :: "ssl_env \<Rightarrow> pt_regs \<Rightarrow> openssl_state \<Rightarrow> openssl_state option" where
  "probe_ssl_read_entry env ctx st =
     Some (st\<lparr>start_map := hash_update SSL_MAX_ENTRIES (bpf_get_current_pid_tgid env) (new_call_info ctx) (start_map st)\<rparr>)"

definition probe_ssl_write_entry :: "ssl_env \<Rightarrow> pt_regs \<Rightarrow> openssl_state \<Rightarrow> openssl_state option" where
  "probe_ssl_write_entry env ctx st =
     Some (st\<lparr>start_map := hash_update SSL_MAX_ENTRIES (bpf_get_current_pid_tgid env) (new_call_info ctx) (start_map st)\<rparr>)"

definition probe_ssl_read_ex_entry :: "ssl_env \<Rightarrow> pt_regs \<Rightarrow> openssl_state \<Rightarrow> openssl_state option" where
  "probe_ssl_read_ex_entry env ctx st =
     Some (st\<lparr>start_ex_map := hash_update SSL_MAX_ENTRIES (bpf_get_current_pid_tgid env) (new_call_info_ex ctx) (start_ex_map st)\<rparr>)"

definition probe_ssl_write_ex_entry :: "ssl_env \<Rightarrow> pt_regs \<Rightarrow> openssl_state \<Rightarrow> openssl_state option" where
  "probe_ssl_write_ex_entry env ctx st =
     Some (st\<lparr>start_ex_map := hash_update SSL_MAX_ENTRIES (bpf_get_current_pid_tgid env) (new_call_info_ex ctx) (start_ex_map st)\<rparr>)"

text \<open>\<^verbatim>\<open>int ret = PT_REGS_RC(ctx)\<close>\<close>

definition ret_of :: "pt_regs \<Rightarrow> s32" where
  "ret_of ctx = ucast (PT_REGS_RC ctx)"

definition ssl_cleanup :: "u64 \<Rightarrow> openssl_state \<Rightarrow> openssl_state" where
  "ssl_cleanup key st = st\<lparr>start_map := bpf_map_delete_elem key (start_map st)\<rparr>"

definition ssl_ex_cleanup :: "u64 \<Rightarrow> openssl_state \<Rightarrow> openssl_state" where
  "ssl_ex_cleanup key st = st\<lparr>start_ex_map := bpf_map_delete_elem key (start_ex_map st)\<rparr>"

definition probe_ssl_read_exit :: "ssl_env \<Rightarrow> pt_regs \<Rightarrow> openssl_state \<Rightarrow> openssl_state option" where
  "probe_ssl_read_exit env ctx st =
     (let key = bpf_get_current_pid_tgid env in
      case bpf_map_lookup_elem (start_map st) key of
        None \<Rightarrow> Some st
      | Some info \<Rightarrow>
          let ret = ret_of ctx in
          if sint ret \<le> 0 then Some (ssl_cleanup key st)
          else do { rb \<leftarrow> emit_ssl_events env key info (scast ret) 4 (ssl_events st);
                    Some (ssl_cleanup key (st\<lparr>ssl_events := rb\<rparr>)) })"

definition probe_ssl_read_ex_exit :: "ssl_env \<Rightarrow> pt_regs \<Rightarrow> openssl_state \<Rightarrow> openssl_state option" where
  "probe_ssl_read_ex_exit env ctx st =
     (let key = bpf_get_current_pid_tgid env in
      case bpf_map_lookup_elem (start_ex_map st) key of
        None \<Rightarrow> Some (ssl_ex_cleanup key st)
      | Some info \<Rightarrow>
          if ret_of ctx \<noteq> 1 then Some (ssl_ex_cleanup key st)
          else let readbytes = le_word (mem_write (replicate 8 0)
                     (snd (bpf_probe_read_user env 8 (cx_consumed_len_ptr info)))) :: u64 in
          do { rb \<leftarrow> emit_ssl_events env key (cx_base info) readbytes 4 (ssl_events st);
               Some (ssl_ex_cleanup key (st\<lparr>ssl_events := rb\<rparr>)) })"

definition probe_ssl_write_exit :: "ssl_env \<Rightarrow> pt_regs \<Rightarrow> openssl_state \<Rightarrow> openssl_state option" where
  "probe_ssl_write_exit env ctx st =
     (let key = bpf_get_current_pid_tgid env in
      case bpf_map_lookup_elem (start_map st) key of
        None \<Rightarrow> Some st
      | Some info \<Rightarrow>
          let ret = ret_of ctx in
          if sint ret \<le> 0 then Some (ssl_cleanup key st)
          else do { rb \<leftarrow> emit_ssl_events env key info (scast ret) 2 (ssl_events st);
                    Some (ssl_cleanup key (st\<lparr>ssl_events := rb\<rparr>)) })"

definition probe_ssl_write_ex_exit :: "ssl_env \<Rightarrow> pt_regs \<Rightarrow> openssl_state \<Rightarrow> openssl_state option" where
  "probe_ssl_write_ex_exit env ctx st =
     (let key = bpf_get_current_pid_tgid env in
      case bpf_map_lookup_elem (start_ex_map st) key of
        None \<Rightarrow> Some (ssl_ex_cleanup key st)
      | Some info \<Rightarrow>
          if ret_of ctx \<noteq> 1 then Some (ssl_ex_cleanup key st)
          else let written = le_word (mem_write (replicate 8 0)
                     (snd (bpf_probe_read_user env 8 (cx_consumed_len_ptr info)))) :: u64 in
          do { rb \<leftarrow> emit_ssl_events env key (cx_base info) written 2 (ssl_events st);
               Some (ssl_ex_cleanup key (st\<lparr>ssl_events := rb\<rparr>)) })"

datatype ssl_call = SslReadEntry | SslWriteEntry | SslReadExEntry | SslWriteExEntry
  | SslReadExit | SslWriteExit | SslReadExExit | SslWriteExExit

primrec ssl_prog :: "ssl_call \<Rightarrow> ssl_env \<Rightarrow> pt_regs \<Rightarrow> openssl_state \<Rightarrow> openssl_state option" where
  "ssl_prog SslReadEntry = probe_ssl_read_entry"
| "ssl_prog SslWriteEntry = probe_ssl_write_entry"
| "ssl_prog SslReadExEntry = probe_ssl_read_ex_entry"
| "ssl_prog SslWriteExEntry = probe_ssl_write_ex_entry"
| "ssl_prog SslReadExit = probe_ssl_read_exit"
| "ssl_prog SslWriteExit = probe_ssl_write_exit"
| "ssl_prog SslReadExExit = probe_ssl_read_ex_exit"
| "ssl_prog SslWriteExExit = probe_ssl_write_ex_exit"

lemmas ssl_prog_defs = probe_ssl_read_entry_def probe_ssl_write_entry_def probe_ssl_read_ex_entry_def
  probe_ssl_write_ex_entry_def probe_ssl_read_exit_def probe_ssl_write_exit_def
  probe_ssl_read_ex_exit_def probe_ssl_write_ex_exit_def ssl_cleanup_def ssl_ex_cleanup_def

section \<open>Invariant\<close>

definition openssl_inv :: "openssl_state \<Rightarrow> bool" where
  "openssl_inv st \<longleftrightarrow> hash_ok SSL_MAX_ENTRIES (start_map st) \<and> hash_ok SSL_MAX_ENTRIES (start_ex_map st) \<and>
     ssl_ring_ok (ssl_events st)"

text \<open>What a program of thread \<open>p\<close> may do to the state.\<close>

definition ssl_keeps :: "u64 \<Rightarrow> openssl_state \<Rightarrow> openssl_state \<Rightarrow> bool" where
  "ssl_keeps p st st' \<longleftrightarrow> openssl_inv st' \<and>
    (\<forall>q. q \<noteq> p \<longrightarrow> map_of (start_map st') q = map_of (start_map st) q \<and>
       map_of (start_ex_map st') q = map_of (start_ex_map st) q)"

lemma ssl_keeps_rules [wf_intros]:
  assumes "openssl_inv st"
  shows "ssl_keeps p st st"
    and "ssl_keeps p st (ssl_cleanup p st)" and "ssl_keeps p st (ssl_ex_cleanup p st)"
    and "ssl_ring_ok rb \<Longrightarrow> ssl_keeps p st (ssl_cleanup p (st\<lparr>ssl_events := rb\<rparr>))"
    and "ssl_ring_ok rb \<Longrightarrow> ssl_keeps p st (ssl_ex_cleanup p (st\<lparr>ssl_events := rb\<rparr>))"
    and "ssl_keeps p st (st\<lparr>start_map := hash_update SSL_MAX_ENTRIES p i (start_map st)\<rparr>)"
    and "ssl_keeps p st (st\<lparr>start_ex_map := hash_update SSL_MAX_ENTRIES p j (start_ex_map st)\<rparr>)"
  using assms
  by (auto simp: ssl_keeps_def openssl_inv_def ssl_cleanup_def ssl_ex_cleanup_def hash_ok_update
      hash_ok_delete delete_conv' hash.update_frame [of SSL_MAX_ENTRIES])

lemma ssl_prog_ok:
  assumes "ssl_env_ok byte env" and "openssl_inv st"
  shows "\<exists>st'. ssl_prog c env ctx st = Some st' \<and> ssl_keeps (bpf_get_current_pid_tgid env) st st'"
proof -
  note keeps = ssl_keeps_rules [OF assms(2), where p = "bpf_get_current_pid_tgid env"]
  have ring: "ssl_ring_ok (ssl_events st)" using assms(2) by (simp add: openssl_inv_def)
  have finish: "\<exists>st'. (do { rb \<leftarrow> emit_ssl_events env key info n rw (ssl_events st); Some (f rb) }) = Some st' \<and>
      ssl_keeps (bpf_get_current_pid_tgid env) st st'"
    if "rw \<in> {2, 4}" "\<And>rb. ssl_ring_ok rb \<Longrightarrow> ssl_keeps (bpf_get_current_pid_tgid env) st (f rb)" for key info n rw f
    using emit_ssl_events_ok [OF assms(1) ring that(1), of key info n] that(2) by auto
  show ?thesis
    by (cases c) (simp_all add: probe_ssl_read_entry_def probe_ssl_write_entry_def probe_ssl_read_ex_entry_def
        probe_ssl_write_ex_entry_def probe_ssl_read_exit_def probe_ssl_write_exit_def
        probe_ssl_read_ex_exit_def probe_ssl_write_ex_exit_def Let_def keeps finish split: option.splits)
qed

inductive openssl_reachable :: "openssl_state \<Rightarrow> bool" where
  openssl_start: "openssl_reachable \<lparr>start_map = [], start_ex_map = [], ssl_events = \<lparr>rb_pending = 0, rb_log = []\<rparr>\<rparr>"
| openssl_step: "openssl_reachable st \<Longrightarrow> ssl_env_ok byte env \<Longrightarrow> ssl_prog c env ctx st = Some st' \<Longrightarrow>
    openssl_reachable st'"

lemma openssl_reachable_inv: "openssl_reachable st \<Longrightarrow> openssl_inv st"
proof (induction rule: openssl_reachable.induct)
  case openssl_start
  show ?case by (simp add: openssl_inv_def hash_ok_def ssl_ring_ok_def)
next
  case (openssl_step st byte env c ctx st')
  with ssl_prog_ok [OF openssl_step.hyps(2) openssl_step.IH, of c ctx] show ?case
    by (auto simp: ssl_keeps_def)
qed

section \<open>Calls are paired by thread\<close>

definition ssl_thread_step :: "u64 \<Rightarrow> openssl_state \<Rightarrow> openssl_state \<Rightarrow> bool" where
  "ssl_thread_step p st st' \<longleftrightarrow> (\<exists>byte env c ctx. ssl_env_ok byte env \<and>
     bpf_get_current_pid_tgid env = p \<and> ssl_prog c env ctx st = Some st')"

definition ssl_exit_step :: "ssl_call set \<Rightarrow> u64 \<Rightarrow> openssl_state \<Rightarrow> openssl_state \<Rightarrow> bool" where
  "ssl_exit_step cs p st st' \<longleftrightarrow> (\<exists>byte env c ctx. c \<in> cs \<and> ssl_env_ok byte env \<and>
     bpf_get_current_pid_tgid env = p \<and> ssl_prog c env ctx st = Some st')"

lemma ssl_thread_step_ok:
  assumes "openssl_inv s" and "ssl_thread_step p s s'"
  shows "openssl_inv s'"
    and "q \<noteq> p \<Longrightarrow> map_of (start_map s') q = map_of (start_map s) q"
    and "q \<noteq> p \<Longrightarrow> map_of (start_ex_map s') q = map_of (start_ex_map s) q"
proof -
  have "ssl_keeps p s s'"
    using assms(2) ssl_prog_ok [OF _ assms(1)] unfolding ssl_thread_step_def by (metis option.inject)
  then show "openssl_inv s'"
    and "q \<noteq> p \<Longrightarrow> map_of (start_map s') q = map_of (start_map s) q"
    and "q \<noteq> p \<Longrightarrow> map_of (start_ex_map s') q = map_of (start_ex_map s) q"
    by (simp_all add: ssl_keeps_def)
qed

lemma ssl_exit_clears:
  "ssl_exit_step {SslReadExit, SslWriteExit} p s s' \<Longrightarrow> map_of (start_map s') p = None"
  "ssl_exit_step {SslReadExExit, SslWriteExExit} p s s' \<Longrightarrow> map_of (start_ex_map s') p = None"
  by (auto simp: ssl_exit_step_def ssl_prog_defs Let_def bind_eq_Some_conv delete_conv'
      split: option.splits if_splits)

lemma ssl_exit_thread_step: "ssl_exit_step cs p s s' \<Longrightarrow> ssl_thread_step p s s'"
  unfolding ssl_exit_step_def ssl_thread_step_def by blast

interpretation ssl_calls: call_tracker "\<lambda>st. map_of (start_map st)" ssl_thread_step
  "ssl_exit_step {SslReadExit, SslWriteExit}" openssl_inv
  by unfold_locales (auto dest: ssl_thread_step_ok ssl_exit_thread_step ssl_exit_clears)

interpretation ssl_ex_calls: call_tracker "\<lambda>st. map_of (start_ex_map st)" ssl_thread_step
  "ssl_exit_step {SslReadExExit, SslWriteExExit}" openssl_inv
  by unfold_locales (auto dest: ssl_thread_step_ok ssl_exit_thread_step ssl_exit_clears)

section \<open>What a call ships\<close>

text \<open>The chunks \<open>evs\<close> carry the bytes \<open>b\<close> of one call, as far as the ring had room.\<close>

definition ships :: "ssl_env \<Rightarrow> u64 \<Rightarrow> call_info \<Rightarrow> u8 \<Rightarrow> bytes \<Rightarrow> ssl_event list \<Rightarrow> bool" where
  "ships env key info rw b evs \<longleftrightarrow>
     concat (map ssl_payload evs) =
       take (granted env SSL_MAX_LOOP * SSL_MAX_BODY_SIZE) (take (SSL_MAX_LOOP * SSL_MAX_BODY_SIZE) b) \<and>
     length evs \<le> SSL_MAX_LOOP \<and> (\<forall>e \<in> set evs. chunk_of env key info rw e)"

abbreviation ssl_sent :: "ssl_event list \<Rightarrow> openssl_state \<Rightarrow> openssl_state" where
  "ssl_sent evs st \<equiv> st\<lparr>ssl_events := (ssl_events st)\<lparr>rb_log := rb_log (ssl_events st) @ evs\<rparr>\<rparr>"

lemma scast_length: "sint ret = int n \<Longrightarrow> (scast (ret :: s32) :: u64) = of_nat n"
  by (simp add: scast_eq)

lemma ssl_exit_ships:
  assumes "(c, rw) \<in> {(SslReadExit, 4), (SslWriteExit, 2)}"
    and "map_of (start_map st) (bpf_get_current_pid_tgid env) = Some info"
    and "sint (ret_of ctx) = int (length b)" and "b \<noteq> []"
    and "holds (bpf_probe_read_user env) (ci_buf_addr info) b" and "length b < 2 ^ 64"
  shows "\<exists>evs. ssl_prog c env ctx st =
      Some (ssl_cleanup (bpf_get_current_pid_tgid env) (ssl_sent evs st)) \<and>
    ships env (bpf_get_current_pid_tgid env) info rw b evs"
  using assms(1-4) scast_length [OF assms(3)]
    emit_ssl_events_ships [OF assms(5,6), of "bpf_get_current_pid_tgid env" rw "ssl_events st"]
  by (auto simp: probe_ssl_read_exit_def probe_ssl_write_exit_def Let_def ships_def)

lemma ssl_ex_exit_ships:
  assumes "(c, rw) \<in> {(SslReadExExit, 4), (SslWriteExExit, 2)}"
    and "map_of (start_ex_map st) (bpf_get_current_pid_tgid env) = Some info"
    and "ret_of ctx = 1"
    and "holds (bpf_probe_read_user env) (cx_consumed_len_ptr info) (to_le 8 (of_nat (length b) :: u64))"
    and "holds (bpf_probe_read_user env) (ci_buf_addr (cx_base info)) b" and "length b < 2 ^ 64"
  shows "\<exists>evs. ssl_prog c env ctx st =
      Some (ssl_ex_cleanup (bpf_get_current_pid_tgid env) (ssl_sent evs st)) \<and>
    ships env (bpf_get_current_pid_tgid env) (cx_base info) rw b evs"
proof -
  have "bpf_probe_read_user env 8 (cx_consumed_len_ptr info) = (0, to_le 8 (of_nat (length b) :: u64))"
    using holds_read [OF assms(4), of 8] by simp
  then have "(le_word (mem_write (replicate 8 0) (snd (bpf_probe_read_user env 8 (cx_consumed_len_ptr info)))) :: u64) =
      of_nat (length b)"
    by (simp only: snd_conv mem_write_full length_replicate length_to_le) (simp add: le_word_to_le)
  then show ?thesis
    using assms(1-3) emit_ssl_events_ships [OF assms(5,6), of "bpf_get_current_pid_tgid env" rw "ssl_events st"]
    by (auto simp: probe_ssl_read_ex_exit_def probe_ssl_write_ex_exit_def Let_def ships_def)
qed

text \<open>An entry program has room in its map.\<close>

abbreviation has_room :: "nat \<Rightarrow> ('k, 'v) bpf_hash \<Rightarrow> 'k \<Rightarrow> bool" where
  "has_room n m k \<equiv> map_of m k \<noteq> None \<or> length m < n"

lemma ssl_entry_stores:
  assumes "c \<in> {SslReadEntry, SslWriteEntry}" and "ssl_prog c env ctx st = Some st'"
    and "has_room SSL_MAX_ENTRIES (start_map st) (bpf_get_current_pid_tgid env)"
  shows "map_of (start_map st') (bpf_get_current_pid_tgid env) = Some (new_call_info ctx)"
  using assms by (auto simp: probe_ssl_read_entry_def probe_ssl_write_entry_def map_of_hash_update)

lemma ssl_ex_entry_stores:
  assumes "c \<in> {SslReadExEntry, SslWriteExEntry}" and "ssl_prog c env ctx st = Some st'"
    and "has_room SSL_MAX_ENTRIES (start_ex_map st) (bpf_get_current_pid_tgid env)"
  shows "map_of (start_ex_map st') (bpf_get_current_pid_tgid env) = Some (new_call_info_ex ctx)"
  using assms by (auto simp: probe_ssl_read_ex_entry_def probe_ssl_write_ex_entry_def map_of_hash_update)

text \<open>
  C14: a call of \<^verbatim>\<open>SSL_read\<close> or \<^verbatim>\<open>SSL_write\<close> that returns \<open>length b\<close> bytes, with programs of other
  threads running between its entry and its exit, is shipped from the buffer the entry saw:
  the chunks, in order, are a contiguous prefix of the bytes of at most 4 MiB, with 64 KiB or
  the whole rest for every reservation that succeeded; they name the calling thread and its
  \<^verbatim>\<open>SSL\<close> object; and no arguments are left behind.
\<close>

theorem ssl_call_shipped:
  assumes "(entry, exit, rw) \<in> {(SslReadEntry, SslReadExit, 4), (SslWriteEntry, SslWriteExit, 2)}"
    and "openssl_reachable st" and "ssl_env_ok byte env" and "ssl_prog entry env ctx st = Some st1"
    and "has_room SSL_MAX_ENTRIES (start_map st) (bpf_get_current_pid_tgid env)"
    and "ssl_calls.others (bpf_get_current_pid_tgid env) st1 st2"
    and "bpf_get_current_pid_tgid env2 = bpf_get_current_pid_tgid env"
    and "sint (ret_of ctx2) = int (length b)" and "b \<noteq> []" and "length b < 2 ^ 64"
    and "holds (bpf_probe_read_user env2) (PT_REGS_PARM2 ctx) b"
  shows "\<exists>evs st3. ssl_prog exit env2 ctx2 st2 = Some st3 \<and>
    rb_log (ssl_events st3) = rb_log (ssl_events st2) @ evs \<and>
    ships env2 (bpf_get_current_pid_tgid env) (new_call_info ctx) rw b evs \<and>
    map_of (start_map st3) (bpf_get_current_pid_tgid env) = None"
proof -
  let ?p = "bpf_get_current_pid_tgid env"
  have "openssl_inv st1"
    using ssl_prog_ok [OF assms(3) openssl_reachable_inv [OF assms(2)], of entry ctx] assms(4)
    by (auto simp: ssl_keeps_def)
  then have "map_of (start_map st2) ?p = Some (new_call_info ctx)"
    using ssl_calls.others_keep [OF assms(6)] ssl_entry_stores [OF _ assms(4,5)] assms(1) by auto
  then obtain evs where "ssl_prog exit env2 ctx2 st2 = Some (ssl_cleanup ?p (ssl_sent evs st2))"
    "ships env2 ?p (new_call_info ctx) rw b evs"
    using ssl_exit_ships [of exit rw st2 env2 "new_call_info ctx" ctx2 b] assms(1,7-11)
    by (auto simp: new_call_info_def)
  then show ?thesis
    by (intro exI [of _ evs] exI [of _ "ssl_cleanup ?p (ssl_sent evs st2)"])
      (simp add: ssl_cleanup_def delete_conv')
qed

text \<open>
  C26: the same for \<^verbatim>\<open>SSL_read_ex\<close> and \<^verbatim>\<open>SSL_write_ex\<close>, whose count is the 64-bit value the call
  stored at the address that was its fourth argument.
\<close>

theorem ssl_ex_call_shipped:
  assumes "(entry, exit, rw) \<in> {(SslReadExEntry, SslReadExExit, 4), (SslWriteExEntry, SslWriteExExit, 2)}"
    and "openssl_reachable st" and "ssl_env_ok byte env" and "ssl_prog entry env ctx st = Some st1"
    and "has_room SSL_MAX_ENTRIES (start_ex_map st) (bpf_get_current_pid_tgid env)"
    and "ssl_ex_calls.others (bpf_get_current_pid_tgid env) st1 st2"
    and "bpf_get_current_pid_tgid env2 = bpf_get_current_pid_tgid env"
    and "ret_of ctx2 = 1" and "length b < 2 ^ 64"
    and "holds (bpf_probe_read_user env2) (PT_REGS_PARM2 ctx) b"
    and "holds (bpf_probe_read_user env2) (PT_REGS_PARM4 ctx) (to_le 8 (of_nat (length b) :: u64))"
  shows "\<exists>evs st3. ssl_prog exit env2 ctx2 st2 = Some st3 \<and>
    rb_log (ssl_events st3) = rb_log (ssl_events st2) @ evs \<and>
    ships env2 (bpf_get_current_pid_tgid env) (cx_base (new_call_info_ex ctx)) rw b evs \<and>
    map_of (start_ex_map st3) (bpf_get_current_pid_tgid env) = None"
proof -
  let ?p = "bpf_get_current_pid_tgid env"
  have "openssl_inv st1"
    using ssl_prog_ok [OF assms(3) openssl_reachable_inv [OF assms(2)], of entry ctx] assms(4)
    by (auto simp: ssl_keeps_def)
  then have "map_of (start_ex_map st2) ?p = Some (new_call_info_ex ctx)"
    using ssl_ex_calls.others_keep [OF assms(6)] ssl_ex_entry_stores [OF _ assms(4,5)] assms(1) by auto
  then obtain evs where "ssl_prog exit env2 ctx2 st2 = Some (ssl_ex_cleanup ?p (ssl_sent evs st2))"
    "ships env2 ?p (cx_base (new_call_info_ex ctx)) rw b evs"
    using ssl_ex_exit_ships [of exit rw st2 env2 "new_call_info_ex ctx" ctx2 b] assms(1,7-11)
    by (auto simp: new_call_info_ex_def)
  then show ?thesis
    by (intro exI [of _ evs] exI [of _ "ssl_ex_cleanup ?p (ssl_sent evs st2)"])
      (simp add: ssl_ex_cleanup_def delete_conv')
qed

section \<open>Concrete runs\<close>

definition ssl_blank :: ssl_event where
  "ssl_blank = \<lparr>le_timestamp_ns = 0, le_pid_tgid = 0, le_uid_gid = 0, le_cgroup_id = 0, le_ssl_ptr = 0,
     le_req_len = 0, le_data_len = 0, le_rw = 0, le_comm = [], le_data = replicate SSL_MAX_BODY_SIZE 0xAA\<rparr>"

text \<open>A task with some bytes at a fixed address; the first reservation of the run fails.\<close>

definition ssl_demo_env :: "bytes \<Rightarrow> ssl_env" where
  "ssl_demo_env b = memory_env 5 (memory_at 0x2000 b) (\<lambda>n. if n = 0 then None else Some ssl_blank)"

definition ssl_demo_regs :: "u64 \<Rightarrow> u64 \<Rightarrow> u64 \<Rightarrow> pt_regs" where
  "ssl_demo_regs buf ptr rc = Arm64_Regs \<lparr>arm_regs = (\<lambda>n. if n = 0 then rc else if n = 1 then buf
     else if n = 2 then 4096 else if n = 3 then ptr else 0), arm_sp = 0, arm_pc = 0, arm_pstate = 0\<rparr>"

definition ssl_fresh_state :: openssl_state where
  "ssl_fresh_state = \<lparr>start_map = [], start_ex_map = [], ssl_events = \<lparr>rb_pending = 0, rb_log = []\<rparr>\<rparr>"

lemma ssl_demo_env_ok: "ssl_env_ok (memory_at 0x2000 b) (ssl_demo_env b)"
  by (simp add: ssl_env_ok_def ssl_demo_env_def memory_env_ok) (auto simp: memory_env_def ssl_blank_def split: if_splits)

lemma ssl_demo_holds: "length b < 2 ^ 64 \<Longrightarrow> holds (bpf_probe_read_user (ssl_demo_env b)) 0x2000 b"
  using holds_memory [of b "0x2000"] by (simp add: ssl_demo_env_def memory_env_def)

lemma ssl_demo_granted: "1 \<le> granted (ssl_demo_env b) SSL_MAX_LOOP"
  using granted_mono [of 2 SSL_MAX_LOOP "ssl_demo_env b"]
  by (simp add: granted_def SSL_MAX_LOOP_def upt_rec ssl_demo_env_def memory_env_def)

lemma ssl_fresh: "openssl_reachable ssl_fresh_state"
  using openssl_start by (simp add: ssl_fresh_state_def)

lemma ships_demo:
  assumes "ships (ssl_demo_env b) p info rw c evs" and "length c \<le> SSL_MAX_BODY_SIZE"
  shows "concat (map ssl_payload evs) = c"
proof -
  have "SSL_MAX_BODY_SIZE \<le> granted (ssl_demo_env b) SSL_MAX_LOOP * SSL_MAX_BODY_SIZE"
    using ssl_demo_granted [of b] by simp
  moreover have "SSL_MAX_BODY_SIZE \<le> SSL_MAX_LOOP * SSL_MAX_BODY_SIZE" by (simp add: SSL_MAX_LOOP_def)
  ultimately have "length c \<le> granted (ssl_demo_env b) SSL_MAX_LOOP * SSL_MAX_BODY_SIZE"
    "length c \<le> SSL_MAX_LOOP * SSL_MAX_BODY_SIZE"
    using assms(2) by linarith+
  with assms(1) show ?thesis by (simp add: ships_def)
qed

theorem ssl_call_shipped_witness:
  "\<exists>st1 evs st3. ssl_prog SslWriteEntry (ssl_demo_env [7, 8, 9]) (ssl_demo_regs 0x2000 0 1) ssl_fresh_state = Some st1 \<and>
     ssl_prog SslWriteExit (ssl_demo_env [7, 8, 9]) (ssl_demo_regs 0 0 3) st1 = Some st3 \<and>
     rb_log (ssl_events st3) = rb_log (ssl_events st1) @ evs \<and> concat (map ssl_payload evs) = [7, 8, 9]"
proof -
  let ?env = "ssl_demo_env [7, 8, 9]"
  obtain st1 where st1: "ssl_prog SslWriteEntry ?env (ssl_demo_regs 0x2000 0 1) ssl_fresh_state = Some st1"
    by (simp add: probe_ssl_write_entry_def)
  have "holds (bpf_probe_read_user ?env) (PT_REGS_PARM2 (ssl_demo_regs 0x2000 0 1)) [7, 8, 9]"
    using ssl_demo_holds [of "[7, 8, 9]"] by (simp add: ssl_demo_regs_def)
  moreover have "sint (ret_of (ssl_demo_regs 0 0 3)) = int (length [7 :: u8, 8, 9])"
    by (simp add: ret_of_def ssl_demo_regs_def)
  moreover have "has_room SSL_MAX_ENTRIES (start_map ssl_fresh_state) (bpf_get_current_pid_tgid ?env)"
    by (simp add: ssl_fresh_state_def SSL_MAX_ENTRIES_def)
  ultimately obtain evs st3 where "ssl_prog SslWriteExit ?env (ssl_demo_regs 0 0 3) st1 = Some st3"
    "rb_log (ssl_events st3) = rb_log (ssl_events st1) @ evs"
    "ships ?env (bpf_get_current_pid_tgid ?env) (new_call_info (ssl_demo_regs 0x2000 0 1)) 2 [7, 8, 9] evs"
    using ssl_call_shipped [OF _ ssl_fresh ssl_demo_env_ok st1 _ ssl_calls.others_refl, of SslWriteExit 2 ?env
        "ssl_demo_regs 0 0 3" "[7, 8, 9]"] by auto
  with st1 ships_demo show ?thesis by (fastforce simp: SSL_MAX_BODY_SIZE_def)
qed

theorem ssl_ex_call_shipped_witness:
  "let env = ssl_demo_env (to_le 8 (2 :: u64) @ [7, 8]); regs = ssl_demo_regs 0x2008 0x2000 1 in
   \<exists>st1 evs st3. ssl_prog SslReadExEntry env regs ssl_fresh_state = Some st1 \<and>
     ssl_prog SslReadExExit env regs st1 = Some st3 \<and>
     rb_log (ssl_events st3) = rb_log (ssl_events st1) @ evs \<and> concat (map ssl_payload evs) = [7, 8]"
proof -
  let ?env = "ssl_demo_env (to_le 8 (2 :: u64) @ [7, 8])" and ?regs = "ssl_demo_regs 0x2008 0x2000 1"
  obtain st1 where st1: "ssl_prog SslReadExEntry ?env ?regs ssl_fresh_state = Some st1"
    by (simp add: probe_ssl_read_ex_entry_def)
  have mem: "holds (bpf_probe_read_user ?env) 0x2000 (to_le 8 (2 :: u64) @ [7, 8])"
    by (rule ssl_demo_holds) simp
  have "holds (bpf_probe_read_user ?env) (PT_REGS_PARM2 ?regs) [7, 8]"
    using holds_append [OF mem] by (simp add: ssl_demo_regs_def)
  moreover have "holds (bpf_probe_read_user ?env) (PT_REGS_PARM4 ?regs) (to_le 8 (of_nat (length [7 :: u8, 8]) :: u64))"
    using holds_take [OF mem, of 8] by (simp add: ssl_demo_regs_def)
  moreover have "ret_of ?regs = 1"
    by (simp add: ret_of_def ssl_demo_regs_def)
  moreover have "has_room SSL_MAX_ENTRIES (start_ex_map ssl_fresh_state) (bpf_get_current_pid_tgid ?env)"
    by (simp add: ssl_fresh_state_def SSL_MAX_ENTRIES_def)
  ultimately obtain evs st3 where "ssl_prog SslReadExExit ?env ?regs st1 = Some st3"
    "rb_log (ssl_events st3) = rb_log (ssl_events st1) @ evs"
    "ships ?env (bpf_get_current_pid_tgid ?env) (cx_base (new_call_info_ex ?regs)) 4 [7, 8] evs"
    using ssl_ex_call_shipped [OF _ ssl_fresh ssl_demo_env_ok st1 _ ssl_ex_calls.others_refl, of SslReadExExit 4 ?env
        ?regs "[7, 8]"] by auto
  with st1 ships_demo show ?thesis unfolding Let_def by (fastforce simp: SSL_MAX_BODY_SIZE_def)
qed

interpretation openssl_probe: safe_probe "\<lambda>(c, env, ctx). ssl_prog c env ctx" "\<lambda>(c, env, ctx). \<exists>byte. ssl_env_ok byte env" openssl_inv
  by unfold_locales (use ssl_prog_ok in \<open>fastforce simp: ssl_keeps_def\<close>)

end
