(* ===== verification/Boringssl.thy ===== *)
theory Boringssl
  imports Openssl
begin

text \<open>
  The BoringSSL probe, \<^verbatim>\<open>tls/boring.bpf.c\<close>: the plain read and write calls, with maps of its
  own.  It runs the same code as the OpenSSL probe does for these calls, which is stated as a
  functional refinement, so the results of \<^verbatim>\<open>Openssl\<close> carry over.
\<close>

record boring_state =
  boring_start_map :: "(u64, call_info) bpf_hash"
  boring_events :: "ssl_event ringbuf"

definition probe_boring_ssl_read_entry :: "ssl_env \<Rightarrow> pt_regs \<Rightarrow> boring_state \<Rightarrow> boring_state option" where
  "probe_boring_ssl_read_entry env ctx st =
     Some (st\<lparr>boring_start_map := hash_update SSL_MAX_ENTRIES (bpf_get_current_pid_tgid env) (new_call_info ctx)
       (boring_start_map st)\<rparr>)"

definition probe_boring_ssl_write_entry :: "ssl_env \<Rightarrow> pt_regs \<Rightarrow> boring_state \<Rightarrow> boring_state option" where
  "probe_boring_ssl_write_entry env ctx st =
     Some (st\<lparr>boring_start_map := hash_update SSL_MAX_ENTRIES (bpf_get_current_pid_tgid env) (new_call_info ctx)
       (boring_start_map st)\<rparr>)"

definition boring_cleanup :: "u64 \<Rightarrow> boring_state \<Rightarrow> boring_state" where
  "boring_cleanup key st = st\<lparr>boring_start_map := bpf_map_delete_elem key (boring_start_map st)\<rparr>"

definition probe_boring_ssl_read_exit :: "ssl_env \<Rightarrow> pt_regs \<Rightarrow> boring_state \<Rightarrow> boring_state option" where
  "probe_boring_ssl_read_exit env ctx st =
     (let key = bpf_get_current_pid_tgid env in
      case bpf_map_lookup_elem (boring_start_map st) key of
        None \<Rightarrow> Some st
      | Some info \<Rightarrow>
          let ret = ret_of ctx in
          if sint ret \<le> 0 then Some (boring_cleanup key st)
          else do { rb \<leftarrow> emit_ssl_events env key info (scast ret) 4 (boring_events st);
                    Some (boring_cleanup key (st\<lparr>boring_events := rb\<rparr>)) })"

definition probe_boring_ssl_write_exit :: "ssl_env \<Rightarrow> pt_regs \<Rightarrow> boring_state \<Rightarrow> boring_state option" where
  "probe_boring_ssl_write_exit env ctx st =
     (let key = bpf_get_current_pid_tgid env in
      case bpf_map_lookup_elem (boring_start_map st) key of
        None \<Rightarrow> Some st
      | Some info \<Rightarrow>
          let ret = ret_of ctx in
          if sint ret \<le> 0 then Some (boring_cleanup key st)
          else do { rb \<leftarrow> emit_ssl_events env key info (scast ret) 2 (boring_events st);
                    Some (boring_cleanup key (st\<lparr>boring_events := rb\<rparr>)) })"

datatype boring_call = BoringReadEntry | BoringWriteEntry | BoringReadExit | BoringWriteExit

primrec boring_prog :: "boring_call \<Rightarrow> ssl_env \<Rightarrow> pt_regs \<Rightarrow> boring_state \<Rightarrow> boring_state option" where
  "boring_prog BoringReadEntry = probe_boring_ssl_read_entry"
| "boring_prog BoringWriteEntry = probe_boring_ssl_write_entry"
| "boring_prog BoringReadExit = probe_boring_ssl_read_exit"
| "boring_prog BoringWriteExit = probe_boring_ssl_write_exit"

section \<open>Refinement\<close>

primrec openssl_call :: "boring_call \<Rightarrow> ssl_call" where
  "openssl_call BoringReadEntry = SslReadEntry"
| "openssl_call BoringWriteEntry = SslWriteEntry"
| "openssl_call BoringReadExit = SslReadExit"
| "openssl_call BoringWriteExit = SslWriteExit"

definition as_openssl :: "boring_state \<Rightarrow> openssl_state" where
  "as_openssl st = \<lparr>start_map = boring_start_map st, start_ex_map = [], ssl_events = boring_events st\<rparr>"

lemma as_openssl_simps [simp]:
  "start_map (as_openssl st) = boring_start_map st"
  "ssl_events (as_openssl st) = boring_events st"
  "as_openssl (st\<lparr>boring_start_map := m\<rparr>) = (as_openssl st)\<lparr>start_map := m\<rparr>"
  "as_openssl (st\<lparr>boring_events := rb\<rparr>) = (as_openssl st)\<lparr>ssl_events := rb\<rparr>"
  "as_openssl (boring_cleanup key st) = ssl_cleanup key (as_openssl st)"
  by (simp_all add: as_openssl_def boring_cleanup_def ssl_cleanup_def)

text \<open>One program of the BoringSSL probe is the matching program of the OpenSSL probe.\<close>

lemma boring_step_refines:
  "map_option as_openssl (boring_prog c env ctx st) = ssl_prog (openssl_call c) env ctx (as_openssl st)"
proof -
  have emit: "map_option as_openssl (do { rb \<leftarrow> r; Some (boring_cleanup key (st\<lparr>boring_events := rb\<rparr>)) }) =
      (do { rb \<leftarrow> r; Some (ssl_cleanup key ((as_openssl st)\<lparr>ssl_events := rb\<rparr>)) })" for r key
    by (cases r) simp_all
  show ?thesis
    by (cases c)
      (auto simp: probe_boring_ssl_read_entry_def probe_boring_ssl_write_entry_def emit
        probe_boring_ssl_read_exit_def probe_boring_ssl_write_exit_def probe_ssl_read_entry_def
        probe_ssl_write_entry_def probe_ssl_read_exit_def probe_ssl_write_exit_def Let_def split: option.splits)
qed

text \<open>A sequence of programs, each with its environment and registers.\<close>

primrec boring_run :: "(boring_call \<times> ssl_env \<times> pt_regs) list \<Rightarrow> boring_state \<Rightarrow> boring_state option" where
  "boring_run [] st = Some st"
| "boring_run (x # xs) st = (case x of (c, env, ctx) \<Rightarrow> Option.bind (boring_prog c env ctx st) (boring_run xs))"

primrec ssl_run :: "(ssl_call \<times> ssl_env \<times> pt_regs) list \<Rightarrow> openssl_state \<Rightarrow> openssl_state option" where
  "ssl_run [] st = Some st"
| "ssl_run (x # xs) st = (case x of (c, env, ctx) \<Rightarrow> Option.bind (ssl_prog c env ctx st) (ssl_run xs))"

text \<open>
  C27: every run of the BoringSSL probe is a run of the OpenSSL probe: whatever sequence of
  programs runs, in whatever environments, the maps, the emitted events and the faults agree.
\<close>

theorem boring_refines_openssl:
  "map_option as_openssl (boring_run xs st) =
     ssl_run (map (\<lambda>(c, env, ctx). (openssl_call c, env, ctx)) xs) (as_openssl st)"
proof (induction xs arbitrary: st)
  case (Cons x xs)
  obtain c env ctx where x: "x = (c, env, ctx)" by (cases x)
  show ?case
    by (cases "boring_prog c env ctx st") (simp_all add: x Cons.IH boring_step_refines [symmetric])
qed simp

definition boring_inv :: "boring_state \<Rightarrow> bool" where
  "boring_inv st \<longleftrightarrow> openssl_inv (as_openssl st)"

lemma boring_prog_ok:
  assumes "ssl_env_ok byte env" and "boring_inv st"
  shows "\<exists>st'. boring_prog c env ctx st = Some st' \<and> boring_inv st'"
  using ssl_prog_ok [OF assms(1), of "as_openssl st" "openssl_call c" ctx] assms(2)
  by (auto simp: boring_inv_def ssl_keeps_def boring_step_refines [symmetric])

interpretation boring_probe: safe_probe "\<lambda>(c, env, ctx). boring_prog c env ctx" "\<lambda>(c, env, ctx). \<exists>byte. ssl_env_ok byte env" boring_inv
  by unfold_locales (auto dest: boring_prog_ok)

end
