(* ===== verification/Bpf_Macros.thy ===== *)
theory Bpf_Macros
  imports Bpf_Prelude
begin

text \<open>
  The macros of \<^verbatim>\<open>headers/bpf_helpers.h\<close> that compute: version numbers and member offsets, the
  printing wrappers that collect their arguments in an array, and the loops over open-coded
  iterators.  The kernel's helpers and iterators behind them are parameters.
\<close>

section \<open>Numbers\<close>

definition KERNEL_VERSION :: "int \<Rightarrow> int \<Rightarrow> int \<Rightarrow> int" where
  "KERNEL_VERSION a b c = push_bit 16 a + push_bit 8 b + (if c > 255 then 255 else c)"

text \<open>A member's offset is its address in an object at address 0; the container starts that much earlier.\<close>

definition offsetof_member :: "(u64 \<Rightarrow> u64) \<Rightarrow> u64" where
  "offsetof_member member = member 0"

definition container_of :: "u64 \<Rightarrow> (u64 \<Rightarrow> u64) \<Rightarrow> u64" where
  "container_of ptr member = ptr - offsetof_member member"

lemma container_of_member:
  assumes "\<And>base. member base = base + off"
  shows "container_of (member base) member = base"
  by (simp add: container_of_def offsetof_member_def assms)

text \<open>Versions with components below 256 are ordered as their triples.\<close>

lemma KERNEL_VERSION_less:
  assumes "0 \<le> a" "0 \<le> b" "b < 256" "0 \<le> c" "c < 256" "0 \<le> a'" "0 \<le> b'" "b' < 256" "0 \<le> c'" "c' < 256"
  shows "KERNEL_VERSION a b c < KERNEL_VERSION a' b' c' \<longleftrightarrow>
    a < a' \<or> a = a' \<and> (b < b' \<or> b = b' \<and> c < c')"
  using assms by (auto simp: KERNEL_VERSION_def push_bit_eq_mult)

section \<open>Argument lists\<close>

text \<open>
  \<^verbatim>\<open>___bpf_narg\<close> counts up to twelve arguments.  \<^verbatim>\<open>___bpf_fill\<close> assigns them to consecutive elements;
  assigning past the end of the array is \<open>None\<close>.
\<close>

definition bpf_narg :: "'a list \<Rightarrow> nat option" where
  "bpf_narg args = (if length args \<le> 12 then Some (length args) else None)"

primrec bpf_fillN :: "u64 list \<Rightarrow> nat \<Rightarrow> u64 list \<Rightarrow> u64 list option" where
  "bpf_fillN arr p [] = Some arr"
| "bpf_fillN arr p (x # args) = (if p < length arr then bpf_fillN (arr[p := x]) (p + 1) args else None)"

definition bpf_fill :: "u64 list \<Rightarrow> u64 list \<Rightarrow> u64 list option" where
  "bpf_fill arr args = do { _ \<leftarrow> bpf_narg args; bpf_fillN arr 0 args }"

lemma bpf_fillN_from:
  "p + length args \<le> length arr \<Longrightarrow>
   bpf_fillN arr p args = Some (take p arr @ args @ drop (p + length args) arr)"
proof (induction args arbitrary: arr p)
  case (Cons x args)
  then show ?case by (simp add: take_update_snoc)
qed simp

lemma bpf_fill_args:
  "length args \<le> 12 \<Longrightarrow> length arr = length args \<Longrightarrow> bpf_fill arr args = Some args"
  by (simp add: bpf_fill_def bpf_narg_def bpf_fillN_from)

section \<open>Printing\<close>

text \<open>
  The helper each wrapper ends in, with the arguments it gets.  \<open>arr\<close> is the first content of the
  array \<^verbatim>\<open>___param\<close>, of as many elements as there are arguments.
\<close>

datatype print_call =
    Seq_printf u64 string nat "u64 list" nat
  | Snprintf u64 nat string "u64 list" nat
  | Trace_printk string nat "u64 list"
  | Trace_vprintk string nat "u64 list" nat
  | Stream_vprintk int string "u64 list" nat

definition fmt_size :: "string \<Rightarrow> nat" where
  "fmt_size fmt = length fmt + 1"

definition print_params :: "(nat \<Rightarrow> u64 list) \<Rightarrow> u64 list \<Rightarrow> u64 list option" where
  "print_params arr args = do { n \<leftarrow> bpf_narg args; bpf_fill (take n (arr n)) args }"

definition BPF_SEQ_PRINTF :: "(nat \<Rightarrow> u64 list) \<Rightarrow> u64 \<Rightarrow> string \<Rightarrow> u64 list \<Rightarrow> print_call option" where
  "BPF_SEQ_PRINTF arr seq fmt args = do {
     param \<leftarrow> print_params arr args;
     Some (Seq_printf seq fmt (fmt_size fmt) param (8 * length param)) }"

definition BPF_SNPRINTF :: "(nat \<Rightarrow> u64 list) \<Rightarrow> u64 \<Rightarrow> nat \<Rightarrow> string \<Rightarrow> u64 list \<Rightarrow> print_call option" where
  "BPF_SNPRINTF arr out out_size fmt args = do {
     param \<leftarrow> print_params arr args;
     Some (Snprintf out out_size fmt param (8 * length param)) }"

definition bpf_printk_plain :: "string \<Rightarrow> u64 list \<Rightarrow> print_call option" where
  "bpf_printk_plain fmt args = Some (Trace_printk fmt (fmt_size fmt) args)"

definition bpf_vprintk :: "(nat \<Rightarrow> u64 list) \<Rightarrow> string \<Rightarrow> u64 list \<Rightarrow> print_call option" where
  "bpf_vprintk arr fmt args = do {
     param \<leftarrow> print_params arr args;
     Some (Trace_vprintk fmt (fmt_size fmt) param (8 * length param)) }"

definition bpf_stream_printk :: "(nat \<Rightarrow> u64 list) \<Rightarrow> int \<Rightarrow> string \<Rightarrow> u64 list \<Rightarrow> print_call option" where
  "bpf_stream_printk arr stream_id fmt args = do {
     param \<leftarrow> print_params arr args;
     Some (Stream_vprintk stream_id fmt param (8 * length param)) }"

text \<open>
  The choice between the two trace helpers is an element of a list, at the position
  \<^verbatim>\<open>___bpf_nth\<close> picks after the arguments have shifted it.
\<close>

definition bpf_pick_printk :: "(nat \<Rightarrow> u64 list) \<Rightarrow> u64 list \<Rightarrow> (string \<Rightarrow> u64 list \<Rightarrow> print_call option) option" where
  "bpf_pick_printk arr args =
     (if length args \<le> 12
      then Some ((replicate 9 (bpf_vprintk arr) @ replicate 4 bpf_printk_plain) ! (12 - length args))
      else None)"

definition bpf_printk :: "(nat \<Rightarrow> u64 list) \<Rightarrow> string \<Rightarrow> u64 list \<Rightarrow> print_call option" where
  "bpf_printk arr fmt args = do { f \<leftarrow> bpf_pick_printk arr args; f fmt args }"

text \<open>Every wrapper passes the arguments on in order; \<^verbatim>\<open>bpf_printk\<close> needs no array for up to three.\<close>

lemma bpf_printk_args:
  assumes "length args \<le> 12" and "\<And>n. length (arr n) = n"
  shows "bpf_printk arr fmt args =
    Some (if length args \<le> 3 then Trace_printk fmt (length fmt + 1) args
          else Trace_vprintk fmt (length fmt + 1) args (8 * length args))"
proof (cases "length args \<le> 3")
  case True
  then have "\<not> 12 - length args < 9" by arith
  then have "(replicate 9 (bpf_vprintk arr) @ replicate 4 bpf_printk_plain) ! (12 - length args) = bpf_printk_plain"
    by (simp add: nth_append)
  with True assms(1) show ?thesis
    by (simp add: bpf_printk_def bpf_pick_printk_def bpf_printk_plain_def fmt_size_def)
next
  case False
  then have "12 - length args < 9" by arith
  then have "(replicate 9 (bpf_vprintk arr) @ replicate 4 bpf_printk_plain) ! (12 - length args) = bpf_vprintk arr"
    by (simp add: nth_append)
  with False assms show ?thesis
    by (simp add: bpf_printk_def bpf_pick_printk_def bpf_vprintk_def print_params_def bpf_narg_def
        bpf_fill_args fmt_size_def)
qed

section \<open>Loops over iterators\<close>

text \<open>
  The three functions behind an iterator: initialise, advance (\<open>None\<close> is the null pointer) and
  destroy.  The compiler runs the last one when the iterator goes out of scope, however the loop
  is left.
\<close>

record ('it, 'v) iter_ops =
  it_new :: "int \<Rightarrow> int \<Rightarrow> 'it"
  it_next :: "'it \<Rightarrow> 'v option \<times> 'it"
  it_destroy :: "'it \<Rightarrow> 'it"

partial_function (option) iter_loop ::
  "('it, 'v) iter_ops \<Rightarrow> ('v \<Rightarrow> bool) \<Rightarrow> ('v \<Rightarrow> 'a \<Rightarrow> ('a, 'r) flow option) \<Rightarrow> 'it \<Rightarrow> 'a \<Rightarrow> ('it \<times> ('a + 'r)) option" where
  "iter_loop ops cond body it st =
     (case it_next ops it of
        (None, it') \<Rightarrow> Some (it_destroy ops it', Inl st)
      | (Some v, it') \<Rightarrow>
          if cond v
          then (case body v st of
                  None \<Rightarrow> None
                | Some f \<Rightarrow> (case f of
                      Next st' \<Rightarrow> iter_loop ops cond body it' st'
                    | Break st' \<Rightarrow> Some (it_destroy ops it', Inl st')
                    | Return r \<Rightarrow> Some (it_destroy ops it', Inr r)))
          else Some (it_destroy ops it', Inl st))"

definition bpf_for_each ::
  "('it, 'v) iter_ops \<Rightarrow> int \<Rightarrow> int \<Rightarrow> ('v \<Rightarrow> 'a \<Rightarrow> ('a, 'r) flow option) \<Rightarrow> 'a \<Rightarrow> ('it \<times> ('a + 'r)) option" where
  "bpf_for_each ops a b body st = iter_loop ops (\<lambda>_. True) body (it_new ops a b) st"

definition bpf_for ::
  "('it, int) iter_ops \<Rightarrow> int \<Rightarrow> int \<Rightarrow> (int \<Rightarrow> 'a \<Rightarrow> ('a, 'r) flow option) \<Rightarrow> 'a \<Rightarrow> ('it \<times> ('a + 'r)) option" where
  "bpf_for ops a b body st = iter_loop ops (\<lambda>i. i \<ge> a \<and> i < b) body (it_new ops a b) st"

definition bpf_repeat ::
  "('it, int) iter_ops \<Rightarrow> nat \<Rightarrow> ('a \<Rightarrow> ('a, 'r) flow option) \<Rightarrow> 'a \<Rightarrow> ('it \<times> ('a + 'r)) option" where
  "bpf_repeat ops n body st = iter_loop ops (\<lambda>_. True) (\<lambda>_. body) (it_new ops 0 (int n)) st"

text \<open>The values an iterator goes through before it ends.\<close>

primrec yields :: "('it, 'v) iter_ops \<Rightarrow> 'it \<Rightarrow> 'v list \<Rightarrow> bool" where
  "yields ops it [] \<longleftrightarrow> fst (it_next ops it) = None"
| "yields ops it (v # vs) \<longleftrightarrow> fst (it_next ops it) = Some v \<and> yields ops (snd (it_next ops it)) vs"

lemma iter_loop_c_for:
  assumes "yields ops it (map f [i..<i + n])" and "\<forall>k \<in> {i..<i + n}. cond (f k)"
  shows "\<exists>it'. iter_loop ops cond body it st =
    map_option (Pair (it_destroy ops it')) (c_for_from n i (\<lambda>k. body (f k)) st)"
  using assms
proof (induction n arbitrary: i it st)
  case 0
  then show ?case by (subst iter_loop.simps) (auto split: prod.splits option.splits)
next
  case (Suc n)
  have "[i..<i + Suc n] = i # [Suc i..<Suc i + n]" by (subst upt_conv_Cons) simp_all
  with Suc.prems(1) have nx: "fst (it_next ops it) = Some (f i)"
      "yields ops (snd (it_next ops it)) (map f [Suc i..<Suc i + n])"
    by (simp_all del: upt_Suc add_Suc add_Suc_right)
  then obtain it' where next': "it_next ops it = (Some (f i), it')" "yields ops it' (map f [Suc i..<Suc i + n])"
    by (cases "it_next ops it") auto
  have c: "cond (f i)" "\<forall>k \<in> {Suc i..<Suc i + n}. cond (f k)" using Suc.prems(2) by auto
  show ?case
  proof (cases "body (f i) st")
    case None
    with next' c show ?thesis by (subst iter_loop.simps) simp
  next
    case (Some fl)
    with next' c Suc.IH [OF next'(2) c(2)] show ?thesis
      by (subst iter_loop.simps) (cases fl; auto)
  qed
qed

text \<open>
  The loop macros are the counted loops the programs are modelled with.  When the kernel's number
  iterator started on a range goes through the numbers of that range, \<^verbatim>\<open>bpf_repeat(N)\<close> runs its body
  like \<^verbatim>\<open>for (i = 0; i < N; i++)\<close> and \<^verbatim>\<open>bpf_for(i, a, b)\<close> like \<^verbatim>\<open>for (i = a; i < b; i++)\<close>, with
  \<^verbatim>\<open>break\<close>, \<^verbatim>\<open>return\<close> and the end of the range as ways out.  Both loops end, and have destroyed the
  iterator on every way out.
\<close>

lemma iterator_loops_are_counted:
  assumes "yields ops (it_new ops 0 (int n)) (map int [0..<n])"
    and "yields ops' (it_new ops' a b) (map (\<lambda>k. a + int k) [0..<nat (b - a)])"
  shows "(\<exists>it. bpf_repeat ops n body st = map_option (Pair (it_destroy ops it)) (c_for n (\<lambda>_. body) st)) \<and>
    (\<exists>it. bpf_for ops' a b body' st' =
       map_option (Pair (it_destroy ops' it)) (c_for (nat (b - a)) (\<lambda>k. body' (a + int k)) st'))"
proof -
  have "\<forall>k \<in> {0..<nat (b - a)}. a \<le> a + int k \<and> a + int k < b" by auto
  then show ?thesis
    using iter_loop_c_for [of ops _ int 0 n "\<lambda>_. True" "\<lambda>_. body" st]
      iter_loop_c_for [of ops' _ "\<lambda>k. a + int k" 0 "nat (b - a)" "\<lambda>i. i \<ge> a \<and> i < b" body' st'] assms
    by (simp add: bpf_repeat_def bpf_for_def c_for_def)
qed

text \<open>The kernel's iterator: the current number and the end, empty when the range is.\<close>

definition num_iter :: "(int \<times> int, int) iter_ops" where
  "num_iter = \<lparr>it_new = (\<lambda>a b. (a, b)), it_next = (\<lambda>(i, e). if i < e then (Some i, (i + 1, e)) else (None, (i, e))),
     it_destroy = (\<lambda>_. (0, 0))\<rparr>"

lemma iterator_loops_are_counted_example:
  "map_option snd (bpf_repeat num_iter 3 (\<lambda>n. Some (Next (n + 2))) (0 :: nat)) = Some (Inl 6 :: nat + unit) \<and>
   map_option snd (bpf_for num_iter 5 9 (\<lambda>i n. Some (if i = 7 then Return i else Next (n + 1))) (0 :: nat)) = Some (Inr 7)"
proof -
  have "yields num_iter (it_new num_iter 0 (int 3)) (map int [0..<3])"
    "yields num_iter (it_new num_iter 5 9) (map (\<lambda>k. 5 + int k) [0..<nat (9 - 5)])"
    by (simp_all add: num_iter_def upt_conv_Cons)
  from iterator_loops_are_counted [OF this, of "\<lambda>n. Some (Next (n + 2)) :: (nat, unit) flow option" "0 :: nat"
      "\<lambda>i n. Some (if i = 7 then Return i else Next (n + 1))" "0 :: nat"]
  show ?thesis
    by (elim conjE exE) (simp add: c_for_def numeral_3_eq_3 eval_nat_numeral del: split_paired_Ex)
qed

end
