(* ===== verification/Tracing.thy ===== *)
theory Tracing
  imports Core_Read Bpf_Macros
begin

text \<open>
  The argument macros of \<^verbatim>\<open>headers/bpf_tracing.h\<close>: the choice of the target architecture, its
  table of registers, the \<^verbatim>\<open>PT_REGS_*\<close> accessors, and the wrappers \<^verbatim>\<open>BPF_PROG\<close>, \<^verbatim>\<open>BPF_PROG2\<close>,
  \<^verbatim>\<open>BPF_KPROBE\<close>, \<^verbatim>\<open>BPF_KRETPROBE\<close> and \<^verbatim>\<open>BPF_KSYSCALL\<close> that turn a raw context into the list of
  arguments of the program.  \<open>None\<close> stands for an expansion the compiler rejects: an unsupported
  register, too many arguments, a missing target, an argument size without a case.
\<close>

section \<open>The target\<close>

datatype bpf_target = bpf_target_x86 | bpf_target_s390 | bpf_target_arm | bpf_target_arm64
  | bpf_target_mips | bpf_target_powerpc | bpf_target_sparc | bpf_target_riscv | bpf_target_arc
  | bpf_target_loongarch

text \<open>What the preprocessor knows: the value of each macro that is defined.\<close>

type_synonym macros = "string \<Rightarrow> int option"

definition is_defined :: "macros \<Rightarrow> string \<Rightarrow> bool" where
  "is_defined ms m \<longleftrightarrow> ms m \<noteq> None"

definition arch_target :: "macros \<Rightarrow> bpf_target option" where
  "arch_target ms =
     (if is_defined ms ''__TARGET_ARCH_x86'' then Some bpf_target_x86
      else if is_defined ms ''__TARGET_ARCH_s390'' then Some bpf_target_s390
      else if is_defined ms ''__TARGET_ARCH_arm'' then Some bpf_target_arm
      else if is_defined ms ''__TARGET_ARCH_arm64'' then Some bpf_target_arm64
      else if is_defined ms ''__TARGET_ARCH_mips'' then Some bpf_target_mips
      else if is_defined ms ''__TARGET_ARCH_powerpc'' then Some bpf_target_powerpc
      else if is_defined ms ''__TARGET_ARCH_sparc'' then Some bpf_target_sparc
      else if is_defined ms ''__TARGET_ARCH_riscv'' then Some bpf_target_riscv
      else if is_defined ms ''__TARGET_ARCH_arc'' then Some bpf_target_arc
      else if is_defined ms ''__TARGET_ARCH_loongarch'' then Some bpf_target_loongarch
      else None)"

text \<open>An undefined macro in \<^verbatim>\<open>#if\<close> arithmetic counts as 0.\<close>

definition macro_value :: "macros \<Rightarrow> string \<Rightarrow> int" where
  "macro_value ms m = (case ms m of None \<Rightarrow> 0 | Some v \<Rightarrow> v)"

definition compiler_target :: "macros \<Rightarrow> bpf_target option" where
  "compiler_target ms =
     (if is_defined ms ''__x86_64__'' then Some bpf_target_x86
      else if is_defined ms ''__s390__'' then Some bpf_target_s390
      else if is_defined ms ''__arm__'' then Some bpf_target_arm
      else if is_defined ms ''__aarch64__'' then Some bpf_target_arm64
      else if is_defined ms ''__mips__'' then Some bpf_target_mips
      else if is_defined ms ''__powerpc__'' then Some bpf_target_powerpc
      else if is_defined ms ''__sparc__'' then Some bpf_target_sparc
      else if is_defined ms ''__riscv'' \<and> macro_value ms ''__riscv_xlen'' = 64 then Some bpf_target_riscv
      else if is_defined ms ''__arc__'' then Some bpf_target_arc
      else if is_defined ms ''__loongarch__'' then Some bpf_target_loongarch
      else None)"

definition select_target :: "macros \<Rightarrow> bpf_target option" where
  "select_target ms = (case arch_target ms of Some t \<Rightarrow> Some t | None \<Rightarrow> compiler_target ms)"

section \<open>The register tables\<close>

text \<open>
  One table per architecture: the members of the register structure that hold the parameters of
  a function and of a system call, the return address, frame pointer, result, stack pointer and
  instruction pointer.  A frame pointer of \<open>None\<close> is \<^verbatim>\<open>__unsupported__\<close>; \<open>pt_syscall_ctx\<close> says that
  the architecture redefines \<^verbatim>\<open>PT_REGS_SYSCALL_REGS\<close> to the context itself.
\<close>

record pt_table =
  pt_parm :: "string list"
  pt_syscall :: "string list"
  pt_ret :: string
  pt_fp :: "string option"
  pt_rc :: string
  pt_sp :: string
  pt_ip :: string
  pt_syscall_ctx :: bool

definition x86_kernel_table :: pt_table where
  "x86_kernel_table =
     \<lparr>pt_parm = [''di'', ''si'', ''dx'', ''cx'', ''r8'', ''r9''],
      pt_syscall = [''di'', ''si'', ''dx'', ''r10'', ''r8'', ''r9''],
      pt_ret = ''sp'', pt_fp = Some ''bp'', pt_rc = ''ax'', pt_sp = ''sp'', pt_ip = ''ip'',
      pt_syscall_ctx = False\<rparr>"

definition i386_table :: pt_table where
  "i386_table =
     \<lparr>pt_parm = [''eax'', ''edx'', ''ecx''],
      pt_syscall = [''ebx'', ''ecx'', ''edx'', ''esi'', ''edi'', ''ebp''],
      pt_ret = ''esp'', pt_fp = Some ''ebp'', pt_rc = ''eax'', pt_sp = ''esp'', pt_ip = ''eip'',
      pt_syscall_ctx = False\<rparr>"

definition x86_64_table :: pt_table where
  "x86_64_table =
     \<lparr>pt_parm = [''rdi'', ''rsi'', ''rdx'', ''rcx'', ''r8'', ''r9''],
      pt_syscall = [''rdi'', ''rsi'', ''rdx'', ''r10'', ''r8'', ''r9''],
      pt_ret = ''rsp'', pt_fp = Some ''rbp'', pt_rc = ''rax'', pt_sp = ''rsp'', pt_ip = ''rip'',
      pt_syscall_ctx = False\<rparr>"

definition x86_table :: "macros \<Rightarrow> pt_table" where
  "x86_table ms =
     (if is_defined ms ''__KERNEL__'' \<or> is_defined ms ''__VMLINUX_H__'' then x86_kernel_table
      else if is_defined ms ''__i386__'' then i386_table
      else x86_64_table)"

definition s390_table :: pt_table where
  "s390_table =
     \<lparr>pt_parm = [''gprs[2]'', ''gprs[3]'', ''gprs[4]'', ''gprs[5]'', ''gprs[6]''],
      pt_syscall = [''orig_gpr2'', ''gprs[3]'', ''gprs[4]'', ''gprs[5]'', ''gprs[6]'', ''gprs[7]''],
      pt_ret = ''gprs[14]'', pt_fp = Some ''gprs[11]'', pt_rc = ''gprs[2]'', pt_sp = ''gprs[15]'',
      pt_ip = ''psw.addr'', pt_syscall_ctx = False\<rparr>"

definition arm_table :: pt_table where
  "arm_table =
     \<lparr>pt_parm = [''uregs[0]'', ''uregs[1]'', ''uregs[2]'', ''uregs[3]''],
      pt_syscall = [''uregs[0]'', ''uregs[1]'', ''uregs[2]'', ''uregs[3]'', ''uregs[4]'', ''uregs[5]'', ''uregs[6]''],
      pt_ret = ''uregs[14]'', pt_fp = Some ''uregs[11]'', pt_rc = ''uregs[0]'', pt_sp = ''uregs[13]'',
      pt_ip = ''uregs[12]'', pt_syscall_ctx = False\<rparr>"

definition arm64_table :: pt_table where
  "arm64_table =
     \<lparr>pt_parm = [''regs[0]'', ''regs[1]'', ''regs[2]'', ''regs[3]'', ''regs[4]'', ''regs[5]'', ''regs[6]'', ''regs[7]''],
      pt_syscall = [''orig_x0'', ''regs[1]'', ''regs[2]'', ''regs[3]'', ''regs[4]'', ''regs[5]''],
      pt_ret = ''regs[30]'', pt_fp = Some ''regs[29]'', pt_rc = ''regs[0]'', pt_sp = ''sp'', pt_ip = ''pc'',
      pt_syscall_ctx = False\<rparr>"

definition mips_table :: pt_table where
  "mips_table =
     \<lparr>pt_parm = [''regs[4]'', ''regs[5]'', ''regs[6]'', ''regs[7]'', ''regs[8]'', ''regs[9]'', ''regs[10]'', ''regs[11]''],
      pt_syscall = [''regs[4]'', ''regs[5]'', ''regs[6]'', ''regs[7]'', ''regs[8]'', ''regs[9]''],
      pt_ret = ''regs[31]'', pt_fp = Some ''regs[30]'', pt_rc = ''regs[2]'', pt_sp = ''regs[29]'',
      pt_ip = ''cp0_epc'', pt_syscall_ctx = False\<rparr>"

definition powerpc_table :: "macros \<Rightarrow> pt_table" where
  "powerpc_table ms =
     \<lparr>pt_parm = [''gpr[3]'', ''gpr[4]'', ''gpr[5]'', ''gpr[6]'', ''gpr[7]'', ''gpr[8]'', ''gpr[9]'', ''gpr[10]''],
      pt_syscall = [''orig_gpr3'', ''gpr[4]'', ''gpr[5]'', ''gpr[6]'', ''gpr[7]'', ''gpr[8]'']
        @ (if is_defined ms ''__arch64__'' then [] else [''gpr[9]'']),
      pt_ret = ''regs[31]'', pt_fp = None, pt_rc = ''gpr[3]'', pt_sp = ''gpr[1]'', pt_ip = ''nip'',
      pt_syscall_ctx = True\<rparr>"

definition sparc_table :: "macros \<Rightarrow> pt_table" where
  "sparc_table ms =
     (let parms = [''u_regs[UREG_I0]'', ''u_regs[UREG_I1]'', ''u_regs[UREG_I2]'', ''u_regs[UREG_I3]'',
                   ''u_regs[UREG_I4]'', ''u_regs[UREG_I5]'']
      in \<lparr>pt_parm = parms, pt_syscall = parms,
          pt_ret = ''u_regs[UREG_I7]'', pt_fp = None, pt_rc = ''u_regs[UREG_I0]'', pt_sp = ''u_regs[UREG_FP]'',
          pt_ip = (if is_defined ms ''__arch64__'' then ''tpc'' else ''pc''), pt_syscall_ctx = False\<rparr>)"

definition riscv_table :: pt_table where
  "riscv_table =
     \<lparr>pt_parm = [''a0'', ''a1'', ''a2'', ''a3'', ''a4'', ''a5'', ''a6'', ''a7''],
      pt_syscall = [''orig_a0'', ''a1'', ''a2'', ''a3'', ''a4'', ''a5''],
      pt_ret = ''ra'', pt_fp = Some ''s0'', pt_rc = ''a0'', pt_sp = ''sp'', pt_ip = ''pc'',
      pt_syscall_ctx = False\<rparr>"

definition arc_table :: pt_table where
  "arc_table =
     \<lparr>pt_parm = [''scratch.r0'', ''scratch.r1'', ''scratch.r2'', ''scratch.r3'',
                 ''scratch.r4'', ''scratch.r5'', ''scratch.r6'', ''scratch.r7''],
      pt_syscall = [''scratch.r0'', ''scratch.r1'', ''scratch.r2'', ''scratch.r3'', ''scratch.r4'', ''scratch.r5''],
      pt_ret = ''scratch.blink'', pt_fp = Some ''scratch.fp'', pt_rc = ''scratch.r0'', pt_sp = ''scratch.sp'',
      pt_ip = ''scratch.ret'', pt_syscall_ctx = True\<rparr>"

definition loongarch_table :: pt_table where
  "loongarch_table =
     \<lparr>pt_parm = [''regs[4]'', ''regs[5]'', ''regs[6]'', ''regs[7]'', ''regs[8]'', ''regs[9]'', ''regs[10]'', ''regs[11]''],
      pt_syscall = [''regs[4]'', ''regs[5]'', ''regs[6]'', ''regs[7]'', ''regs[8]'', ''regs[9]''],
      pt_ret = ''regs[1]'', pt_fp = Some ''regs[22]'', pt_rc = ''regs[4]'', pt_sp = ''regs[3]'',
      pt_ip = ''csr_era'', pt_syscall_ctx = True\<rparr>"

primrec target_table :: "macros \<Rightarrow> bpf_target \<Rightarrow> pt_table" where
  "target_table ms bpf_target_x86 = x86_table ms"
| "target_table ms bpf_target_s390 = s390_table"
| "target_table ms bpf_target_arm = arm_table"
| "target_table ms bpf_target_arm64 = arm64_table"
| "target_table ms bpf_target_mips = mips_table"
| "target_table ms bpf_target_powerpc = powerpc_table ms"
| "target_table ms bpf_target_sparc = sparc_table ms"
| "target_table ms bpf_target_riscv = riscv_table"
| "target_table ms bpf_target_arc = arc_table"
| "target_table ms bpf_target_loongarch = loongarch_table"

lemmas pt_tables = x86_kernel_table_def i386_table_def x86_64_table_def s390_table_def arm_table_def
  arm64_table_def mips_table_def powerpc_table_def sparc_table_def riscv_table_def arc_table_def
  loongarch_table_def

text \<open>
  The tables are sane: no two parameters of one call share a register, function calls have
  between 3 and 8 parameter registers, and system calls 6 or 7, as the header's comment says.
\<close>

lemma target_table_registers:
  "distinct (pt_parm (target_table ms t)) \<and> distinct (pt_syscall (target_table ms t)) \<and>
   length (pt_parm (target_table ms t)) \<in> {3..8} \<and> length (pt_syscall (target_table ms t)) \<in> {6, 7}"
  by (cases t) (simp_all add: x86_table_def pt_tables Let_def)

text \<open>
  \<^verbatim>\<open>__PT_PARMn_REG\<close> and \<^verbatim>\<open>__PT_PARMn_SYSCALL_REG\<close>, \<open>n\<close> counted from 1, with the defaults
  \<^verbatim>\<open>__unsupported__\<close>.
\<close>

definition parm_reg :: "pt_table \<Rightarrow> nat \<Rightarrow> string option" where
  "parm_reg tab n = (if 1 \<le> n \<and> n \<le> length (pt_parm tab) then Some (pt_parm tab ! (n - 1)) else None)"

definition syscall_reg :: "pt_table \<Rightarrow> nat \<Rightarrow> string option" where
  "syscall_reg tab n = (if 1 \<le> n \<and> n \<le> length (pt_syscall tab) then Some (pt_syscall tab ! (n - 1)) else None)"

section \<open>Accessors\<close>

text \<open>
  The surroundings of an expansion: the macros of the build, the byte order of the target, the
  memory a context pointer reaches, the byte offset of each member of the register structure, the
  kernel's read helpers, and the first content of the locals of the read macros.
\<close>

record trace_env =
  te_macros :: macros
  te_order :: byte_order
  te_mem :: "u64 \<Rightarrow> u8"
  te_layout :: "string \<Rightarrow> u64"
  te_helpers :: read_helpers
  te_stack_t :: bytes
  te_stack_r :: bytes

definition BPF_TARGET_MISSING :: "u64 option" where
  "BPF_TARGET_MISSING = None"

definition te_table :: "trace_env \<Rightarrow> pt_table option" where
  "te_table te = map_option (target_table (te_macros te)) (select_target (te_macros te))"

text \<open>\<^verbatim>\<open>x->reg\<close>, and \<^verbatim>\<open>BPF_CORE_READ(x, reg)\<close>, of a 64-bit member.\<close>

definition reg_at :: "trace_env \<Rightarrow> u64 \<Rightarrow> string \<Rightarrow> u64" where
  "reg_at te x reg = load_at (te_order te) 8 (te_mem te) (x + te_layout te reg)"

definition reg_core :: "trace_env \<Rightarrow> u64 \<Rightarrow> string \<Rightarrow> u64 option" where
  "reg_core te x reg =
     map_option (load_word (te_order te))
       (BPF_CORE_READ (te_helpers te) (te_stack_t te) (te_stack_r te) x [te_layout te reg])"

definition pt_regs_parm :: "trace_env \<Rightarrow> nat \<Rightarrow> u64 \<Rightarrow> u64 option" where
  "pt_regs_parm te n x =
     (case te_table te of
        None \<Rightarrow> BPF_TARGET_MISSING
      | Some tab \<Rightarrow> map_option (reg_at te x) (parm_reg tab n))"

definition pt_regs_ret :: "trace_env \<Rightarrow> u64 \<Rightarrow> u64 option" where
  "pt_regs_ret te x = (case te_table te of None \<Rightarrow> BPF_TARGET_MISSING | Some tab \<Rightarrow> Some (reg_at te x (pt_ret tab)))"

definition pt_regs_fp :: "trace_env \<Rightarrow> u64 \<Rightarrow> u64 option" where
  "pt_regs_fp te x =
     (case te_table te of None \<Rightarrow> BPF_TARGET_MISSING | Some tab \<Rightarrow> map_option (reg_at te x) (pt_fp tab))"

definition pt_regs_rc :: "trace_env \<Rightarrow> u64 \<Rightarrow> u64 option" where
  "pt_regs_rc te x = (case te_table te of None \<Rightarrow> BPF_TARGET_MISSING | Some tab \<Rightarrow> Some (reg_at te x (pt_rc tab)))"

definition pt_regs_sp :: "trace_env \<Rightarrow> u64 \<Rightarrow> u64 option" where
  "pt_regs_sp te x = (case te_table te of None \<Rightarrow> BPF_TARGET_MISSING | Some tab \<Rightarrow> Some (reg_at te x (pt_sp tab)))"

definition pt_regs_ip :: "trace_env \<Rightarrow> u64 \<Rightarrow> u64 option" where
  "pt_regs_ip te x = (case te_table te of None \<Rightarrow> BPF_TARGET_MISSING | Some tab \<Rightarrow> Some (reg_at te x (pt_ip tab)))"

definition pt_regs_parm_core :: "trace_env \<Rightarrow> nat \<Rightarrow> u64 \<Rightarrow> u64 option" where
  "pt_regs_parm_core te n x =
     (case te_table te of
        None \<Rightarrow> BPF_TARGET_MISSING
      | Some tab \<Rightarrow> Option.bind (parm_reg tab n) (reg_core te x))"

definition pt_regs_ret_core :: "trace_env \<Rightarrow> u64 \<Rightarrow> u64 option" where
  "pt_regs_ret_core te x = (case te_table te of None \<Rightarrow> BPF_TARGET_MISSING | Some tab \<Rightarrow> reg_core te x (pt_ret tab))"

definition pt_regs_fp_core :: "trace_env \<Rightarrow> u64 \<Rightarrow> u64 option" where
  "pt_regs_fp_core te x =
     (case te_table te of None \<Rightarrow> BPF_TARGET_MISSING | Some tab \<Rightarrow> Option.bind (pt_fp tab) (reg_core te x))"

definition pt_regs_rc_core :: "trace_env \<Rightarrow> u64 \<Rightarrow> u64 option" where
  "pt_regs_rc_core te x = (case te_table te of None \<Rightarrow> BPF_TARGET_MISSING | Some tab \<Rightarrow> reg_core te x (pt_rc tab))"

definition pt_regs_sp_core :: "trace_env \<Rightarrow> u64 \<Rightarrow> u64 option" where
  "pt_regs_sp_core te x = (case te_table te of None \<Rightarrow> BPF_TARGET_MISSING | Some tab \<Rightarrow> reg_core te x (pt_sp tab))"

definition pt_regs_ip_core :: "trace_env \<Rightarrow> u64 \<Rightarrow> u64 option" where
  "pt_regs_ip_core te x = (case te_table te of None \<Rightarrow> BPF_TARGET_MISSING | Some tab \<Rightarrow> reg_core te x (pt_ip tab))"

text \<open>
  The return address of the traced function: a member of its own, the return register, or the
  word the kernel reads where the return register or the frame pointer leads.  \<open>ip\<close> is the content
  of the variable before.
\<close>

definition read_ip :: "trace_env \<Rightarrow> u64 \<Rightarrow> u64 \<Rightarrow> u64" where
  "read_ip te ip a =
     load_word (te_order te)
       (mem_write (store_word (te_order te) 8 ip) (snd (probe_read_kernel (te_helpers te) 8 a)))"

definition BPF_KPROBE_READ_RET_IP :: "trace_env \<Rightarrow> u64 \<Rightarrow> u64 \<Rightarrow> u64 option" where
  "BPF_KPROBE_READ_RET_IP te ip ctx =
     (case select_target (te_macros te) of
        None \<Rightarrow> BPF_TARGET_MISSING
      | Some t \<Rightarrow>
          if t = bpf_target_powerpc then Some (reg_at te ctx ''link'')
          else if t = bpf_target_sparc \<or> t = bpf_target_arm64 then pt_regs_ret te ctx
          else map_option (read_ip te ip) (pt_regs_ret te ctx))"

definition BPF_KRETPROBE_READ_RET_IP :: "trace_env \<Rightarrow> u64 \<Rightarrow> u64 \<Rightarrow> u64 option" where
  "BPF_KRETPROBE_READ_RET_IP te ip ctx =
     (case select_target (te_macros te) of
        None \<Rightarrow> BPF_TARGET_MISSING
      | Some t \<Rightarrow>
          if t = bpf_target_powerpc \<or> t = bpf_target_sparc \<or> t = bpf_target_arm64
          then BPF_KPROBE_READ_RET_IP te ip ctx
          else map_option (\<lambda>fp. read_ip te ip (fp + 8)) (pt_regs_fp te ctx))"

definition pt_regs_parm_syscall :: "trace_env \<Rightarrow> nat \<Rightarrow> u64 \<Rightarrow> u64 option" where
  "pt_regs_parm_syscall te n x =
     (case te_table te of
        None \<Rightarrow> BPF_TARGET_MISSING
      | Some tab \<Rightarrow> map_option (reg_at te x) (syscall_reg tab n))"

definition pt_regs_parm_core_syscall :: "trace_env \<Rightarrow> nat \<Rightarrow> u64 \<Rightarrow> u64 option" where
  "pt_regs_parm_core_syscall te n x =
     (case te_table te of
        None \<Rightarrow> BPF_TARGET_MISSING
      | Some tab \<Rightarrow> Option.bind (syscall_reg tab n) (reg_core te x))"

definition PT_REGS_SYSCALL_REGS :: "trace_env \<Rightarrow> u64 \<Rightarrow> u64 option" where
  "PT_REGS_SYSCALL_REGS te ctx =
     (case te_table te of
        Some tab \<Rightarrow> if pt_syscall_ctx tab then Some ctx else pt_regs_parm te 1 ctx
      | None \<Rightarrow> pt_regs_parm te 1 ctx)"

section \<open>Programs on an array of slots\<close>

text \<open>
  A declared parameter is a scalar, an integer or a pointer, of so many bytes, or a structure.
  \<^verbatim>\<open>BPF_PROG\<close> passes slot \<open>k\<close> of the context as argument \<open>k\<close>, by C's conversion to the type declared,
  which exists for scalars only.
\<close>

datatype c_type = Scalar nat | Struct nat

primrec c_sizeof :: "c_type \<Rightarrow> nat" where
  "c_sizeof (Scalar n) = n"
| "c_sizeof (Struct n) = n"

definition ctx_slot :: "trace_env \<Rightarrow> u64 \<Rightarrow> nat \<Rightarrow> u64" where
  "ctx_slot te ctx n = load_at (te_order te) 8 (te_mem te) (ctx + of_nat (8 * n))"

primrec bpf_ctx_castN :: "trace_env \<Rightarrow> u64 \<Rightarrow> nat \<Rightarrow> u64 list" where
  "bpf_ctx_castN te ctx 0 = []"
| "bpf_ctx_castN te ctx (Suc n) = bpf_ctx_castN te ctx n @ [ctx_slot te ctx n]"

definition bpf_ctx_cast :: "trace_env \<Rightarrow> u64 \<Rightarrow> c_type list \<Rightarrow> u64 list option" where
  "bpf_ctx_cast te ctx args = map_option (bpf_ctx_castN te ctx) (bpf_narg args)"

fun c_convert :: "trace_env \<Rightarrow> c_type \<Rightarrow> u64 \<Rightarrow> bytes option" where
  "c_convert te (Scalar n) v = (if n \<in> {1, 2, 4, 8} then Some (store_word (te_order te) n v) else None)"
| "c_convert te (Struct n) v = None"

fun c_converts :: "trace_env \<Rightarrow> c_type list \<Rightarrow> u64 list \<Rightarrow> bytes list option" where
  "c_converts te (t # ts) (v # vs) = do { b \<leftarrow> c_convert te t v; bs \<leftarrow> c_converts te ts vs; Some (b # bs) }"
| "c_converts te [] [] = Some []"
| "c_converts te _ _ = None"

definition BPF_PROG :: "trace_env \<Rightarrow> c_type list \<Rightarrow> u64 \<Rightarrow> (u64 \<times> bytes list) option" where
  "BPF_PROG te args ctx = do {
     vs \<leftarrow> bpf_ctx_cast te ctx args;
     bs \<leftarrow> c_converts te args vs;
     Some (ctx, bs) }"

text \<open>\<^verbatim>\<open>BPF_PROG2\<close> gives a structure of 16 bytes two slots, and counts the slots from the end.\<close>

definition bpf_narg2 :: "'a list \<Rightarrow> nat option" where
  "bpf_narg2 args = (if length args \<le> 12 then Some (length args) else None)"

definition bpf_treg_cnt :: "c_type \<Rightarrow> nat option" where
  "bpf_treg_cnt t =
     (if c_sizeof t = 1 then Some 1
      else if c_sizeof t = 2 then Some 1
      else if c_sizeof t = 4 then Some 1
      else if c_sizeof t = 8 then Some 1
      else if c_sizeof t = 16 then Some 2
      else None)"

primrec bpf_reg_cnt :: "c_type list \<Rightarrow> nat option" where
  "bpf_reg_cnt [] = Some 0"
| "bpf_reg_cnt (t # args) = do { r \<leftarrow> bpf_reg_cnt args; c \<leftarrow> bpf_treg_cnt t; Some (r + c) }"

definition bpf_union_arg :: "trace_env \<Rightarrow> u64 \<Rightarrow> c_type \<Rightarrow> nat \<Rightarrow> bytes option" where
  "bpf_union_arg te ctx t n =
     (let z = (\<lambda>k. store_word (te_order te) k (ctx_slot te ctx n)) in
      if c_sizeof t = 1 then Some (z 1)
      else if c_sizeof t = 2 then Some (z 2)
      else if c_sizeof t = 4 then Some (z 4)
      else if c_sizeof t = 8 then Some (z 8)
      else if c_sizeof t = 16 then Some (z 8 @ store_word (te_order te) 8 (ctx_slot te ctx (n + 1)))
      else None)"

primrec bpf_ctx_arg :: "trace_env \<Rightarrow> u64 \<Rightarrow> nat \<Rightarrow> c_type list \<Rightarrow> bytes list option" where
  "bpf_ctx_arg te ctx n [] = Some []"
| "bpf_ctx_arg te ctx n (t # args) = do {
     c \<leftarrow> bpf_reg_cnt (t # args);
     a \<leftarrow> bpf_union_arg te ctx t (n - c);
     as \<leftarrow> bpf_ctx_arg te ctx n args;
     Some (a # as) }"

definition BPF_PROG2 :: "trace_env \<Rightarrow> c_type list \<Rightarrow> u64 \<Rightarrow> (u64 \<times> bytes list) option" where
  "BPF_PROG2 te args ctx = do {
     _ \<leftarrow> bpf_narg2 args;
     n \<leftarrow> bpf_reg_cnt args;
     bs \<leftarrow> bpf_ctx_arg te ctx n args;
     Some (ctx, bs) }"

section \<open>Programs on registers\<close>

text \<open>The wrappers differ in the accessor, and in how many arguments they have a case for.\<close>

primrec reg_args :: "(nat \<Rightarrow> u64 option) \<Rightarrow> nat \<Rightarrow> u64 list option" where
  "reg_args parm 0 = Some []"
| "reg_args parm (Suc n) = do { vs \<leftarrow> reg_args parm n; v \<leftarrow> parm (Suc n); Some (vs @ [v]) }"

definition bpf_kprobe_args :: "trace_env \<Rightarrow> u64 \<Rightarrow> nat \<Rightarrow> u64 list option" where
  "bpf_kprobe_args te ctx n = (if n \<le> 8 then reg_args (\<lambda>i. pt_regs_parm te i ctx) n else None)"

definition BPF_KPROBE :: "trace_env \<Rightarrow> nat \<Rightarrow> u64 \<Rightarrow> (u64 \<times> u64 list) option" where
  "BPF_KPROBE te n ctx = map_option (Pair ctx) (bpf_kprobe_args te ctx n)"

definition bpf_kretprobe_args :: "trace_env \<Rightarrow> u64 \<Rightarrow> nat \<Rightarrow> u64 list option" where
  "bpf_kretprobe_args te ctx n = (if n \<le> 1 then reg_args (\<lambda>_. pt_regs_rc te ctx) n else None)"

definition BPF_KRETPROBE :: "trace_env \<Rightarrow> nat \<Rightarrow> u64 \<Rightarrow> (u64 \<times> u64 list) option" where
  "BPF_KRETPROBE te n ctx = map_option (Pair ctx) (bpf_kretprobe_args te ctx n)"

definition bpf_syscall_args :: "trace_env \<Rightarrow> u64 \<Rightarrow> nat \<Rightarrow> u64 list option" where
  "bpf_syscall_args te regs n = (if n \<le> 7 then reg_args (\<lambda>i. pt_regs_parm_syscall te i regs) n else None)"

definition bpf_syswrap_args :: "trace_env \<Rightarrow> u64 \<Rightarrow> nat \<Rightarrow> u64 list option" where
  "bpf_syswrap_args te regs n = (if n \<le> 7 then reg_args (\<lambda>i. pt_regs_parm_core_syscall te i regs) n else None)"

definition BPF_KSYSCALL :: "bool \<Rightarrow> trace_env \<Rightarrow> nat \<Rightarrow> u64 \<Rightarrow> (u64 \<times> u64 list) option" where
  "BPF_KSYSCALL LINUX_HAS_SYSCALL_WRAPPER te n ctx = do {
     regs \<leftarrow> (if LINUX_HAS_SYSCALL_WRAPPER then pt_regs_parm te 1 ctx else Some ctx);
     args \<leftarrow> (if LINUX_HAS_SYSCALL_WRAPPER then bpf_syswrap_args te regs n else bpf_syscall_args te regs n);
     Some (ctx, args) }"

definition BPF_UPROBE :: "trace_env \<Rightarrow> nat \<Rightarrow> u64 \<Rightarrow> (u64 \<times> u64 list) option" where
  "BPF_UPROBE te n ctx = BPF_KPROBE te n ctx"

definition BPF_URETPROBE :: "trace_env \<Rightarrow> nat \<Rightarrow> u64 \<Rightarrow> (u64 \<times> u64 list) option" where
  "BPF_URETPROBE te n ctx = BPF_KRETPROBE te n ctx"

end
