(* ===== verification/Tracing_Properties.thy ===== *)
theory Tracing_Properties
  imports Tracing Ssl_Common
begin

text \<open>
  What the argument macros deliver: \<^verbatim>\<open>BPF_PROG2\<close> hands out consecutive slots, \<^verbatim>\<open>BPF_KSYSCALL\<close> finds
  the same arguments with and without a system call wrapper, and on the two targets the probes
  are built for the accessors are the ones the TLS probes are modelled with.
\<close>

section \<open>Slots\<close>

definition slots :: "c_type \<Rightarrow> nat" where
  "slots t = (if c_sizeof t = 16 then 2 else 1)"

definition slots_value :: "trace_env \<Rightarrow> u64 \<Rightarrow> c_type \<Rightarrow> nat \<Rightarrow> bytes" where
  "slots_value te ctx t k =
     (if c_sizeof t = 16
      then store_word (te_order te) 8 (ctx_slot te ctx k) @ store_word (te_order te) 8 (ctx_slot te ctx (k + 1))
      else store_word (te_order te) (c_sizeof t) (ctx_slot te ctx k))"

definition passable :: "c_type \<Rightarrow> bool" where
  "passable t \<longleftrightarrow> c_sizeof t \<in> {1, 2, 4, 8, 16}"

lemma reg_cnt_slots: "\<forall>t \<in> set args. passable t \<Longrightarrow> bpf_reg_cnt args = Some (sum_list (map slots args))"
  by (induction args) (auto simp: passable_def bpf_treg_cnt_def slots_def)

lemma union_arg_slots: "passable t \<Longrightarrow> bpf_union_arg te ctx t k = Some (slots_value te ctx t k)"
  by (auto simp: passable_def bpf_union_arg_def slots_value_def Let_def)

primrec slot_values :: "trace_env \<Rightarrow> u64 \<Rightarrow> nat \<Rightarrow> c_type list \<Rightarrow> bytes list" where
  "slot_values te ctx k [] = []"
| "slot_values te ctx k (t # ts) = slots_value te ctx t k # slot_values te ctx (k + slots t) ts"

lemma length_slot_values [simp]: "length (slot_values te ctx k args) = length args"
  by (induction args arbitrary: k) simp_all

lemma nth_slot_values:
  "i < length args \<Longrightarrow>
   slot_values te ctx k args ! i = slots_value te ctx (args ! i) (k + sum_list (map slots (take i args)))"
proof (induction args arbitrary: k i)
  case (Cons t ts)
  then show ?case by (cases i) (simp_all add: add.assoc)
qed simp

lemma ctx_arg_slots:
  assumes "\<forall>t \<in> set args. passable t"
  shows "bpf_ctx_arg te ctx (k + sum_list (map slots args)) args = Some (slot_values te ctx k args)"
  using assms
proof (induction args arbitrary: k)
  case (Cons t ts)
  have "bpf_ctx_arg te ctx ((k + slots t) + sum_list (map slots ts)) ts = Some (slot_values te ctx (k + slots t) ts)"
    using Cons by simp
  moreover have "bpf_reg_cnt (t # ts) = Some (sum_list (map slots (t # ts)))"
    using Cons.prems by (rule reg_cnt_slots)
  ultimately show ?case
    using Cons.prems union_arg_slots [of t te ctx k] by (simp del: bpf_reg_cnt.simps add: add.assoc)
qed simp

definition scalar :: "c_type \<Rightarrow> bool" where
  "scalar t \<longleftrightarrow> t = Scalar (c_sizeof t) \<and> c_sizeof t \<in> {1, 2, 4, 8}"

lemma ctx_castN_slots: "bpf_ctx_castN te ctx n = map (ctx_slot te ctx) [0..<n]"
  by (induction n) simp_all

lemma converts_slots:
  "\<forall>t \<in> set args. scalar t \<Longrightarrow>
   c_converts te args (map (ctx_slot te ctx) [k..<k + length args]) = Some (slot_values te ctx k args)"
proof (induction args arbitrary: k)
  case (Cons t ts)
  obtain n where t: "t = Scalar n" "n \<in> {1, 2, 4, 8}" using Cons.prems by (auto simp: scalar_def)
  then have "c_convert te t (ctx_slot te ctx k) = Some (slots_value te ctx t k)" "slots t = 1"
    by (auto simp: slots_value_def slots_def)
  moreover have "[k..<k + length (t # ts)] = k # [Suc k..<Suc k + length ts]"
    by (subst upt_conv_Cons) simp_all
  ultimately show ?case using Cons.IH [of "Suc k"] Cons.prems by simp
qed simp

text \<open>
  \<^verbatim>\<open>BPF_PROG2\<close>, which counts the slots from the end of the parameter list, gives each of up to
  twelve parameters its own consecutive slots of the context: parameter \<open>k\<close> starts right after the
  slots of the parameters before it, one for a type of at most 8 bytes and two for one of 16.  Where
  every parameter is a scalar, it agrees with \<^verbatim>\<open>BPF_PROG\<close>.
\<close>

lemma prog2_slots:
  assumes "length args \<le> 12" and "\<forall>t \<in> set args. passable t"
  shows "(\<exists>bs. BPF_PROG2 te args ctx = Some (ctx, bs) \<and> length bs = length args \<and>
       (\<forall>k < length args. bs ! k = slots_value te ctx (args ! k) (sum_list (map slots (take k args))))) \<and>
     ((\<forall>t \<in> set args. scalar t) \<longrightarrow> BPF_PROG te args ctx = BPF_PROG2 te args ctx)"
proof (intro conjI impI)
  have two: "BPF_PROG2 te args ctx = Some (ctx, slot_values te ctx 0 args)"
    using assms reg_cnt_slots [OF assms(2)] ctx_arg_slots [OF assms(2), of te ctx 0]
    by (simp add: BPF_PROG2_def bpf_narg2_def)
  then show "\<exists>bs. BPF_PROG2 te args ctx = Some (ctx, bs) \<and> length bs = length args \<and>
      (\<forall>k < length args. bs ! k = slots_value te ctx (args ! k) (sum_list (map slots (take k args))))"
    by (simp add: nth_slot_values)
  assume "\<forall>t \<in> set args. scalar t"
  then show "BPF_PROG te args ctx = BPF_PROG2 te args ctx"
    using two assms(1) converts_slots [of args te ctx 0]
    by (simp add: BPF_PROG_def bpf_ctx_cast_def bpf_narg_def ctx_castN_slots)
qed

definition demo_trace_env :: "macros \<Rightarrow> (string \<Rightarrow> u64) \<Rightarrow> (u64 \<Rightarrow> u8) \<Rightarrow> trace_env" where
  "demo_trace_env ms layout byte =
     \<lparr>te_macros = ms, te_order = LITTLE_ENDIAN, te_mem = byte, te_layout = layout,
      te_helpers = demo_read_helpers byte, te_stack_t = replicate 8 99, te_stack_r = replicate 8 77\<rparr>"

lemma prog2_slots_example:
  "(\<exists>bs. BPF_PROG2 (demo_trace_env Map.empty (\<lambda>_. 0) ucast) [Scalar 4, Struct 16, Scalar 2] 0x1000 = Some (0x1000, bs) \<and>
      bs ! 2 = to_le 2 (ctx_slot (demo_trace_env Map.empty (\<lambda>_. 0) ucast) 0x1000 3)) \<and>
   BPF_PROG (demo_trace_env Map.empty (\<lambda>_. 0) ucast) [Scalar 8, Scalar 4] 0x1000 =
     BPF_PROG2 (demo_trace_env Map.empty (\<lambda>_. 0) ucast) [Scalar 8, Scalar 4] 0x1000"
proof -
  let ?te = "demo_trace_env Map.empty (\<lambda>_. 0) ucast"
  have "length [Scalar 4, Struct 16, Scalar 2] \<le> 12" "\<forall>t \<in> set [Scalar 4, Struct 16, Scalar 2]. passable t"
    by (simp_all add: passable_def)
  from prog2_slots [OF this, of ?te "0x1000"] obtain bs where
      "BPF_PROG2 ?te [Scalar 4, Struct 16, Scalar 2] 0x1000 = Some (0x1000, bs)"
      "bs ! 2 = slots_value ?te 0x1000 (Scalar 2) (sum_list (map slots [Scalar 4, Struct 16]))"
    by (fastforce simp: numeral_2_eq_2)
  moreover have "slots_value ?te 0x1000 (Scalar 2) (sum_list (map slots [Scalar 4, Struct 16])) = to_le 2 (ctx_slot ?te 0x1000 3)"
    by (simp add: slots_value_def slots_def demo_trace_env_def eval_nat_numeral)
  ultimately show ?thesis
    using prog2_slots [of "[Scalar 8, Scalar 4]" ?te "0x1000"] by (simp add: passable_def scalar_def)
qed

section \<open>System calls\<close>

lemma reg_core_reads:
  assumes "length (te_stack_r te) = 8"
    and "probe_read_kernel (te_helpers te) 8 (x + te_layout te reg) = (0, bytes_at (te_mem te) 8 (x + te_layout te reg))"
  shows "reg_core te x reg = Some (reg_at te x reg)"
  using assms
  by (simp add: reg_core_def reg_at_def BPF_CORE_READ_def BPF_CORE_READ_INTO_def macro_arrow_def macro_narg_def
      macro_empty_def core_read0_def read_accessor_def bpf_core_read_def mem_write_def load_at_def bytes_at_def)

lemma reg_args_all:
  "\<forall>i \<in> {1..n}. parm i = Some (f i) \<Longrightarrow> reg_args parm n = Some (map f [1..<Suc n])"
  by (induction n) simp_all

lemma map_upt_take: "n \<le> length xs \<Longrightarrow> map (\<lambda>i. f (xs ! (i - Suc 0))) [Suc 0..<Suc n] = map f (take n xs)"
  by (rule nth_equalityI) (simp_all del: upt_Suc)

text \<open>
  \<^verbatim>\<open>BPF_KSYSCALL\<close> finds the system call's arguments in both kinds of kernel.  Without a wrapper
  they are the first system call registers of the context; with one, the context's first parameter
  points to the caller's register block and the arguments are the same registers of that block,
  read through the kernel's helper.
\<close>

lemma ksyscall_arguments:
  assumes "te_table te = Some tab" and "n \<le> length (pt_syscall tab)" and "length (te_stack_r te) = 8"
    and "pt_regs_parm te 1 ctx = Some regs"
    and "\<forall>r \<in> set (pt_syscall tab). probe_read_kernel (te_helpers te) 8 (regs + te_layout te r) =
           (0, bytes_at (te_mem te) 8 (regs + te_layout te r))"
  shows "BPF_KSYSCALL False te n ctx = Some (ctx, map (reg_at te ctx) (take n (pt_syscall tab))) \<and>
         BPF_KSYSCALL True te n ctx = Some (ctx, map (reg_at te regs) (take n (pt_syscall tab)))"
proof (rule conjI)
  obtain t where "tab = target_table (te_macros te) t" using assms(1) by (auto simp: te_table_def)
  then have "length (pt_syscall tab) \<le> 7" using target_table_registers [of "te_macros te" t] by auto
  with assms(2) have n: "n \<le> 7" by simp
  have "reg_args (\<lambda>i. pt_regs_parm_syscall te i ctx) n = Some (map (\<lambda>i. reg_at te ctx (pt_syscall tab ! (i - 1))) [1..<Suc n])"
    by (rule reg_args_all) (use assms(1,2) in \<open>simp add: pt_regs_parm_syscall_def syscall_reg_def\<close>)
  with n assms(2) show "BPF_KSYSCALL False te n ctx = Some (ctx, map (reg_at te ctx) (take n (pt_syscall tab)))"
    by (simp add: BPF_KSYSCALL_def bpf_syscall_args_def map_upt_take del: upt_Suc)
  have core: "reg_core te regs (pt_syscall tab ! (i - 1)) = Some (reg_at te regs (pt_syscall tab ! (i - 1)))"
    if "i \<in> {1..n}" for i
  proof (rule reg_core_reads [OF assms(3)])
    have "pt_syscall tab ! (i - 1) \<in> set (pt_syscall tab)" using that assms(2) by (intro nth_mem) auto
    with assms(5) show "probe_read_kernel (te_helpers te) 8 (regs + te_layout te (pt_syscall tab ! (i - 1))) =
        (0, bytes_at (te_mem te) 8 (regs + te_layout te (pt_syscall tab ! (i - 1))))" by blast
  qed
  have "reg_args (\<lambda>i. pt_regs_parm_core_syscall te i regs) n = Some (map (\<lambda>i. reg_at te regs (pt_syscall tab ! (i - 1))) [1..<Suc n])"
    by (rule reg_args_all)
      (use assms(1,2) core in \<open>simp add: pt_regs_parm_core_syscall_def syscall_reg_def\<close>)
  with n assms(2,4) show "BPF_KSYSCALL True te n ctx = Some (ctx, map (reg_at te regs) (take n (pt_syscall tab)))"
    by (simp add: BPF_KSYSCALL_def bpf_syswrap_args_def map_upt_take del: upt_Suc)
qed

lemma ksyscall_arguments_example:
  "BPF_KSYSCALL True (demo_trace_env [''__TARGET_ARCH_x86'' \<mapsto> 1] (\<lambda>r. if r = ''rdi'' then 112 else 0)
     (store_at LITTLE_ENDIAN 8 0x1070 0x2000 (store_at LITTLE_ENDIAN 8 0x2070 42 (\<lambda>_. 0)))) 1 0x1000 = Some (0x1000, [42])"
proof -
  let ?m = "store_at LITTLE_ENDIAN 8 0x1070 0x2000 (store_at LITTLE_ENDIAN 8 0x2070 42 (\<lambda>_. 0))"
  let ?te = "demo_trace_env [''__TARGET_ARCH_x86'' \<mapsto> 1] (\<lambda>r. if r = ''rdi'' then 112 else 0) ?m"
  have tab: "te_table ?te = Some x86_64_table"
    by (simp add: te_table_def demo_trace_env_def select_target_def arch_target_def is_defined_def x86_table_def)
  have outer: "load_at LITTLE_ENDIAN 8 ?m 0x1070 = 0x2000"
    using load_store_at [of 8 LITTLE_ENDIAN "0x1070" "0x2000"] by simp
  have "load_at LITTLE_ENDIAN 8 ?m 0x2070 = load_at LITTLE_ENDIAN 8 (store_at LITTLE_ENDIAN 8 0x2070 42 (\<lambda>_. 0)) 0x2070"
    by (simp add: load_at_def store_at_def upt_conv_Cons)
  also have "\<dots> = 42" using load_store_at [of 8 LITTLE_ENDIAN "0x2070" "42"] by simp
  finally have inner: "load_at LITTLE_ENDIAN 8 ?m 0x2070 = 42" .
  have "pt_regs_parm ?te 1 0x1000 = Some 0x2000"
    using tab outer by (simp add: pt_regs_parm_def parm_reg_def x86_64_table_def reg_at_def demo_trace_env_def)
  moreover have "probe_read_kernel (te_helpers ?te) 8 a = (0, bytes_at (te_mem ?te) 8 a)" for a
    by (simp add: demo_trace_env_def demo_read_helpers_def mem_read_def bytes_at_def list_ex_iff)
  ultimately have "BPF_KSYSCALL True ?te 1 0x1000 = Some (0x1000, map (reg_at ?te 0x2000) (take 1 (pt_syscall x86_64_table)))"
    using ksyscall_arguments [OF tab, of 1 "0x1000" "0x2000"] by (simp add: demo_trace_env_def x86_64_table_def)
  with inner show ?thesis by (simp add: x86_64_table_def reg_at_def demo_trace_env_def)
qed

section \<open>The two build targets\<close>

text \<open>The register structures of \<^verbatim>\<open>headers/common.h\<close>, member by member, each of 8 bytes.\<close>

primrec members :: "pt_regs \<Rightarrow> (string \<times> u64) list" where
  "members (X86_Regs r) =
     [(''r15'', r15 r), (''r14'', r14 r), (''r13'', r13 r), (''r12'', r12 r), (''rbp'', rbp r), (''rbx'', rbx r),
      (''r11'', r11 r), (''r10'', r10 r), (''r9'', r9 r), (''r8'', r8 r), (''rax'', rax r), (''rcx'', rcx r),
      (''rdx'', rdx r), (''rsi'', rsi r), (''rdi'', rdi r), (''orig_rax'', orig_rax r), (''rip'', rip r),
      (''cs'', cs_reg r), (''eflags'', eflags r), (''rsp'', rsp r), (''ss'', ss_reg r)]"
| "members (Arm64_Regs r) =
     map (\<lambda>i. (''regs['' @ (if i < 10 then [] else [char_of (48 + i div 10)]) @ [char_of (48 + i mod 10)] @ '']'',
               arm_regs r i)) [0..<31]
     @ [(''sp'', arm_sp r), (''pc'', arm_pc r), (''pstate'', arm_pstate r)]"

primrec build_macros :: "pt_regs \<Rightarrow> macros" where
  "build_macros (X86_Regs _) = [''__TARGET_ARCH_x86'' \<mapsto> 1]"
| "build_macros (Arm64_Regs _) = [''__TARGET_ARCH_arm64'' \<mapsto> 1]"

definition member_offset :: "(string \<times> u64) list \<Rightarrow> string \<Rightarrow> u64" where
  "member_offset ms m = of_nat (8 * length (takeWhile (\<lambda>(k, _). k \<noteq> m) ms))"

definition registers_at :: "trace_env \<Rightarrow> u64 \<Rightarrow> pt_regs \<Rightarrow> bool" where
  "registers_at te ctx regs \<longleftrightarrow>
     te_macros te = build_macros regs \<and> te_order te = LITTLE_ENDIAN \<and>
     te_layout te = member_offset (members regs) \<and>
     bytes_at (te_mem te) (8 * length (members regs)) ctx = concat (map (to_le 8 \<circ> snd) (members regs))"

lemma nth_concat_blocks:
  assumes "\<forall>x \<in> set xs. length (f x) = n" and "i < length xs" and "j < n"
  shows "concat (map f xs) ! (n * i + j) = f (xs ! i) ! j"
  using assms
proof (induction xs arbitrary: i)
  case (Cons x xs)
  then show ?case by (cases i) (auto simp: nth_append)
qed simp

lemma reg_at_member:
  assumes "registers_at te ctx regs" and "i < length (members regs)"
    and "te_layout te reg = of_nat (8 * i)"
  shows "reg_at te ctx reg = snd (members regs ! i)"
proof -
  have "bytes_at (te_mem te) 8 (ctx + of_nat (8 * i)) = to_le 8 (snd (members regs ! i))"
  proof (rule nth_equalityI)
    fix j
    assume j: "j < length (bytes_at (te_mem te) 8 (ctx + of_nat (8 * i)))"
    then have j8: "j < 8" by (simp add: bytes_at_def)
    then have lt: "8 * i + j < 8 * length (members regs)" using assms(2) by simp
    have "bytes_at (te_mem te) 8 (ctx + of_nat (8 * i)) ! j = te_mem te (ctx + of_nat (8 * i + j))"
      using j8 by (simp add: bytes_at_def add.assoc)
    also have "\<dots> = bytes_at (te_mem te) (8 * length (members regs)) ctx ! (8 * i + j)"
      using lt by (simp add: bytes_at_def)
    also have "\<dots> = to_le 8 (snd (members regs ! i)) ! j"
      using assms(1,2) j8 nth_concat_blocks [of "members regs" "to_le 8 \<circ> snd" 8 i j]
      by (simp add: registers_at_def)
    finally show "bytes_at (te_mem te) 8 (ctx + of_nat (8 * i)) ! j = to_le 8 (snd (members regs ! i)) ! j" .
  qed (simp add: bytes_at_def)
  with assms(1,3) show ?thesis
    using le_word_to_le [where 'a = 64 and k = 8]
    by (simp add: reg_at_def load_at_def bytes_at_def registers_at_def)
qed

lemma x86_build: "arch_target (build_macros (X86_Regs r)) = Some bpf_target_x86"
  "x86_table (build_macros (X86_Regs r)) = x86_64_table"
  by (simp_all add: arch_target_def is_defined_def x86_table_def)

lemma arm64_build: "arch_target (build_macros (Arm64_Regs r)) = Some bpf_target_arm64"
  by (simp add: arch_target_def is_defined_def)

lemma x86_offsets:
  "member_offset (members (X86_Regs r)) ''rdi'' = of_nat (8 * 14)"
  "member_offset (members (X86_Regs r)) ''rsi'' = of_nat (8 * 13)"
  "member_offset (members (X86_Regs r)) ''rdx'' = of_nat (8 * 12)"
  "member_offset (members (X86_Regs r)) ''rcx'' = of_nat (8 * 11)"
  "member_offset (members (X86_Regs r)) ''rax'' = of_nat (8 * 10)"
  by (simp_all add: member_offset_def)

lemma arm64_offsets:
  "member_offset (members (Arm64_Regs r)) ''regs[0]'' = of_nat (8 * 0)"
  "member_offset (members (Arm64_Regs r)) ''regs[1]'' = of_nat (8 * 1)"
  "member_offset (members (Arm64_Regs r)) ''regs[2]'' = of_nat (8 * 2)"
  "member_offset (members (Arm64_Regs r)) ''regs[3]'' = of_nat (8 * 3)"
  by (simp_all add: member_offset_def upt_conv_Cons char_of_def bit_0)


text \<open>
  C39: the register accessors the TLS probes are modelled with are the expansion of the header's
  macros on both build targets.  With \<^verbatim>\<open>__TARGET_ARCH_x86\<close> or \<^verbatim>\<open>__TARGET_ARCH_arm64\<close> defined, and the
  context pointing to the register structure of \<^verbatim>\<open>common.h\<close> laid out in memory, \<^verbatim>\<open>PT_REGS_PARM1\<close> to
  \<^verbatim>\<open>PT_REGS_PARM4\<close> and \<^verbatim>\<open>PT_REGS_RC\<close> select the table of that target and load exactly these registers.
\<close>

theorem ssl_registers_from_header:
  assumes "registers_at te ctx regs"
  shows "pt_regs_parm te 1 ctx = Some (PT_REGS_PARM1 regs) \<and>
         pt_regs_parm te 2 ctx = Some (PT_REGS_PARM2 regs) \<and>
         pt_regs_parm te 3 ctx = Some (PT_REGS_PARM3 regs) \<and>
         pt_regs_parm te 4 ctx = Some (PT_REGS_PARM4 regs) \<and>
         pt_regs_rc te ctx = Some (PT_REGS_RC regs)"
proof (cases regs)
  case (X86_Regs r)
  have tab: "te_table te = Some x86_64_table"
    using assms X86_Regs by (simp add: registers_at_def te_table_def select_target_def x86_build del: build_macros.simps)
  have at: "reg_at te ctx reg = snd (members (X86_Regs r) ! i)"
    if "i < 21" "member_offset (members (X86_Regs r)) reg = of_nat (8 * i)" for reg i
    using reg_at_member [of te ctx regs i reg] assms that X86_Regs by (simp add: registers_at_def)
  show ?thesis
    using X86_Regs tab at [OF _ x86_offsets(1)] at [OF _ x86_offsets(2)] at [OF _ x86_offsets(3)]
      at [OF _ x86_offsets(4)] at [OF _ x86_offsets(5)]
    by (simp add: pt_regs_parm_def pt_regs_rc_def parm_reg_def x86_64_table_def)
next
  case (Arm64_Regs r)
  have tab: "te_table te = Some arm64_table"
    using assms Arm64_Regs by (simp add: registers_at_def te_table_def select_target_def arm64_build del: build_macros.simps)
  have at: "reg_at te ctx reg = arm_regs r i"
    if "i < 31" "member_offset (members (Arm64_Regs r)) reg = of_nat (8 * i)" for reg i
    using reg_at_member [of te ctx regs i reg] assms that Arm64_Regs
    by (simp add: registers_at_def nth_append del: upt.simps upt_Suc)
  show ?thesis
    using Arm64_Regs tab at [OF _ arm64_offsets(1)] at [OF _ arm64_offsets(2)] at [OF _ arm64_offsets(3)]
      at [OF _ arm64_offsets(4)]
    by (simp add: pt_regs_parm_def pt_regs_rc_def parm_reg_def arm64_table_def)
qed

theorem ssl_registers_from_header_witness:
  "pt_regs_parm (demo_trace_env [''__TARGET_ARCH_arm64'' \<mapsto> 1]
       (member_offset (members (Arm64_Regs \<lparr>arm_regs = of_nat, arm_sp = 0, arm_pc = 0, arm_pstate = 0\<rparr>)))
       (memory_at 0x1000 (concat (map (to_le 8 \<circ> snd)
          (members (Arm64_Regs \<lparr>arm_regs = of_nat, arm_sp = 0, arm_pc = 0, arm_pstate = 0\<rparr>))))))
     3 0x1000 = Some 2"
proof -
  let ?r = "Arm64_Regs \<lparr>arm_regs = of_nat, arm_sp = 0, arm_pc = 0, arm_pstate = 0\<rparr>"
  let ?image = "concat (map (to_le 8 \<circ> snd) (members ?r))"
  let ?te = "demo_trace_env [''__TARGET_ARCH_arm64'' \<mapsto> 1] (member_offset (members ?r)) (memory_at 0x1000 ?image)"
  have len: "length ?image = 8 * length (members ?r)"
    by (simp add: length_concat comp_def sum_list_triv del: upt.simps upt_Suc)
  moreover have "length (members ?r) = 34" by simp
  ultimately have "bytes_at (memory_at 0x1000 ?image) (8 * length (members ?r)) 0x1000 = ?image"
    by (intro nth_equalityI) (simp_all add: bytes_at_def del: members.simps)
  then have "registers_at ?te 0x1000 ?r"
    by (simp add: registers_at_def demo_trace_env_def del: members.simps)
  from ssl_registers_from_header [OF this] show ?thesis by simp
qed

end
