(* ===== verification/Tls_Content.thy ===== *)
theory Tls_Content
  imports Go_Prelude
begin

text \<open>
  What the TLS probe makes of the headers and the body of an HTTP message: the masking of
  credentials in \<^verbatim>\<open>flattenMaskedHeader\<close> (\<^verbatim>\<open>tls/protocol.go\<close>) and the removal of the content codings in
  \<^verbatim>\<open>readDecodeBytes\<close> (\<^verbatim>\<open>tls/compress.go\<close>).  The decompressors and the keyed hash are parameters.
\<close>

section \<open>Headers\<close>

text \<open>\<^verbatim>\<open>http.Header\<close>, a map from header names to the values given for the name.\<close>

type_synonym Header = "bytes \<Rightarrow> bytes list option"

text \<open>
  \<^verbatim>\<open>textproto.CanonicalMIMEHeaderKey\<close>, which \<^verbatim>\<open>Header.Add\<close>, \<^verbatim>\<open>http.ReadRequest\<close> and \<^verbatim>\<open>http.ReadResponse\<close>
  apply to every name: a letter at the start or after a hyphen in upper case, all others in lower
  case; a name with a byte that no header name may have is left as it is.
\<close>

definition is_upper :: "u8 \<Rightarrow> bool" where "is_upper c \<longleftrightarrow> 65 \<le> unat c \<and> unat c \<le> 90"
definition is_lower :: "u8 \<Rightarrow> bool" where "is_lower c \<longleftrightarrow> 97 \<le> unat c \<and> unat c \<le> 122"

definition to_upper :: "u8 \<Rightarrow> u8" where "to_upper c = (if is_lower c then c - 32 else c)"
definition to_lower :: "u8 \<Rightarrow> u8" where "to_lower c = (if is_upper c then c + 32 else c)"

definition validHeaderFieldByte :: "u8 \<Rightarrow> bool" where
  "validHeaderFieldByte c \<longleftrightarrow> is_upper c \<or> is_lower c \<or> 48 \<le> unat c \<and> unat c \<le> 57 \<or>
     c \<in> set (str ''!#$%&*+-.^_`|~'') \<or> c = 39"

fun canonical_loop :: "bool \<Rightarrow> bytes \<Rightarrow> bytes" where
  "canonical_loop upper [] = []"
| "canonical_loop upper (c # s) =
     (let c = (if upper then to_upper c else to_lower c) in c # canonical_loop (c = byte_of_char CHR ''-'') s)"

definition CanonicalMIMEHeaderKey :: "bytes \<Rightarrow> bytes" where
  "CanonicalMIMEHeaderKey s = (if \<forall>c \<in> set s. validHeaderFieldByte c then canonical_loop True s else s)"

definition Header_Add :: "Header \<Rightarrow> bytes \<Rightarrow> bytes \<Rightarrow> Header" where
  "Header_Add h key value = (let k = CanonicalMIMEHeaderKey key in
     h(k \<mapsto> (case h k of None \<Rightarrow> [value] | Some vs \<Rightarrow> vs @ [value])))"

definition Header_Get :: "Header option \<Rightarrow> bytes \<Rightarrow> bytes" where
  "Header_Get h key = (case h of None \<Rightarrow> []
     | Some h \<Rightarrow> (case h (CanonicalMIMEHeaderKey key) of Some (v # vs) \<Rightarrow> v | _ \<Rightarrow> []))"

definition HeaderAPIKeys :: "bytes list" where
  "HeaderAPIKeys = map str [''Authorization'', ''X-API-Key'', ''X-Auth-Token'', ''X-Access-Token'',
     ''X-Session-Token'', ''Cookie'']"

fun join_comma :: "bytes list \<Rightarrow> bytes" where
  "join_comma [] = []"
| "join_comma [v] = v"
| "join_comma (v # vs) = v @ str '','' @ join_comma vs"

text \<open>
  \<open>mac\<close> is the hexadecimal keyed hash of a value.  The loop over the names stops at the first one that
  the header name contains.
\<close>

primrec mask_value :: "(bytes \<Rightarrow> bytes) \<Rightarrow> bytes \<Rightarrow> bytes list \<Rightarrow> bytes \<Rightarrow> bytes" where
  "mask_value mac k [] value = value"
| "mask_value mac k (apiKey # keys) value =
     (if Contains k apiKey then str ''masked-'' @ mac value else mask_value mac k keys value)"

definition flattenMaskedHeader :: "(bytes \<Rightarrow> bytes) \<Rightarrow> Header option \<Rightarrow> bytes \<Rightarrow> bytes option" where
  "flattenMaskedHeader mac h k = (case h of None \<Rightarrow> None
     | Some h \<Rightarrow> map_option (\<lambda>v. mask_value mac k HeaderAPIKeys (join_comma v)) (h k))"

section \<open>Bodies\<close>

text \<open>
  A reader is what reading it to its end gives: its bytes, or \<open>None\<close> for an error.  Opening a gzip
  or zstd reader may fail as well.
\<close>

type_synonym reader = "bytes option"

record codecs =
  gzip_NewReader :: "reader \<Rightarrow> reader option"
  flate_NewReader :: "reader \<Rightarrow> reader"
  zstd_NewReader :: "reader \<Rightarrow> reader option"

fun split_comma :: "bytes \<Rightarrow> bytes list" where
  "split_comma [] = [[]]"
| "split_comma (c # s) = (if c = byte_of_char CHR '','' then [] # split_comma s
     else case split_comma s of [] \<Rightarrow> [[c]] | p # ps \<Rightarrow> (c # p) # ps)"

text \<open>\<^verbatim>\<open>strings.TrimSpace\<close> and \<^verbatim>\<open>strings.ToLower\<close>, for a header value in ASCII.\<close>

definition is_space :: "u8 \<Rightarrow> bool" where "is_space c \<longleftrightarrow> c = 32 \<or> 9 \<le> unat c \<and> unat c \<le> 13"

definition TrimSpace :: "bytes \<Rightarrow> bytes" where
  "TrimSpace s = rev (dropWhile is_space (rev (dropWhile is_space s)))"

definition parseEncodings :: "bytes \<Rightarrow> bytes list" where
  "parseEncodings encoding =
     filter (\<lambda>part. part \<noteq> []) (map (\<lambda>part. TrimSpace (map to_lower part)) (split_comma encoding))"

text \<open>
  The loop from the last coding to the first.  Beside the result it returns the closers that ran, by
  the number of the reader they close, 0 being the body itself.
\<close>

definition closeAll :: "nat \<Rightarrow> nat list" where
  "closeAll n = rev [0..<n]"

fun decode_loop :: "codecs \<Rightarrow> bytes list \<Rightarrow> reader \<Rightarrow> nat \<Rightarrow> reader \<times> nat list" where
  "decode_loop cod [] r n = (r, closeAll n)"
| "decode_loop cod (e # es) r n =
     (if e = str ''gzip'' then
        (case gzip_NewReader cod r of None \<Rightarrow> (None, closeAll n) | Some r' \<Rightarrow> decode_loop cod es r' (Suc n))
      else if e = str ''deflate'' then decode_loop cod es (flate_NewReader cod r) (Suc n)
      else if e = str ''zstd'' then
        (case zstd_NewReader cod r of None \<Rightarrow> (None, closeAll n) | Some r' \<Rightarrow> decode_loop cod es r' (Suc n))
      else (r, closeAll n))"

definition readDecodeBytes :: "codecs \<Rightarrow> reader \<Rightarrow> bytes \<Rightarrow> reader \<times> nat list" where
  "readDecodeBytes cod body encoding = (let encodings = parseEncodings encoding in
     if encodings = [] then (body, [0]) else decode_loop cod (rev encodings) body 1)"

section \<open>Spellings of a header name\<close>

lemma unat_plus_32: "unat c \<le> 90 \<Longrightarrow> unat (c + 32 :: u8) = unat c + 32"
  by (simp add: unat_word_ariths)

lemma is_lower_to_lower: "is_upper c \<Longrightarrow> is_lower (c + 32)"
  by (simp add: is_upper_def is_lower_def unat_plus_32)

lemma case_folding:
  "to_lower (to_lower c) = to_lower c" "to_upper (to_lower c) = to_upper c"
  "validHeaderFieldByte (to_lower c) = validHeaderFieldByte c"
proof -
  have *: "is_upper c \<Longrightarrow> \<not> is_upper (c + 32)" "is_upper c \<Longrightarrow> \<not> is_lower c"
    by (simp_all add: is_upper_def is_lower_def unat_plus_32)
  show "to_lower (to_lower c) = to_lower c" "to_upper (to_lower c) = to_upper c"
    using * is_lower_to_lower [of c] by (auto simp: to_lower_def to_upper_def)
  show "validHeaderFieldByte (to_lower c) = validHeaderFieldByte c"
    using is_lower_to_lower [of c] by (simp add: to_lower_def validHeaderFieldByte_def)
qed

lemma canonical_loop_folded: "canonical_loop u (map to_lower s) = canonical_loop u s"
  by (induction s arbitrary: u) (simp_all add: case_folding Let_def)

lemma CanonicalMIMEHeaderKey_spelling:
  assumes "map to_lower name = map to_lower name'" and "\<forall>c \<in> set name'. validHeaderFieldByte c"
  shows "CanonicalMIMEHeaderKey name = canonical_loop True name'"
proof -
  have "\<forall>c \<in> set (map to_lower name). validHeaderFieldByte c"
    unfolding assms(1) using assms(2) by (simp add: case_folding)
  then have "\<forall>c \<in> set name. validHeaderFieldByte c" by (simp add: case_folding)
  then show ?thesis
    using canonical_loop_folded [of True name] canonical_loop_folded [of True name'] assms(1)
    by (simp add: CanonicalMIMEHeaderKey_def)
qed

text \<open>The credential names whose canonical spelling is the one the code compares with.\<close>

definition masked_names :: "bytes list" where
  "masked_names = map str [''Authorization'', ''X-Auth-Token'', ''X-Access-Token'', ''X-Session-Token'', ''Cookie'']"

lemma masked_names_canonical:
  assumes "name \<in> set masked_names"
  shows "canonical_loop True name = name" and "\<forall>c \<in> set name. validHeaderFieldByte c"
    and "mask_value mac name HeaderAPIKeys v = str ''masked-'' @ mac v"
proof -
  have "list_all (\<lambda>n. canonical_loop True n = n \<and> list_all validHeaderFieldByte n) masked_names"
    by code_simp
  then show "canonical_loop True name = name" "\<forall>c \<in> set name. validHeaderFieldByte c"
    using assms by (auto simp: list_all_iff)
  have "mask_value mac k ks v = str ''masked-'' @ mac v" if "k \<in> set ks" for k ks
    using that by (induction ks) (auto simp: Contains_iff)
  moreover have "name \<in> set HeaderAPIKeys"
    using assms by (auto simp: masked_names_def HeaderAPIKeys_def)
  ultimately show "mask_value mac name HeaderAPIKeys v = str ''masked-'' @ mac v" by blast
qed

section \<open>Properties\<close>

text \<open>
  C23: credentials do not leave the agent in the clear.  Whatever the spelling in which a message gives
  one of the five header names, its value appears in the exported headers only as the keyed hash of
  all values given for the name.
\<close>

theorem credential_headers_masked:
  assumes "name' \<in> set masked_names" and "map to_lower name = map to_lower name'"
  shows "flattenMaskedHeader mac (Some (Header_Add h name secret)) (CanonicalMIMEHeaderKey name) =
    Some (str ''masked-'' @ mac (join_comma (case h name' of None \<Rightarrow> [secret] | Some vs \<Rightarrow> vs @ [secret])))"
proof -
  have "CanonicalMIMEHeaderKey name = name'"
    using CanonicalMIMEHeaderKey_spelling [OF assms(2)] masked_names_canonical(1,2) [OF assms(1)] by simp
  then show ?thesis
    using masked_names_canonical(3) [OF assms(1)] by (simp add: flattenMaskedHeader_def Header_Add_def)
qed

theorem credential_headers_masked_witness:
  "flattenMaskedHeader rev (Some (Header_Add (\<lambda>_. None) (str ''aUTHORIZATION'') [1, 2, 3]))
     (CanonicalMIMEHeaderKey (str ''aUTHORIZATION'')) = Some (str ''masked-'' @ [3, 2, 1])"
proof -
  have "map to_lower (str ''aUTHORIZATION'') = map to_lower (str ''Authorization'')" by code_simp
  moreover have "str ''Authorization'' \<in> set masked_names" by (simp add: masked_names_def)
  ultimately show ?thesis
    using credential_headers_masked [of "str ''Authorization''" "str ''aUTHORIZATION''" rev "\<lambda>_. None" "[1, 2, 3]"]
    by simp
qed

text \<open>
  C36: the API key header is not masked.  The list of names to mask spells it \<^verbatim>\<open>X-API-Key\<close>, but header
  names reach the comparison in canonical spelling, \<^verbatim>\<open>X-Api-Key\<close>, which contains none of the listed
  names: in whatever spelling a message gives the header, its value is exported as it is.
\<close>

theorem api_key_header_exported:
  assumes "map to_lower name = str ''x-api-key''" and "h (str ''X-Api-Key'') = None"
  shows "flattenMaskedHeader mac (Some (Header_Add h name secret)) (CanonicalMIMEHeaderKey name) = Some secret"
proof -
  have valid: "list_all validHeaderFieldByte (str ''X-Api-Key'')" by code_simp
  have "map to_lower (str ''X-Api-Key'') = str ''x-api-key''" by code_simp
  moreover have "canonical_loop True (str ''X-Api-Key'') = str ''X-Api-Key''" by code_simp
  ultimately have "CanonicalMIMEHeaderKey name = str ''X-Api-Key''"
    using CanonicalMIMEHeaderKey_spelling [of name "str ''X-Api-Key''"] assms(1) valid by (simp add: list_all_iff)
  moreover have "\<not> list_ex (Contains (str ''X-Api-Key'')) HeaderAPIKeys" by code_simp
  then have "mask_value mac (str ''X-Api-Key'') HeaderAPIKeys v = v" for v
    by (simp add: HeaderAPIKeys_def)
  ultimately show ?thesis using assms(2) by (simp add: flattenMaskedHeader_def Header_Add_def)
qed

theorem api_key_header_exported_witness:
  "flattenMaskedHeader rev (Some (Header_Add (\<lambda>_. None) (str ''X-API-Key'') [1, 2, 3]))
     (CanonicalMIMEHeaderKey (str ''X-API-Key'')) = Some [1, 2, 3]"
proof -
  have "map to_lower (str ''X-API-Key'') = str ''x-api-key''" by code_simp
  then show ?thesis
    using api_key_header_exported [of "str ''X-API-Key''" "\<lambda>_. None" rev "[1, 2, 3]"] by simp
qed

text \<open>The sender's side: the listed codings applied one after the other.\<close>

record encoders =
  gzip_encode :: "bytes \<Rightarrow> bytes"
  flate_encode :: "bytes \<Rightarrow> bytes"
  zstd_encode :: "bytes \<Rightarrow> bytes"

definition apply_coding :: "encoders \<Rightarrow> bytes \<Rightarrow> bytes \<Rightarrow> bytes" where
  "apply_coding enc e d = (if e = str ''gzip'' then gzip_encode enc d
     else if e = str ''deflate'' then flate_encode enc d else zstd_encode enc d)"

definition known_codings :: "bytes set" where
  "known_codings = {str ''gzip'', str ''deflate'', str ''zstd''}"

text \<open>A decompressor gives back what its compressor was given.\<close>

definition codecs_inverse :: "codecs \<Rightarrow> encoders \<Rightarrow> bool" where
  "codecs_inverse cod enc \<longleftrightarrow> (\<forall>d. gzip_NewReader cod (Some (gzip_encode enc d)) = Some (Some d) \<and>
     flate_NewReader cod (Some (flate_encode enc d)) = Some d \<and>
     zstd_NewReader cod (Some (zstd_encode enc d)) = Some (Some d))"

lemma decode_loop_known:
  assumes "codecs_inverse cod enc" and "e \<in> known_codings"
  shows "decode_loop cod (e # es) (Some (apply_coding enc e d)) n = decode_loop cod es (Some d) (Suc n)"
  using assms by (auto simp: codecs_inverse_def known_codings_def apply_coding_def bytes_of_string_def)

lemma decode_loop_stops:
  "es \<noteq> [] \<longrightarrow> hd es \<notin> known_codings \<Longrightarrow> decode_loop cod es r n = (r, closeAll n)"
  by (cases es) (auto simp: known_codings_def)

lemma decode_loop_all:
  assumes "codecs_inverse cod enc" and "set known \<subseteq> known_codings" and "kept \<noteq> [] \<longrightarrow> last kept \<notin> known_codings"
  shows "decode_loop cod (rev (kept @ known)) (Some (fold (apply_coding enc) known d)) n =
    (Some d, closeAll (n + length known))"
  using assms(2)
proof (induction known arbitrary: n rule: rev_induct)
  case Nil
  then show ?case using assms(3) by (simp add: decode_loop_stops hd_rev)
next
  case (snoc e known)
  then show ?case using decode_loop_known [OF assms(1), of e] by (simp del: decode_loop.simps)
qed

text \<open>
  How a header lists codings: the texts of the items are joined by commas, and each text is the name of
  the coding in any case between blanks, or only blanks.
\<close>

definition spells :: "bytes \<Rightarrow> bytes \<Rightarrow> bool" where
  "spells coding text \<longleftrightarrow> (\<exists>pre name post. text = pre @ name @ post \<and> map to_lower name = coding \<and>
     (\<forall>c \<in> set (pre @ post). is_space c) \<and> byte_of_char CHR '','' \<notin> set name \<and>
     (name = [] \<or> \<not> is_space (hd name) \<and> \<not> is_space (last name)))"

lemma is_space_lower [simp]: "is_space (to_lower c) \<longleftrightarrow> is_space c"
  by (auto simp: is_space_def to_lower_def is_upper_def unat_plus_if' dest: arg_cong [of _ _ unat])

lemma TrimSpace_between:
  assumes "\<forall>c \<in> set pre. is_space c" and "\<forall>c \<in> set post. is_space c"
    and "name = [] \<or> \<not> is_space (hd name) \<and> \<not> is_space (last name)"
  shows "TrimSpace (pre @ name @ post) = name"
proof (cases "name = []")
  case True
  then have "dropWhile is_space (pre @ name @ post) = []" using assms(1,2) by (simp only: dropWhile_eq_Nil_conv) auto
  then show ?thesis unfolding TrimSpace_def using True by (simp only: rev.simps dropWhile.simps)
next
  case False
  then have "dropWhile is_space (pre @ name @ post) = name @ post"
    using assms(1,3) by (cases name) (auto simp: dropWhile_append2)
  moreover have "dropWhile is_space (rev post @ rev name) = rev name"
    using False assms(2,3) dropWhile_append2 [of "rev post" is_space "rev name"] by (cases name rule: rev_cases) auto
  ultimately show ?thesis by (simp add: TrimSpace_def)
qed

lemma spells_item:
  assumes "spells coding text"
  shows "TrimSpace (map to_lower text) = coding" "byte_of_char CHR '','' \<notin> set text"
proof -
  obtain pre name post where t: "text = pre @ name @ post" "map to_lower name = coding"
    "\<forall>c \<in> set (pre @ post). is_space c" "byte_of_char CHR '','' \<notin> set name"
    "name = [] \<or> \<not> is_space (hd name) \<and> \<not> is_space (last name)"
    using assms unfolding spells_def by (elim exE conjE) (rule that)
  show "TrimSpace (map to_lower text) = coding"
    using TrimSpace_between [of "map to_lower pre" "map to_lower post" "map to_lower name"] t
    by (cases "name = []") (auto simp: hd_map last_map)
  have "\<not> is_space (byte_of_char CHR '','')" by (simp add: is_space_def byte_of_char_def)
  then show "byte_of_char CHR '','' \<notin> set text" using t by auto
qed

lemma split_comma_prefix:
  "byte_of_char CHR '','' \<notin> set t \<Longrightarrow>
     split_comma (t @ rest) = (t @ hd (split_comma rest)) # tl (split_comma rest)"
proof (induction t)
  case Nil
  have "split_comma rest \<noteq> []" by (induction rest) (auto split: list.split)
  then show ?case by simp
qed auto

lemma split_join_comma:
  "\<forall>t \<in> set texts. byte_of_char CHR '','' \<notin> set t \<Longrightarrow> texts \<noteq> [] \<Longrightarrow> split_comma (join_comma texts) = texts"
proof (induction texts rule: join_comma.induct)
  case (2 v)
  then show ?case using split_comma_prefix [of v "[]"] by simp
next
  case (3 v w vs)
  then show ?case using split_comma_prefix [of v "str '','' @ join_comma (w # vs)"]
    by (simp add: bytes_of_string_def byte_of_char_def)
qed simp

lemma parse_spelled:
  assumes "list_all2 spells codings texts" and "texts \<noteq> []"
  shows "parseEncodings (join_comma texts) = filter (\<lambda>e. e \<noteq> []) codings"
proof -
  have "\<forall>t \<in> set texts. byte_of_char CHR '','' \<notin> set t" "map (\<lambda>t. TrimSpace (map to_lower t)) texts = codings"
    using assms(1) by (induction rule: list_all2_induct) (auto dest: spells_item)
  then show ?thesis using split_join_comma [OF _ assms(2)] by (simp add: parseEncodings_def)
qed

text \<open>
  C24: the content codings are undone.  When the header lists the codings in the order in which the
  sender applied them, in any case and with any blanks and empty items, the recovered body is the
  sender's.  A coding the agent does not know ends the decoding there, and the result is the body as
  it was after that coding.  The body and every reader that was opened on it are closed, each
  once, the last one first.
\<close>

theorem content_codings_undone:
  assumes "codecs_inverse cod enc" and "list_all2 spells codings texts" and "texts \<noteq> []"
    and "filter (\<lambda>e. e \<noteq> []) codings = kept @ known"
    and "set known \<subseteq> known_codings" and "kept \<noteq> [] \<longrightarrow> last kept \<notin> known_codings"
  shows "readDecodeBytes cod (Some (fold (apply_coding enc) known body)) (join_comma texts) =
    (Some body, rev [0..<Suc (length known)])"
proof -
  have parse: "parseEncodings (join_comma texts) = kept @ known" using parse_spelled [OF assms(2,3)] assms(4) by simp
  show ?thesis
  proof (cases "kept @ known = []")
    case True
    then show ?thesis using parse by (simp add: readDecodeBytes_def)
  next
    case False
    then show ?thesis
      using decode_loop_all [OF assms(1,5,6), of body 1] parse
      by (simp add: readDecodeBytes_def closeAll_def del: rev_append)
  qed
qed

definition tag_codecs :: codecs where
  "tag_codecs = \<lparr>gzip_NewReader = (\<lambda>r. case r of Some (c # d) \<Rightarrow> if c = 1 then Some (Some d) else None | _ \<Rightarrow> None),
     flate_NewReader = (\<lambda>r. case r of Some (c # d) \<Rightarrow> if c = 2 then Some d else None | _ \<Rightarrow> None),
     zstd_NewReader = (\<lambda>r. case r of Some (c # d) \<Rightarrow> if c = 3 then Some (Some d) else None | _ \<Rightarrow> None)\<rparr>"

definition tag_encoders :: encoders where
  "tag_encoders = \<lparr>gzip_encode = Cons 1, flate_encode = Cons 2, zstd_encode = Cons 3\<rparr>"

theorem content_codings_undone_witness:
  "readDecodeBytes tag_codecs (Some (fold (apply_coding tag_encoders) [str ''gzip'', str ''zstd''] [7, 8]))
     (str ''br, , GZip,zstd'') = (Some [7, 8], [2, 1, 0])"
proof -
  let ?texts = "[str ''br'', str '' '', str '' GZip'', str ''zstd'']"
  let ?codings = "[str ''br'', [], str ''gzip'', str ''zstd'']"
  have "codecs_inverse tag_codecs tag_encoders"
    by (simp add: codecs_inverse_def tag_codecs_def tag_encoders_def)
  moreover have "spells (str ''br'') (str ''br'')" unfolding spells_def
    by (rule exI [of _ "[]"], rule exI [of _ "str ''br''"], rule exI [of _ "[]"]) code_simp
  moreover have "spells [] (str '' '')" unfolding spells_def
    by (rule exI [of _ "str '' ''"], rule exI [of _ "[]"], rule exI [of _ "[]"]) code_simp
  moreover have "spells (str ''gzip'') (str '' GZip'')" unfolding spells_def
    by (rule exI [of _ "str '' ''"], rule exI [of _ "str ''GZip''"], rule exI [of _ "[]"]) code_simp
  moreover have "spells (str ''zstd'') (str ''zstd'')" unfolding spells_def
    by (rule exI [of _ "[]"], rule exI [of _ "str ''zstd''"], rule exI [of _ "[]"]) code_simp
  moreover have "str ''br'' \<notin> known_codings" by (simp add: known_codings_def bytes_of_string_def)
  moreover have "filter (\<lambda>e. e \<noteq> []) ?codings = [str ''br''] @ [str ''gzip'', str ''zstd'']" by code_simp
  moreover have "join_comma ?texts = str ''br, , GZip,zstd''" by code_simp
  ultimately show ?thesis
    using content_codings_undone [of tag_codecs tag_encoders ?codings ?texts "[str ''br'']"
        "[str ''gzip'', str ''zstd'']" "[7, 8]"]
    by (simp add: known_codings_def eval_nat_numeral)
qed

end
