(* ===== verification/Tls_Record.thy ===== *)
theory Tls_Record
  imports Tls_Content Ssl_Common
begin

text \<open>
  The reassembly buffer of one direction of a TLS connection, \<^verbatim>\<open>SSLRecord\<close> (\<^verbatim>\<open>tls/protocol.go\<close>): the bytes
  that were appended and not yet parsed, and for every event they came from its time stamp, length
  and command name.  A body of an HTTP message is what reading it to the end gives, with \<open>None\<close> for
  a read error.
\<close>

section \<open>Data\<close>

definition SSLMaxEventSize :: nat where "SSLMaxEventSize = 64 * 1024"
definition SSLMaxDataSize :: nat where "SSLMaxDataSize = 64 * SSLMaxEventSize"
definition SSLRwRead :: u8 where "SSLRwRead = 4"
definition SSLRwWrite :: u8 where "SSLRwWrite = 2"

record SSLKey =
  PidTgid :: u64
  UidGid :: u64
  SSLPtr :: u64
  CgroupID :: u64

record EventInfo =
  TimestampNs :: u64
  DataLen :: u64
  Comm :: bytes

text \<open>The fields of \<^verbatim>\<open>http.Request\<close> and \<^verbatim>\<open>http.Response\<close> that the agent uses.\<close>

record http_Request =
  rq_Method :: bytes
  rq_URL :: "bytes option"
  rq_RequestURI :: bytes
  rq_Host :: bytes
  rq_Proto :: bytes
  rq_ContentLength :: int
  rq_Header :: "Header option"
  rq_Body :: reader

record http_Response =
  rs_StatusCode :: int
  rs_Proto :: bytes
  rs_ContentLength :: int
  rs_TransferEncoding :: "bytes list"
  rs_Header :: "Header option"
  rs_Body :: reader

record ParsedRequest =
  pq_StreamID :: u32
  pq_Request :: "http_Request option"

record ParsedResponse =
  ps_StreamID :: u32
  ps_Response :: "http_Response option"
  ps_DiscardStream :: bool

text \<open>
  The state of an HTTP/2 connection.  The type parameter is the state of the header decoder; a header
  field is a pair of name and value.
\<close>

record HTTP2StreamState =
  HeadersReady :: bool
  Ended :: bool
  Headers :: "(bytes \<times> bytes) list"
  Body :: bytes

record 'd HTTP2State =
  PrefaceConsumed :: bool
  Decoder :: 'd
  HeaderStreamID :: u32
  HeaderBlockBuf :: bytes
  Streams :: "u32 \<Rightarrow> HTTP2StreamState option"

record 'd SSLRecord =
  Info :: "EventInfo list"
  Stream :: bytes
  LastResp :: "http_Response option"
  EndOfStream :: bool
  HTTP2 :: "'d HTTP2State option"
  LastTouched :: int

definition empty_record :: "'d SSLRecord" where
  "empty_record = \<lparr>Info = [], Stream = [], LastResp = None, EndOfStream = False, HTTP2 = None, LastTouched = 0\<rparr>"

section \<open>Operations\<close>

definition Append :: "int \<Rightarrow> 'd SSLRecord \<Rightarrow> bytes \<Rightarrow> EventInfo \<Rightarrow> 'd SSLRecord" where
  "Append now r data info = r\<lparr>Stream := Stream r @ data, Info := Info r @ [info], LastTouched := now\<rparr>"

text \<open>
  The loop of \<^verbatim>\<open>consumeRecord\<close> over the \<open>n\<close> events, with its locals \<^verbatim>\<open>index\<close>, \<^verbatim>\<open>last\<close> and \<^verbatim>\<open>length\<close>.
\<close>

fun consume_loop :: "nat \<Rightarrow> nat \<Rightarrow> nat \<Rightarrow> nat \<Rightarrow> int \<Rightarrow> EventInfo list \<Rightarrow> nat \<times> nat" where
  "consume_loop n i index lst len [] = (index, lst)"
| "consume_loop n i index lst len (info # infos) =
     (if len = 0 then (i, lst)
      else if sint (DataLen info) \<le> len then
        (let len = len - sint (DataLen info);
             index = (if i = n - 1 \<and> len = 0 then n else i)
         in consume_loop n (Suc i) index i len infos)
      else (i, lst))"

text \<open>The results are the time stamp, the command name and \<^verbatim>\<open>consumedAll\<close>, and the record.\<close>

definition consumeRecord :: "'d SSLRecord \<Rightarrow> int \<Rightarrow> (u64 \<times> bytes \<times> bool) \<times> 'd SSLRecord" where
  "consumeRecord r consumed =
     (if consumed \<le> 0 \<or> Info r = [] then ((0, [], consumed = int (length (Stream r))), r)
      else let consumed = min consumed (int (length (Stream r))) in
      if consumed = int (length (Stream r)) then
        ((TimestampNs (last (Info r)), CharsToString (Comm (last (Info r))), True), r\<lparr>Stream := [], Info := []\<rparr>)
      else case consume_loop (length (Info r)) 0 0 0 consumed (Info r) of
        (index, lst) \<Rightarrow>
          ((TimestampNs (Info r ! lst), CharsToString (Comm (Info r ! lst)), False),
           r\<lparr>Stream := drop (nat consumed) (Stream r), Info := drop index (Info r)\<rparr>))"

section \<open>The invariant\<close>

text \<open>
  Every byte of the stream belongs to a listed event.  This is all that holds in general: an event that
  is consumed in part stays listed with its full length.
\<close>

definition dlen :: "EventInfo \<Rightarrow> nat" where
  "dlen info = unat (DataLen info)"

definition total_len :: "EventInfo list \<Rightarrow> nat" where
  "total_len infos = sum_list (map dlen infos)"

lemma total_len_simps [simp]:
  "total_len [] = 0" "total_len (x # xs) = dlen x + total_len xs" "total_len (xs @ ys) = total_len xs + total_len ys"
  by (simp_all add: total_len_def)

definition info_ok :: "EventInfo \<Rightarrow> bool" where
  "info_ok info \<longleftrightarrow> 0 < dlen info \<and> dlen info < 2 ^ 63"

definition covered :: "'d SSLRecord \<Rightarrow> bool" where
  "covered r \<longleftrightarrow> list_all info_ok (Info r) \<and> length (Stream r) \<le> total_len (Info r)"

lemma covered_empty [simp]: "covered empty_record"
  by (simp add: covered_def empty_record_def)

lemma covered_Append:
  "covered r \<Longrightarrow> info_ok info \<Longrightarrow> length data = dlen info \<Longrightarrow> covered (Append now r data info)"
  by (simp add: covered_def Append_def)

lemma covered_nonempty: "covered r \<Longrightarrow> Stream r \<noteq> [] \<Longrightarrow> Info r \<noteq> []"
  by (auto simp: covered_def)

lemma info_ok_sint: "info_ok info \<Longrightarrow> sint (DataLen info) = int (dlen info)"
proof -
  assume "info_ok info"
  then have "int (unat (DataLen info)) < int (2 ^ 63)"
    by (simp only: info_ok_def dlen_def of_nat_less_iff)
  then have "uint (DataLen info) < 2 ^ 63" by simp
  then have "int64 (uint (DataLen info)) = uint (DataLen info)"
    using uint_ge_0 [of "DataLen info"] by (intro int64_id) linarith+
  then have "sint (DataLen info) = uint (DataLen info)" by (simp add: sint_uint int64_def)
  then show ?thesis by (simp add: dlen_def)
qed

text \<open>
  Only events that are consumed entirely are dropped, and if any event is consumed entirely, the
  second result is the last one that is.
\<close>

lemma consume_loop_spec:
  assumes "list_all info_ok infos" and "i + length infos = n" and "0 \<le> len" and "len < int (total_len infos)"
  shows "\<exists>done rest. infos = done @ rest \<and> rest \<noteq> [] \<and>
    consume_loop n i index lst len infos = (i + length done, if done = [] then lst else i + length done - 1) \<and>
    int (total_len done) \<le> len \<and> len < int (total_len done + dlen (hd rest))"
  using assms
proof (induction infos arbitrary: i index lst len)
  case (Cons info infos)
  have info: "sint (DataLen info) = int (dlen info)" "0 < dlen info"
    using Cons.prems(1) info_ok_sint [of info] by (auto simp: info_ok_def)
  show ?case
  proof (cases "len < int (dlen info)")
    case True
    then show ?thesis using Cons.prems info by (intro exI [of _ "[]"] exI [of _ "info # infos"]) auto
  next
    case False
    let ?len = "len - int (dlen info)"
    let ?ix = "if i = n - 1 \<and> ?len = 0 then n else i"
    have eq: "consume_loop n i index lst len (info # infos) = consume_loop n (Suc i) ?ix i ?len infos"
      using False info by (auto simp: Let_def)
    obtain dn rest where "infos = dn @ rest" "rest \<noteq> []"
      "consume_loop n (Suc i) ?ix i ?len infos = (Suc i + length dn, if dn = [] then i else Suc i + length dn - 1)"
      "int (total_len dn) \<le> ?len" "?len < int (total_len dn + dlen (hd rest))"
      using Cons.IH [of "Suc i" ?len ?ix i] Cons.prems False by auto
    then show ?thesis
      unfolding eq by (intro exI [of _ "info # dn"] exI [of _ rest]) auto
  qed
qed simp

lemma consumeRecord_step:
  assumes "covered r" and "0 < consumed" and "consumed < int (length (Stream r))"
  shows "\<exists>done rest. Info r = done @ rest \<and> rest \<noteq> [] \<and>
    consumeRecord r consumed = (let info = (if done = [] then hd rest else last done) in
      ((TimestampNs info, CharsToString (Comm info), False),
       r\<lparr>Stream := drop (nat consumed) (Stream r), Info := rest\<rparr>)) \<and>
    int (total_len done) \<le> consumed \<and> consumed < int (total_len done + dlen (hd rest))"
proof -
  have "consumed < int (total_len (Info r))" using assms by (simp add: covered_def)
  then obtain dn rest where *: "Info r = dn @ rest" "rest \<noteq> []"
    "consume_loop (length (Info r)) 0 0 0 consumed (Info r) = (length dn, if dn = [] then 0 else length dn - 1)"
    "int (total_len dn) \<le> consumed" "consumed < int (total_len dn + dlen (hd rest))"
    using consume_loop_spec [of "Info r" 0 "length (Info r)" consumed 0 0] assms by (auto simp: covered_def)
  moreover have "Info r ! (if dn = [] then 0 else length dn - 1) = (if dn = [] then hd rest else last dn)"
    using * by (simp add: nth_append hd_conv_nth last_conv_nth)
  moreover have "consumeRecord r consumed = (case consume_loop (length (Info r)) 0 0 0 consumed (Info r) of
      (index, lst) \<Rightarrow> ((TimestampNs (Info r ! lst), CharsToString (Comm (Info r ! lst)), False),
        r\<lparr>Stream := drop (nat consumed) (Stream r), Info := drop index (Info r)\<rparr>))"
    using assms * by (simp add: consumeRecord_def Let_def min_def)
  ultimately show ?thesis
    by (intro exI [of _ dn] exI [of _ rest]) (simp add: Let_def)
qed

lemma consumeRecord_all:
  assumes "Info r \<noteq> []" and "int (length (Stream r)) \<le> consumed" and "0 < consumed"
  shows "consumeRecord r consumed =
    ((TimestampNs (last (Info r)), CharsToString (Comm (last (Info r))), True), r\<lparr>Stream := [], Info := []\<rparr>)"
  using assms by (simp add: consumeRecord_def min_def Let_def)

lemma consumeRecord_none:
  "consumed \<le> 0 \<or> Info r = [] \<Longrightarrow> consumeRecord r consumed = ((0, [], consumed = int (length (Stream r))), r)"
  by (auto simp: consumeRecord_def)

lemma consumeRecord_covered:
  assumes "covered r" and "consumeRecord r consumed = (res, r')"
  shows "covered r' \<and> Stream r' = (if 0 < consumed then drop (nat consumed) (Stream r) else Stream r)"
proof -
  consider "consumed \<le> 0 \<or> Info r = []" | "0 < consumed" "Info r \<noteq> []" "int (length (Stream r)) \<le> consumed"
    | "0 < consumed" "consumed < int (length (Stream r))" by linarith
  then show ?thesis
  proof cases
    case 1
    then have "r' = r" using assms(2) by (simp add: consumeRecord_none)
    moreover have "consumed \<le> 0 \<or> Stream r = []" using 1 covered_nonempty [OF assms(1)] by blast
    ultimately show ?thesis using assms(1) by auto
  next
    case 2
    then have "r' = r\<lparr>Stream := [], Info := []\<rparr>" using consumeRecord_all [of r consumed] assms(2) by simp
    then show ?thesis using 2 by (simp add: covered_def)
  next
    case 3
    then obtain dn rest where *: "Info r = dn @ rest" "int (total_len dn) \<le> consumed"
      "r' = r\<lparr>Stream := drop (nat consumed) (Stream r), Info := rest\<rparr>"
      using consumeRecord_step [OF assms(1) 3] assms(2) by (auto simp: Let_def)
    then show ?thesis using 3 assms(1) by (simp add: covered_def) linarith
  qed
qed

lemma consumeRecord_result:
  assumes "covered r" and "consumeRecord r n = ((ts, comm, ca), r')" and "0 < n" and "Stream r \<noteq> []"
  shows "EndOfStream r' = EndOfStream r \<and> LastResp r' = LastResp r \<and> HTTP2 r' = HTTP2 r \<and>
    ca = (int (length (Stream r)) \<le> n)"
proof (cases "int (length (Stream r)) \<le> n")
  case True
  then show ?thesis
    using consumeRecord_all [OF covered_nonempty [OF assms(1,4)] True assms(3)] assms(2) by auto
next
  case False
  then show ?thesis
    using consumeRecord_step [OF assms(1,3)] assms(2) by (auto simp: Let_def)
qed

section \<open>Records that hold whole events\<close>

definition in_sync :: "'d SSLRecord \<Rightarrow> (EventInfo \<times> bytes) list \<Rightarrow> bool" where
  "in_sync r parts \<longleftrightarrow> Info r = map fst parts \<and> Stream r = concat (map snd parts) \<and>
     list_all (\<lambda>(info, data). info_ok info \<and> dlen info = length data) parts"

lemma in_sync_total: "in_sync r parts \<Longrightarrow> total_len (map fst parts) = length (concat (map snd parts))"
proof -
  have "list_all (\<lambda>(info, data). info_ok info \<and> dlen info = length data) parts \<Longrightarrow>
      total_len (map fst parts) = length (concat (map snd parts))"
    by (induction parts) (auto simp: total_len_def)
  then show "in_sync r parts \<Longrightarrow> total_len (map fst parts) = length (concat (map snd parts))"
    by (simp add: in_sync_def)
qed

lemma in_sync_covered: "in_sync r parts \<Longrightarrow> covered r"
  using in_sync_total [of r parts] by (auto simp: in_sync_def covered_def list_all_iff)

lemma in_sync_empty [simp]: "in_sync empty_record []"
  by (simp add: in_sync_def empty_record_def)

lemma in_sync_Append:
  "in_sync r parts \<Longrightarrow> info_ok info \<Longrightarrow> dlen info = length data \<Longrightarrow>
    in_sync (Append now r data info) (parts @ [(info, data)])"
  by (simp add: in_sync_def Append_def)

lemma boundary_unique:
  assumes "dn @ rest = a @ b" and "rest \<noteq> []" and "list_all info_ok (a @ b)"
    and "total_len dn \<le> total_len a" and "total_len a < total_len dn + dlen (hd rest)"
  shows "dn = a"
proof -
  obtain us where "dn = a @ us \<and> us @ rest = b \<or> dn @ us = a \<and> rest = us @ b"
    using assms(1) by (auto simp: append_eq_append_conv2)
  moreover have "us = []"
  proof (rule ccontr)
    assume "us \<noteq> []"
    then obtain u us' where "us = u # us'" by (cases us) auto
    then show False using calculation assms(2-5) by (auto simp: info_ok_def)
  qed
  ultimately show ?thesis by auto
qed

text \<open>
  C20: whole events are taken off the record together.  When the record holds exactly the bytes of its
  events and a message ends where an event ends, consuming the message removes its events and
  their bytes and nothing else, the record holds exactly the bytes of the remaining events again,
  and the message gets the time and the command name of the last of its events.
\<close>

theorem whole_events_consumed:
  assumes "in_sync r (ps @ qs)" and "ps \<noteq> []"
  shows "\<exists>r'. consumeRecord r (int (length (concat (map snd ps)))) =
      ((TimestampNs (fst (last ps)), cstr (Comm (fst (last ps))), qs = []), r') \<and>
    in_sync r' qs \<and> EndOfStream r' = EndOfStream r \<and> LastResp r' = LastResp r"
proof -
  let ?n = "int (length (concat (map snd ps)))"
  have r: "Info r = map fst ps @ map fst qs" "Stream r = concat (map snd ps) @ concat (map snd qs)"
    "list_all info_ok (map fst ps @ map fst qs)"
    using assms(1) by (auto simp: in_sync_def list_all_iff)
  have total: "int (total_len (map fst ps)) = ?n"
    using in_sync_total [of "empty_record\<lparr>Info := map fst ps, Stream := concat (map snd ps)\<rparr>" ps] assms(1)
    by (simp add: in_sync_def)
  have pos: "0 < ?n" using assms(2) r(3) total by (cases ps) (auto simp: info_ok_def)
  show ?thesis
  proof (cases "qs = []")
    case True
    then have "consumeRecord r ?n = ((TimestampNs (fst (last ps)), cstr (Comm (fst (last ps))), True), r\<lparr>Stream := [], Info := []\<rparr>)"
      using consumeRecord_all [of r ?n] r assms(2) pos by (simp add: last_map CharsToString_cstr)
    then show ?thesis using True by (simp add: in_sync_def)
  next
    case False
    then have "?n < int (length (Stream r))"
      using r(2) assms(1) by (cases qs) (auto simp: in_sync_def info_ok_def intro!: add_pos_nonneg)
    from consumeRecord_step [OF in_sync_covered [OF assms(1)] pos this]
    obtain dn rest where *: "Info r = dn @ rest" "rest \<noteq> []"
      "consumeRecord r ?n = (let info = (if dn = [] then hd rest else last dn) in
        ((TimestampNs info, CharsToString (Comm info), False),
         r\<lparr>Stream := drop (nat ?n) (Stream r), Info := rest\<rparr>))"
      "int (total_len dn) \<le> ?n" "?n < int (total_len dn + dlen (hd rest))" by blast
    have dn: "dn = map fst ps"
      using * r(1,3) total by (intro boundary_unique [of dn rest _ "map fst qs"]) auto
    then have "rest = map fst qs" using * r(1) by simp
    then show ?thesis
      using *(3) dn assms r(2) False by (simp add: Let_def last_map CharsToString_cstr in_sync_def)
  qed
qed

definition demo_info :: "u64 \<Rightarrow> u64 \<Rightarrow> EventInfo" where
  "demo_info t n = \<lparr>TimestampNs = t, DataLen = n, Comm = [99, 0]\<rparr>"

definition demo_record :: "(EventInfo \<times> bytes) list \<Rightarrow> unit SSLRecord" where
  "demo_record parts = empty_record\<lparr>Info := map fst parts, Stream := concat (map snd parts)\<rparr>"

theorem whole_events_consumed_witness:
  "\<exists>r'. consumeRecord (demo_record [(demo_info 10 2, [1, 2]), (demo_info 20 1, [3]), (demo_info 30 2, [4, 5])]) 3 =
      ((20, [99], False), r') \<and> in_sync r' [(demo_info 30 2, [4, 5])]"
proof -
  have "in_sync (demo_record [(demo_info 10 2, [1, 2]), (demo_info 20 1, [3]), (demo_info 30 2, [4, 5])])
      ([(demo_info 10 2, [1, 2]), (demo_info 20 1, [3])] @ [(demo_info 30 2, [4, 5])])"
    by (simp add: in_sync_def demo_record_def demo_info_def info_ok_def dlen_def)
  from whole_events_consumed [OF this] show ?thesis by (auto simp: demo_info_def cstr_def)
qed

end
