(* ===== verification/Tls_Http1.thy ===== *)
theory Tls_Http1
  imports Tls_Record
begin

text \<open>
  The HTTP/1 parser, \<^verbatim>\<open>tls/http1.go\<close>.  \<^verbatim>\<open>http.ReadRequest\<close> and \<^verbatim>\<open>http.ReadResponse\<close> are parameters: what
  they make of the bytes of the stream, or the error they return, of which only
  \<^verbatim>\<open>io.ErrUnexpectedEOF\<close> is told apart.  A result of a parser is the parsed message, the number of
  bytes to consume, whether there was an error, and the record; where the code can panic, this is
  an option.
\<close>

section \<open>Operations\<close>

datatype http_error = ErrUnexpectedEOF | ErrMalformed

record http_lib =
  ReadRequest :: "bytes \<Rightarrow> http_error + http_Request"
  ReadResponse :: "bytes \<Rightarrow> http_error + http_Response"

type_synonym ('d, 'p) parse_result = "'p option \<times> int \<times> bool \<times> 'd SSLRecord"

definition CRLF :: bytes where "CRLF = [13, 10]"
definition HTTP1Delimiter :: bytes where "HTTP1Delimiter = [13, 10, 13, 10]"
definition HTTP1DelimiterLen :: nat where "HTTP1DelimiterLen = 4"
definition CRLFLen :: nat where "CRLFLen = 2"
definition StreamEndChunkLength :: u64 where "StreamEndChunkLength = 5"

definition HTTP1_ParseRequest :: "http_lib \<Rightarrow> 'd SSLRecord \<Rightarrow> ('d, ParsedRequest) parse_result" where
  "HTTP1_ParseRequest lib r =
     (case ReadRequest lib (Stream r) of
        Inl ErrUnexpectedEOF \<Rightarrow> (None, 0, False, r)
      | Inl ErrMalformed \<Rightarrow>
          (case Index (Stream r) HTTP1Delimiter of
             Some idx \<Rightarrow> (None, int (idx + HTTP1DelimiterLen), True, r)
           | None \<Rightarrow> (None, int (length (Stream r)), True, r))
      | Inr req \<Rightarrow>
          let parsed = Some \<lparr>pq_StreamID = 0, pq_Request = Some req\<rparr> in
          (case Index (Stream r) HTTP1Delimiter of
             None \<Rightarrow> (parsed, int (length (Stream r)), True, r)
           | Some idx \<Rightarrow>
               let lengthToConsume = int64 (int (idx + HTTP1DelimiterLen) + rq_ContentLength req) in
               if 0 \<le> rq_ContentLength req \<and> int (length (Stream r)) < lengthToConsume then
                 if int SSLMaxDataSize < lengthToConsume \<and> SSLMaxDataSize < length (Stream r) + SSLMaxEventSize
                 then (parsed, int (min SSLMaxDataSize (length (Stream r))), False, r\<lparr>EndOfStream := True\<rparr>)
                 else (None, 0, False, r\<lparr>EndOfStream := False\<rparr>)
               else (parsed, lengthToConsume, False, r\<lparr>EndOfStream := True\<rparr>)))"

text \<open>
  The chunk reader.  \<open>None\<close> is a panic; \<open>Inl\<close> an error; a result of no bytes and a count of 0 asks for
  more data.  The count is computed in 64 bits.
\<close>

definition parseStream :: "bytes \<Rightarrow> (unit + (bytes \<times> u64)) option" where
  "parseStream data =
     (case Index data CRLF of
        None \<Rightarrow> Some (Inl ())
      | Some idx \<Rightarrow>
          (case ParseUint16 (take idx data) of
             None \<Rightarrow> Some (Inl ())
           | Some len \<Rightarrow>
               let consumed = of_nat idx + of_nat CRLFLen + len + of_nat CRLFLen in
               if of_nat (length data) < consumed then Some (Inr ([], 0))
               else (case go_slice data (int (idx + CRLFLen)) (int64 (int (idx + CRLFLen) + sint len)) of
                       None \<Rightarrow> None
                     | Some stream \<Rightarrow> Some (Inr (stream, consumed)))))"

definition isChunkedEncoding :: "http_Response \<Rightarrow> bool" where
  "isChunkedEncoding resp \<longleftrightarrow> rs_TransferEncoding resp \<noteq> [] \<and> last (rs_TransferEncoding resp) = str ''chunked''"

text \<open>The first part of \<^verbatim>\<open>ParseResponse\<close>, for a response whose chunks are being collected.\<close>

definition parse_chunk :: "'d SSLRecord \<Rightarrow> http_Response \<Rightarrow> ('d, ParsedResponse) parse_result option" where
  "parse_chunk r resp =
     (case parseStream (Stream r) of
        None \<Rightarrow> None
      | Some (Inl _) \<Rightarrow> Some (None, 0, True, r)
      | Some (Inr (stream, consumed)) \<Rightarrow>
          if consumed = 0 then Some (None, 0, False, r)
          else if consumed = StreamEndChunkLength then
            Some (Some \<lparr>ps_StreamID = 0, ps_Response = Some resp, ps_DiscardStream = False\<rparr>, sint consumed, False,
              r\<lparr>EndOfStream := True\<rparr>)
          else let resp = resp\<lparr>rs_Body := map_option (\<lambda>b. b @ stream) (rs_Body resp)\<rparr> in
            Some (Some \<lparr>ps_StreamID = 0, ps_Response = Some resp, ps_DiscardStream = False\<rparr>, sint consumed, False,
              r\<lparr>EndOfStream := False, LastResp := Some resp\<rparr>))"

text \<open>The second part, for the head of a response.\<close>

definition parse_head :: "http_lib \<Rightarrow> 'd SSLRecord \<Rightarrow> ('d, ParsedResponse) parse_result" where
  "parse_head lib r =
     (case ReadResponse lib (Stream r) of
        Inl ErrUnexpectedEOF \<Rightarrow> (None, 0, False, r)
      | Inl ErrMalformed \<Rightarrow>
          (case Index (Stream r) HTTP1Delimiter of
             Some idx \<Rightarrow> (None, int (idx + HTTP1DelimiterLen), True, r)
           | None \<Rightarrow> (None, int (length (Stream r)), True, r))
      | Inr resp \<Rightarrow>
          (case Index (Stream r) HTTP1Delimiter of
             None \<Rightarrow> (Some \<lparr>ps_StreamID = 0, ps_Response = Some resp, ps_DiscardStream = False\<rparr>,
               int (length (Stream r)), True, r)
           | Some idx \<Rightarrow>
               if isChunkedEncoding resp then
                 let resp = resp\<lparr>rs_Body := Some []\<rparr> in
                 (Some \<lparr>ps_StreamID = 0, ps_Response = Some resp, ps_DiscardStream = False\<rparr>,
                  int (idx + HTTP1DelimiterLen), False, r\<lparr>LastResp := Some resp, EndOfStream := False\<rparr>)
               else
                 let consumed = int64 (int (idx + HTTP1DelimiterLen) + rs_ContentLength resp) in
                 if int (length (Stream r)) < consumed then (None, 0, False, r\<lparr>LastResp := Some resp\<rparr>)
                 else (Some \<lparr>ps_StreamID = 0, ps_Response = Some resp, ps_DiscardStream = False\<rparr>, consumed, False,
                   r\<lparr>LastResp := Some resp, EndOfStream := True\<rparr>)))"

definition HTTP1_ParseResponse :: "http_lib \<Rightarrow> 'd SSLRecord \<Rightarrow> ('d, ParsedResponse) parse_result option" where
  "HTTP1_ParseResponse lib r =
     (case LastResp r of
        Some resp \<Rightarrow> if isChunkedEncoding resp then parse_chunk r resp else Some (parse_head lib r)
      | None \<Rightarrow> Some (parse_head lib r))"

section \<open>Chunks\<close>

definition chunk :: "bytes \<Rightarrow> bytes" where
  "chunk d = FormatUint16 (length d) @ CRLF @ d @ CRLF"

lemma Index_CRLF:
  assumes "13 \<notin> set a"
  shows "Index (a @ CRLF @ b) CRLF = Some (length a)"
  using Index_fresh [OF assms, of "[10]" b] by (simp add: CRLF_def)

lemma FormatUint16_no_CR: "13 \<notin> set (FormatUint16 n)"
  using FormatUint16_graphic [of 13 n] by auto

lemma sint_small: "n < 2 ^ 63 \<Longrightarrow> sint (of_nat n :: u64) = int n"
  by (simp add: sint_uint unsigned_of_nat take_bit_nat_eq_self signed_take_bit_int_eq_self)

lemma unat_small: "n < 2 ^ 63 \<Longrightarrow> unat (of_nat n :: u64) = n"
  by (rule u64_of_nat) simp

lemma unat_consumed:
  assumes "idx < 2 ^ 62"
  shows "unat (of_nat idx + of_nat CRLFLen + len + of_nat CRLFLen :: u64) =
    (if idx + 4 + unat len < 2 ^ 64 then idx + 4 + unat len else idx + 4 + unat len - 2 ^ 64)"
proof -
  have "of_nat idx + of_nat CRLFLen + len + of_nat CRLFLen = (of_nat (idx + 4 + unat len) :: u64)"
    by (simp add: CRLFLen_def)
  then have "unat (of_nat idx + of_nat CRLFLen + len + of_nat CRLFLen :: u64) = (idx + 4 + unat len) mod 2 ^ 64"
    by (simp only: unat_of_nat) simp
  also have "\<dots> = (if idx + 4 + unat len < 2 ^ 64 then idx + 4 + unat len else idx + 4 + unat len - 2 ^ 64)"
    using assms unat_u64 [of len] by (simp add: le_mod_geq)
  finally show ?thesis .
qed

lemma sint_large:
  assumes "2 ^ 63 \<le> unat (len :: u64)"
  shows "sint len = int (unat len) - 2 ^ 64"
proof -
  have "int (2 ^ 63) \<le> int (unat len)" "int (unat len) < int (2 ^ 64)"
    using assms unat_u64 [of len] by (simp_all only: of_nat_le_iff of_nat_less_iff)
  then have "int64 (int (unat len)) = int (unat len) - 2 ^ 64"
    by (intro int64_over) simp_all
  then show ?thesis by (simp add: sint_uint int64_def)
qed

text \<open>The three outcomes once the line with the length is complete.\<close>

lemma parseStream_line:
  assumes "Index data CRLF = Some idx" and "ParseUint16 (take idx data) = Some len" and "length data < 2 ^ 62"
  shows "parseStream data =
    (if idx + 4 + unat len < 2 ^ 64 then
       if length data < idx + 4 + unat len then Some (Inr ([], 0))
       else Some (Inr (take (unat len) (drop (idx + 2) data), of_nat (idx + 4 + unat len)))
     else if length data < idx + 4 + unat len - 2 ^ 64 then Some (Inr ([], 0)) else None)"
proof -
  let ?c = "of_nat idx + of_nat CRLFLen + len + of_nat CRLFLen :: u64"
  have idx: "idx + 2 \<le> length data" using Index_split(2) [OF assms(1)] by (simp add: CRLF_def)
  then have c: "unat ?c = (if idx + 4 + unat len < 2 ^ 64 then idx + 4 + unat len else idx + 4 + unat len - 2 ^ 64)"
    using assms(3) by (intro unat_consumed) simp
  have less: "of_nat (length data) < ?c \<longleftrightarrow> length data < unat ?c"
    using assms(3) unat_small [of "length data"] by (simp add: word_less_nat_alt)
  have unf: "parseStream data = (if length data < unat ?c then Some (Inr ([], 0))
      else (case go_slice data (int (idx + 2)) (int64 (int (idx + 2) + sint len)) of
              None \<Rightarrow> None | Some stream \<Rightarrow> Some (Inr (stream, ?c))))"
    unfolding parseStream_def assms(1,2) option.case Let_def less by (simp add: CRLFLen_def)
  show ?thesis
  proof (cases "idx + 4 + unat len < 2 ^ 64")
    case True
    show ?thesis
    proof (cases "length data < idx + 4 + unat len")
      case False
      define n where "n = unat len"
      have n: "idx + 4 + n \<le> length data" using False by (simp add: n_def)
      have "sint len = int n" using n assms(3) sint_small [of n] by (simp add: n_def)
      then have "int64 (int (idx + 2) + sint len) = int (idx + 2 + n)"
        using n assms(3) by (subst int64_id) auto
      then have "go_slice data (int (idx + 2)) (int64 (int (idx + 2) + sint len)) = Some (take (unat len) (drop (idx + 2) data))"
        using go_slice_in [of "idx + 2" "idx + 2 + n" data] n by (simp only: n_def) simp
      moreover have "?c = of_nat (idx + 4 + unat len)" by (simp add: CRLFLen_def)
      ultimately show ?thesis using True False c unfolding unf by simp
    qed (use True c unf in simp)
  next
    case False
    then have "2 ^ 63 \<le> unat len" using idx assms(3) by simp
    then have s: "sint len = int (unat len) - 2 ^ 64" by (rule sint_large)
    define n where "n = unat len"
    have n: "n < 2 ^ 64" "2 ^ 64 \<le> idx + 4 + n" "sint len = int n - 2 ^ 64"
      using False s unat_u64 [of len] by (simp_all add: n_def)
    then have "int64 (int (idx + 2) + sint len) < int (idx + 2)"
      using idx assms(3) by (subst int64_id) auto
    then have "go_slice data (int (idx + 2)) (int64 (int (idx + 2) + sint len)) = None"
      by (simp add: go_slice_None)
    then show ?thesis using False c unfolding unf by simp
  qed
qed

lemma length_FormatUint16: "length (FormatUint16 n) \<le> Suc n"
proof (induction n rule: FormatUint16.induct)
  case (1 n)
  show ?case
  proof (cases "n < 16")
    case False
    then have "length (FormatUint16 (n div 16)) \<le> Suc (n div 16)" using 1 by simp
    moreover have "Suc (n div 16) \<le> n" using False by simp
    ultimately show ?thesis using False by (subst FormatUint16.simps) simp
  qed (simp add: FormatUint16.simps)
qed

lemma chunk_line:
  assumes "length d < 2 ^ 62"
  shows "Index (chunk d @ rest) CRLF = Some (length (FormatUint16 (length d)))"
    and "ParseUint16 (take (length (FormatUint16 (length d))) (chunk d @ rest)) = Some (of_nat (length d))"
  using Index_CRLF [OF FormatUint16_no_CR [of "length d"], of "d @ CRLF @ rest"] ParseUint16_Format [of "length d"] assms
  by (simp_all add: chunk_def)

lemma parseStream_chunk:
  assumes "length (chunk d @ rest) < 2 ^ 62"
  shows "parseStream (chunk d @ rest) = Some (Inr (d, of_nat (length (chunk d))))"
proof -
  let ?h = "FormatUint16 (length d)"
  have d: "length d < 2 ^ 62" using assms by (simp add: chunk_def)
  then have u: "unat (of_nat (length d) :: u64) = length d" by (intro unat_small) simp
  have len: "length (chunk d) = length ?h + 4 + length d" by (simp add: chunk_def CRLF_def)
  have "drop (length ?h + 2) (chunk d @ rest) = d @ CRLF @ rest"
    by (simp add: chunk_def CRLF_def)
  then show ?thesis
    using parseStream_line [OF chunk_line [OF d] assms] assms u len by simp
qed

lemma parseStream_last: "parseStream (chunk [] @ rest) = Some (Inr ([], StreamEndChunkLength))"
  if "length rest < 2 ^ 61"
proof -
  have len: "length (FormatUint16 0) = 1" by (subst FormatUint16.simps) simp
  then have "length (chunk [] @ rest) < 2 ^ 62" using that by (simp add: chunk_def CRLF_def)
  then show ?thesis
    using parseStream_chunk [of "[]" rest] len by (simp add: chunk_def CRLF_def StreamEndChunkLength_def)
qed

lemma Index_no_CRLF: "13 \<notin> set h \<Longrightarrow> Index h CRLF = None \<and> Index (h @ [13]) CRLF = None"
  by (induction h) (auto simp: HasPrefix_def CRLF_def)

lemma Index_CRLF_cut:
  assumes "13 \<notin> set h" and "k < length h + 2"
  shows "Index (take k (h @ CRLF @ b)) CRLF = None"
proof (cases "k \<le> length h")
  case True
  moreover have "13 \<notin> set (take k h)" using assms(1) by (meson in_set_takeD)
  ultimately show ?thesis using Index_no_CRLF [of "take k h"] by simp
next
  case False
  then have "k = length h + 1" using assms(2) by simp
  then show ?thesis using Index_no_CRLF [OF assms(1)] by (simp add: CRLF_def)
qed

lemma parseStream_None_iff:
  assumes "length data < 2 ^ 62"
  shows "parseStream data = None \<longleftrightarrow> (\<exists>idx len. Index data CRLF = Some idx \<and>
    ParseUint16 (take idx data) = Some len \<and> 2 ^ 64 \<le> idx + 4 + unat len \<and>
    idx + 4 + unat len \<le> 2 ^ 64 + length data)"
proof (cases "\<exists>idx len. Index data CRLF = Some idx \<and> ParseUint16 (take idx data) = Some len")
  case True
  then obtain idx len where l: "Index data CRLF = Some idx" "ParseUint16 (take idx data) = Some len" by blast
  show ?thesis using parseStream_line [OF l assms] l by auto
next
  case False
  then show ?thesis by (auto simp: parseStream_def split: option.splits)
qed

section \<open>Properties\<close>

text \<open>
  A chunk length near the top of the 64-bit range crashes the agent.  On data of any realistic size,
  the chunk reader panics if and only if the first line is a hexadecimal number whose sum with the
  length of the line and the two line ends leaves 64 bits, and the wrapped sum passes the test
  against the data at hand.
\<close>

lemma chunk_length_overflow_panics:
  assumes "length data < 2 ^ 62"
  shows "parseStream data = None \<longleftrightarrow> (\<exists>idx len. Index data CRLF = Some idx \<and>
    ParseUint16 (take idx data) = Some len \<and> 2 ^ 64 \<le> idx + 4 + unat len \<and>
    idx + 4 + unat len \<le> 2 ^ 64 + length data)"
  by (rule parseStream_None_iff [OF assms])

lemma chunk_length_overflow_panics_example:
  "parseStream (str ''ffffffffffffffff'' @ [13, 10, 65]) = None"
proof -
  let ?data = "str ''ffffffffffffffff'' @ [13, 10, 65]"
  have "Index ?data CRLF = Some 16" by code_simp
  moreover have "ParseUint16 (take 16 ?data) = Some 0xFFFFFFFFFFFFFFFF"
    by (simp add: ParseUint16_def hex_digit_def bytes_of_string_def)
  moreover have "length ?data = 19" by simp
  ultimately show ?thesis using chunk_length_overflow_panics [of ?data] by auto
qed

text \<open>
  C34: where a chunk is cut decides its fate.  While a chunked response is collected and the stream
  holds a proper part of the next chunk, the parser waits for more data if the line with the
  length is complete, but reports an error if it is not.
\<close>

theorem cut_chunk_outcome:
  assumes "LastResp r = Some resp" and "isChunkedEncoding resp"
    and "Stream r = take k (chunk d)" and "k < length (chunk d)" and "length d < 2 ^ 60"
  shows "HTTP1_ParseResponse lib r = Some (None, 0, k < length (FormatUint16 (length d)) + 2, r)"
proof -
  let ?h = "FormatUint16 (length d)"
  have h: "length ?h \<le> Suc (length d)" by (rule length_FormatUint16)
  have len: "length (chunk d) = length ?h + 4 + length d" by (simp add: chunk_def CRLF_def)
  show ?thesis
  proof (cases "k < length ?h + 2")
    case True
    then have "Index (Stream r) CRLF = None"
      using Index_CRLF_cut [OF FormatUint16_no_CR True, of "d @ CRLF"] assms(3) by (simp add: chunk_def)
    then show ?thesis
      using assms(1,2) True by (simp add: HTTP1_ParseResponse_def parse_chunk_def parseStream_def)
  next
    case False
    then obtain j where "k = length ?h + 2 + j" using le_Suc_ex not_less by blast
    then have split: "Stream r = ?h @ CRLF @ take j (d @ CRLF)"
      unfolding assms(3) by (simp add: chunk_def CRLF_def)
    have line: "Index (Stream r) CRLF = Some (length ?h)" "ParseUint16 (take (length ?h) (Stream r)) = Some (of_nat (length d))"
      unfolding split using Index_CRLF [OF FormatUint16_no_CR [of "length d"]] ParseUint16_Format [of "length d"] assms(5) by simp_all
    have small: "length (Stream r) < 2 ^ 62" using assms(3-5) len h by simp
    have "unat (of_nat (length d) :: u64) = length d" using assms(5) by (intro unat_small) simp
    then have "parseStream (Stream r) = Some (Inr ([], 0))"
      using parseStream_line [OF line small] assms(3-5) len h by simp
    then show ?thesis
      using assms(1,2) False by (simp add: HTTP1_ParseResponse_def parse_chunk_def)
  qed
qed

definition demo_response :: "bytes \<Rightarrow> http_Response" where
  "demo_response body = \<lparr>rs_StatusCode = 200, rs_Proto = str ''HTTP/1.1'', rs_ContentLength = -1,
     rs_TransferEncoding = [str ''chunked''], rs_Header = Some (\<lambda>_. None), rs_Body = Some body\<rparr>"

definition demo_lib :: http_lib where
  "demo_lib = \<lparr>ReadRequest = (\<lambda>_. Inl ErrUnexpectedEOF), ReadResponse = (\<lambda>_. Inl ErrUnexpectedEOF)\<rparr>"

theorem cut_chunk_outcome_witness:
  "let r = (empty_record :: unit SSLRecord)\<lparr>Stream := [53, 13], LastResp := Some (demo_response [])\<rparr> in
   HTTP1_ParseResponse demo_lib r = Some (None, 0, True, r)"
proof -
  let ?r = "(empty_record :: unit SSLRecord)\<lparr>Stream := [53, 13], LastResp := Some (demo_response [])\<rparr>"
  have "take 2 (chunk [1, 2, 3, 4, 5]) = [53, 13]" "length (FormatUint16 5) = 1" "length (chunk [1, 2, 3, 4, 5]) = 10"
    by code_simp+
  then show ?thesis
    using cut_chunk_outcome [of ?r "demo_response []" 2 "[1, 2, 3, 4, 5]" demo_lib]
    by (simp add: isChunkedEncoding_def demo_response_def)
qed

end
