(* ===== verification/Tls_Http2.thy ===== *)
theory Tls_Http2
  imports Tls_Record
begin

text \<open>
  The HTTP/2 parser, \<^verbatim>\<open>tls/http2.go\<close>: the frames of one direction of a connection, the header block that
  is open, and the messages of the streams that are multiplexed on it.  The framer, the header
  decoder and the printing of a URL are parameters.  On an error the caller drops the record, so no
  state is returned with it.
\<close>

section \<open>Frames\<close>

text \<open>The frames the parser tells apart, with the fields it reads.\<close>

datatype h2_frame =
  HeadersFrame (frame_StreamID: u32) (HeaderBlockFragment: bytes) (HeadersEnded: bool) (StreamEnded: bool)
| ContinuationFrame (frame_StreamID: u32) (HeaderBlockFragment: bytes) (HeadersEnded: bool)
| DataFrame (frame_StreamID: u32) (frame_Data: bytes) (StreamEnded: bool)
| RSTStreamFrame (frame_StreamID: u32)
| GoAwayFrame (frame_StreamID: u32)
| OtherFrame (frame_StreamID: u32)

datatype frame_error = FrameEOF | FrameError

record ('f, 'd) h2_lib =
  NewFramer :: 'f
  ReadFrame :: "'f \<Rightarrow> bytes \<Rightarrow> frame_error + (h2_frame \<times> nat \<times> 'f)"
  NewDecoder :: 'd
  DecodeFull :: "'d \<Rightarrow> bytes \<Rightarrow> (bytes \<times> bytes) list option \<times> 'd"
  URL_String :: "bytes \<Rightarrow> bytes \<Rightarrow> bytes \<Rightarrow> bytes"

record HTTP2ParsedMessage =
  hm_StreamID :: u32
  hm_Headers :: "(bytes \<times> bytes) list"
  hm_Body :: bytes
  hm_Canceled :: bool

definition HTTP2Preface :: bytes where
  "HTTP2Preface = str ''PRI * HTTP/2.0'' @ [13, 10, 13, 10] @ str ''SM'' @ [13, 10, 13, 10]"

definition HTTP2FrameHeaderLen :: nat where "HTTP2FrameHeaderLen = 9"

definition empty_stream :: HTTP2StreamState where
  "empty_stream = \<lparr>HeadersReady = False, Ended = False, Headers = [], Body = []\<rparr>"

definition ensureHTTP2State :: "('f, 'd) h2_lib \<Rightarrow> 'd SSLRecord \<Rightarrow> 'd HTTP2State" where
  "ensureHTTP2State lib r = (case HTTP2 r of Some state \<Rightarrow> state
     | None \<Rightarrow> \<lparr>PrefaceConsumed = False, Decoder = NewDecoder lib, HeaderStreamID = 0, HeaderBlockBuf = [],
         Streams = (\<lambda>_. None)\<rparr>)"

definition ensureStream :: "'d HTTP2State \<Rightarrow> u32 \<Rightarrow> HTTP2StreamState" where
  "ensureStream state sid = (case Streams state sid of Some s \<Rightarrow> s | None \<Rightarrow> empty_stream)"

definition set_stream :: "'d HTTP2State \<Rightarrow> u32 \<Rightarrow> HTTP2StreamState \<Rightarrow> 'd HTTP2State" where
  "set_stream state sid s = state\<lparr>Streams := (Streams state)(sid \<mapsto> s)\<rparr>"

definition tryCompleteStream :: "'d HTTP2State \<Rightarrow> u32 \<Rightarrow> 'd HTTP2State \<times> HTTP2ParsedMessage option" where
  "tryCompleteStream state sid =
     (case Streams state sid of
        None \<Rightarrow> (state, None)
      | Some s \<Rightarrow>
          if \<not> HeadersReady s \<or> \<not> Ended s then (state, None)
          else (state\<lparr>Streams := (Streams state)(sid := None)\<rparr>,
                Some \<lparr>hm_StreamID = sid, hm_Headers = Headers s, hm_Body = Body s, hm_Canceled = False\<rparr>))"

text \<open>
  The end of a header block, common to the two kinds of frames that carry one; the fragment has been
  added to the buffer.
\<close>

definition end_headers ::
  "('f, 'd) h2_lib \<Rightarrow> 'd HTTP2State \<Rightarrow> u32 \<Rightarrow> HTTP2StreamState \<Rightarrow> ('d HTTP2State \<times> HTTP2StreamState) option" where
  "end_headers lib state sid s =
     (case DecodeFull lib (Decoder state) (HeaderBlockBuf state) of
        (None, _) \<Rightarrow> None
      | (Some hs, dec) \<Rightarrow>
          Some (state\<lparr>Decoder := dec, HeaderStreamID := 0, HeaderBlockBuf := []\<rparr>,
                s\<lparr>Headers := Headers s @ hs, HeadersReady := True\<rparr>))"

text \<open>
  A header block fragment, the part that the code has for both kinds of frames: a block that ends is
  decoded, and the stream may be complete.
\<close>

definition add_fragment :: "('f, 'd) h2_lib \<Rightarrow> 'd HTTP2State \<Rightarrow> u32 \<Rightarrow> bytes \<Rightarrow> bool \<Rightarrow> bool \<Rightarrow>
    ('d HTTP2State \<times> HTTP2ParsedMessage option) option" where
  "add_fragment lib state sid frag headersEnded streamEnded =
     (let s = ensureStream state sid;
          state = state\<lparr>HeaderBlockBuf := HeaderBlockBuf state @ frag\<rparr>
      in case (if headersEnded then end_headers lib state sid s else Some (state, s)) of
           None \<Rightarrow> None
         | Some (state, s) \<Rightarrow>
             let s = (if streamEnded then s\<lparr>Ended := True\<rparr> else s)
             in Some (tryCompleteStream (set_stream state sid s) sid))"

text \<open>
  One turn of the loop on a frame; \<open>None\<close> is an error.
\<close>

fun frame_step :: "('f, 'd) h2_lib \<Rightarrow> 'd HTTP2State \<Rightarrow> h2_frame \<Rightarrow>
    ('d HTTP2State \<times> HTTP2ParsedMessage option) option" where
  "frame_step lib state (HeadersFrame sid frag headersEnded streamEnded) =
     (if HeaderStreamID state \<noteq> 0 \<and> HeaderStreamID state \<noteq> sid then None
      else
        let state = (if HeaderStreamID state = 0 then state\<lparr>HeaderStreamID := sid, HeaderBlockBuf := []\<rparr> else state)
        in add_fragment lib state sid frag headersEnded streamEnded)"
| "frame_step lib state (ContinuationFrame sid frag headersEnded) =
     (if HeaderStreamID state = 0 then None
      else if HeaderStreamID state \<noteq> sid then None
      else add_fragment lib state sid frag headersEnded False)"
| "frame_step lib state (DataFrame sid data streamEnded) =
     (let s = ensureStream state sid;
          s = s\<lparr>Body := Body s @ data\<rparr>;
          s = (if streamEnded then s\<lparr>Ended := True\<rparr> else s)
      in Some (tryCompleteStream (set_stream state sid s) sid))"
| "frame_step lib state (RSTStreamFrame sid) =
     (let state = state\<lparr>Streams := (Streams state)(sid := None)\<rparr>;
          state = (if HeaderStreamID state = sid then state\<lparr>HeaderStreamID := 0, HeaderBlockBuf := []\<rparr> else state)
      in Some (state, Some \<lparr>hm_StreamID = sid, hm_Headers = [], hm_Body = [], hm_Canceled = True\<rparr>))"
| "frame_step lib state (GoAwayFrame sid) = Some (state, None)"
| "frame_step lib state (OtherFrame sid) = Some (state, None)"

text \<open>
  The loop over the frames.  An empty reader is at its end.  The results are the message, the bytes
  consumed, whether there was an error, and the state.
\<close>

function parse_loop :: "('f, 'd) h2_lib \<Rightarrow> 'f \<Rightarrow> 'd HTTP2State \<Rightarrow> bytes \<Rightarrow> nat \<Rightarrow>
    HTTP2ParsedMessage option \<times> nat \<times> bool \<times> 'd HTTP2State" where
  "parse_loop lib framer state data consumed =
     (if data = [] then (None, consumed, False, state)
      else case ReadFrame lib framer data of
        Inl FrameEOF \<Rightarrow> (None, consumed, False, state)
      | Inl FrameError \<Rightarrow> (None, consumed, True, state)
      | Inr (frame, len, framer') \<Rightarrow>
          let frameLen = len + HTTP2FrameHeaderLen in
          (case frame_step lib state frame of
             None \<Rightarrow> (None, consumed, True, state)
           | Some (state', Some message) \<Rightarrow> (Some message, consumed + frameLen, False, state')
           | Some (state', None) \<Rightarrow>
               parse_loop lib framer' state' (drop frameLen data) (consumed + frameLen)))"
  by pat_completeness auto
termination
  by (relation "measure (\<lambda>(lib, framer, state, data, consumed). length data)")
    (auto simp: HTTP2FrameHeaderLen_def)

declare parse_loop.simps [simp del]

definition HTTP2_parse :: "('f, 'd) h2_lib \<Rightarrow> 'd SSLRecord \<Rightarrow>
    HTTP2ParsedMessage option \<times> int \<times> bool \<times> 'd SSLRecord" where
  "HTTP2_parse lib r =
     (let r = r\<lparr>EndOfStream := False\<rparr>; state = ensureHTTP2State lib r;
          preface = (\<not> PrefaceConsumed state \<and> HasPrefix (Stream r) HTTP2Preface);
          state = (if preface then state\<lparr>PrefaceConsumed := True\<rparr> else state);
          skip = (if preface then length HTTP2Preface else 0)
      in case parse_loop lib (NewFramer lib) state (drop skip (Stream r)) skip of
           (message, consumed, err, state) \<Rightarrow>
             (message, int consumed, err, r\<lparr>HTTP2 := Some state, EndOfStream := (message \<noteq> None)\<rparr>))"

section \<open>Messages\<close>

text \<open>The pseudo headers of a request: method, scheme, path, authority and the other fields.\<close>

primrec request_fields ::
  "(bytes \<times> bytes) list \<Rightarrow> bytes \<times> bytes \<times> bytes \<times> bytes \<times> Header \<Rightarrow> bytes \<times> bytes \<times> bytes \<times> bytes \<times> Header" where
  "request_fields [] acc = acc"
| "request_fields (hf # hfs) acc = request_fields hfs
     (case acc of (method, scheme, path, authority, hdrs) \<Rightarrow>
        if fst hf = str '':method'' then (snd hf, scheme, path, authority, hdrs)
        else if fst hf = str '':scheme'' then (method, snd hf, path, authority, hdrs)
        else if fst hf = str '':path'' then (method, scheme, snd hf, authority, hdrs)
        else if fst hf = str '':authority'' then (method, scheme, path, snd hf, hdrs)
        else (method, scheme, path, authority, Header_Add hdrs (fst hf) (snd hf)))"

definition HTTP2_ParseRequest :: "('f, 'd) h2_lib \<Rightarrow> 'd SSLRecord \<Rightarrow>
    ParsedRequest option \<times> int \<times> bool \<times> 'd SSLRecord" where
  "HTTP2_ParseRequest lib r =
     (case HTTP2_parse lib r of
        (message, consumed, err, r) \<Rightarrow>
          if err then (None, consumed, True, r)
          else case message of
            None \<Rightarrow> (None, consumed, False, r)
          | Some m \<Rightarrow>
              if hm_Canceled m then (None, consumed, False, r)
              else (case request_fields (hm_Headers m) ([], [], [], [], \<lambda>_. None) of
                (method, scheme, path, authority, hdrs) \<Rightarrow>
                  (Some \<lparr>pq_StreamID = hm_StreamID m, pq_Request = Some \<lparr>rq_Method = method,
                     rq_URL = Some (URL_String lib scheme authority path), rq_RequestURI = [],
                     rq_Host = authority, rq_Proto = str ''HTTP/2.0'', rq_ContentLength = 0,
                     rq_Header = Some hdrs, rq_Body = Some (hm_Body m)\<rparr>\<rparr>, consumed, False, r)))"

text \<open>\<^verbatim>\<open>strconv.Atoi\<close>: an optional sign and decimal digits, in the range of an \<^verbatim>\<open>int\<close>.\<close>

definition decimal :: "bytes \<Rightarrow> int option" where
  "decimal s = (if s \<noteq> [] \<and> (\<forall>c \<in> set s. 48 \<le> unat c \<and> unat c \<le> 57)
     then Some (foldl (\<lambda>n c. n * 10 + (int (unat c) - 48)) 0 s) else None)"

definition Atoi :: "bytes \<Rightarrow> int option" where
  "Atoi s = (let (neg, digits) = (if HasPrefix s (str ''-'') then (True, tl s)
       else if HasPrefix s (str ''+'') then (False, tl s) else (False, s))
     in case decimal digits of None \<Rightarrow> None
        | Some n \<Rightarrow> let v = (if neg then - n else n) in if - (2 ^ 63) \<le> v \<and> v < 2 ^ 63 then Some v else None)"

primrec response_fields :: "(bytes \<times> bytes) list \<Rightarrow> int \<times> Header \<Rightarrow> (int \<times> Header) option" where
  "response_fields [] acc = Some acc"
| "response_fields (hf # hfs) acc =
     (if fst hf = str '':status'' then
        (case Atoi (snd hf) of None \<Rightarrow> None | Some code \<Rightarrow> response_fields hfs (code, snd acc))
      else response_fields hfs (fst acc, Header_Add (snd acc) (fst hf) (snd hf)))"

definition HTTP2_ParseResponse :: "('f, 'd) h2_lib \<Rightarrow> 'd SSLRecord \<Rightarrow>
    ParsedResponse option \<times> int \<times> bool \<times> 'd SSLRecord" where
  "HTTP2_ParseResponse lib r =
     (case HTTP2_parse lib r of
        (message, consumed, err, r) \<Rightarrow>
          if err then (None, consumed, True, r)
          else case message of
            None \<Rightarrow> (None, consumed, False, r)
          | Some m \<Rightarrow>
              if hm_Canceled m then
                (Some \<lparr>ps_StreamID = hm_StreamID m, ps_Response = None, ps_DiscardStream = True\<rparr>, consumed, False, r)
              else (case response_fields (hm_Headers m) (0, \<lambda>_. None) of
                None \<Rightarrow> (None, consumed, True, r)
              | Some (code, hdrs) \<Rightarrow>
                  (Some \<lparr>ps_StreamID = hm_StreamID m, ps_Response = Some \<lparr>rs_StatusCode = code,
                     rs_Proto = str ''HTTP/2.0'', rs_ContentLength = 0, rs_TransferEncoding = [],
                     rs_Header = Some hdrs, rs_Body = Some (hm_Body m)\<rparr>, ps_DiscardStream = False\<rparr>,
                   consumed, False, r)))"

section \<open>Runs of frames\<close>

fun run_frames :: "('f, 'd) h2_lib \<Rightarrow> 'd HTTP2State \<Rightarrow> h2_frame list \<Rightarrow>
    ('d HTTP2State \<times> HTTP2ParsedMessage list) option" where
  "run_frames lib state [] = Some (state, [])"
| "run_frames lib state (f # fs) =
     (case frame_step lib state f of None \<Rightarrow> None
      | Some (state', m) \<Rightarrow> map_option (\<lambda>(st, ms). (st, (case m of None \<Rightarrow> [] | Some x \<Rightarrow> [x]) @ ms))
          (run_frames lib state' fs))"

lemma run_frames_append:
  "run_frames lib st (fs @ gs) = (case run_frames lib st fs of None \<Rightarrow> None
     | Some (st', ms) \<Rightarrow> map_option (\<lambda>(st'', ms'). (st'', ms @ ms')) (run_frames lib st' gs))"
  by (induction fs arbitrary: st) (auto split: option.splits prod.splits simp: map_option_case)

text \<open>What the frames read from some bytes are, up to the end of the data.\<close>

inductive frames_read :: "('f, 'd) h2_lib \<Rightarrow> 'f \<Rightarrow> bytes \<Rightarrow> (h2_frame \<times> nat) list \<Rightarrow> bool" for lib where
  at_end: "data = [] \<or> ReadFrame lib framer data = Inl FrameEOF \<Longrightarrow> frames_read lib framer data []"
| next_frame: "data \<noteq> [] \<Longrightarrow> ReadFrame lib framer data = Inr (f, len, framer') \<Longrightarrow>
    frames_read lib framer' (drop (len + HTTP2FrameHeaderLen) data) fs \<Longrightarrow>
    frames_read lib framer data ((f, len) # fs)"

text \<open>
  The parser's loop stops after the first frame that completes a message, having consumed the frames up
  to it, and otherwise runs to the end of the data.
\<close>

lemma parse_loop_frames:
  assumes "frames_read lib framer data fs" and "run_frames lib st (map fst fs) = Some (st', ms)"
  shows "\<exists>pre post st1. fs = pre @ post \<and> parse_loop lib framer st data n =
      (case ms of [] \<Rightarrow> None | m # _ \<Rightarrow> Some m,
       n + sum_list (map (\<lambda>f. snd f + HTTP2FrameHeaderLen) pre), False, st1) \<and>
    run_frames lib st (map fst pre) = Some (st1, take 1 ms) \<and> (ms = [] \<longrightarrow> post = [])"
  using assms
proof (induction arbitrary: st n ms rule: frames_read.induct)
  case (at_end data framer)
  then show ?case by (auto simp: parse_loop.simps [of lib framer _ data])
next
  case (next_frame data framer f len framer' fs)
  then obtain st2 m where step: "frame_step lib st f = Some (st2, m)" by (auto split: option.splits)
  show ?case
  proof (cases m)
    case None
    then have "run_frames lib st2 (map fst fs) = Some (st', ms)" using next_frame.prems step by auto
    from next_frame.IH [OF this, of "n + (len + HTTP2FrameHeaderLen)"] obtain pre post st1 where *: "fs = pre @ post"
      "parse_loop lib framer' st2 (drop (len + HTTP2FrameHeaderLen) data) (n + (len + HTTP2FrameHeaderLen)) =
        (case ms of [] \<Rightarrow> None | m # _ \<Rightarrow> Some m, n + (len + HTTP2FrameHeaderLen) +
          sum_list (map (\<lambda>f. snd f + HTTP2FrameHeaderLen) pre), False, st1)"
      "run_frames lib st2 (map fst pre) = Some (st1, take 1 ms)" "ms = [] \<longrightarrow> post = []" by blast
    then show ?thesis
      using next_frame.hyps step None
      by (intro exI [of _ "(f, len) # pre"] exI [of _ post] exI [of _ st1])
        (simp add: parse_loop.simps [of lib framer st data] Let_def)
  next
    case (Some x)
    then show ?thesis
      using next_frame.hyps next_frame.prems step
      by (intro exI [of _ "[(f, len)]"] exI [of _ fs] exI [of _ st2])
        (auto simp: parse_loop.simps [of lib framer st data] Let_def split: option.splits)
  qed
qed

section \<open>Streams are independent\<close>

lemma tryCompleteStream_frame:
  "tryCompleteStream st sid = (st', m) \<Longrightarrow> s \<noteq> sid \<Longrightarrow> Streams st' s = Streams st s"
  "tryCompleteStream st sid = (st', Some x) \<Longrightarrow> hm_StreamID x = sid"
  "tryCompleteStream st sid = (st', m) \<Longrightarrow> HeaderStreamID st' = HeaderStreamID st \<and>
    HeaderBlockBuf st' = HeaderBlockBuf st \<and> Decoder st' = Decoder st"
  by (auto simp: tryCompleteStream_def split: option.splits if_splits)

lemma end_headers_frame:
  "end_headers lib st sid s = Some (st', s') \<Longrightarrow> Streams st' = Streams st"
  by (auto simp: end_headers_def split: option.splits prod.splits)

lemma add_fragment_cases:
  assumes "add_fragment lib st sid frag he se = Some (st', m)"
  obtains st1 s1 where "Streams st1 = Streams st" and "tryCompleteStream (set_stream st1 sid s1) sid = (st', m)"
proof -
  let ?st = "st\<lparr>HeaderBlockBuf := HeaderBlockBuf st @ frag\<rparr>" and ?s = "ensureStream st sid"
  obtain st1 s1 where *: "(if he then end_headers lib ?st sid ?s else Some (?st, ?s)) = Some (st1, s1)"
    "tryCompleteStream (set_stream st1 sid (if se then s1\<lparr>Ended := True\<rparr> else s1)) sid = (st', m)"
    using assms by (auto simp: add_fragment_def Let_def split: option.splits)
  then have "Streams st1 = Streams st"
    using end_headers_frame [of lib ?st sid ?s st1 s1] by (auto split: if_splits)
  with *(2) show ?thesis by (rule that [rotated])
qed

lemma frame_step_cases:
  assumes "frame_step lib st f = Some (st', m)"
  obtains (stream) st1 s1 where "Streams st1 = Streams st"
      and "tryCompleteStream (set_stream st1 (frame_StreamID f) s1) (frame_StreamID f) = (st', m)"
  | (reset) x where "Streams st' = (Streams st)(frame_StreamID f := None)" and "m = Some x"
      and "hm_StreamID x = frame_StreamID f"
  | (ignored) "st' = st" and "m = None"
proof (cases f)
  case (HeadersFrame sid frag he se)
  let ?st0 = "if HeaderStreamID st = 0 then st\<lparr>HeaderStreamID := sid, HeaderBlockBuf := []\<rparr> else st"
  have "add_fragment lib ?st0 sid frag he se = Some (st', m)"
    using assms HeadersFrame by (simp add: Let_def split: if_splits)
  then obtain st1 s1 where "Streams st1 = Streams ?st0" "tryCompleteStream (set_stream st1 sid s1) sid = (st', m)"
    by (rule add_fragment_cases)
  then show ?thesis using HeadersFrame by (intro stream [of st1 s1]) simp_all
next
  case (ContinuationFrame sid frag he)
  then have "add_fragment lib st sid frag he False = Some (st', m)"
    using assms by (simp split: if_splits)
  then obtain st1 s1 where "Streams st1 = Streams st" "tryCompleteStream (set_stream st1 sid s1) sid = (st', m)"
    by (rule add_fragment_cases)
  then show ?thesis using ContinuationFrame by (intro stream [of st1 s1]) simp_all
next
  case (DataFrame sid data se)
  then show ?thesis using assms stream [OF refl] by (auto simp: Let_def)
next
  case (RSTStreamFrame sid)
  then show ?thesis using assms reset by (auto simp: Let_def)
qed (use assms ignored in auto)

lemma frame_step_others:
  assumes "frame_step lib st f = Some (st', m)" and "frame_StreamID f \<noteq> s"
  shows "Streams st' s = Streams st s \<and> (\<forall>x. m = Some x \<longrightarrow> hm_StreamID x \<noteq> s)"
  using assms(1)
proof (cases rule: frame_step_cases)
  case (stream st1 s1)
  then show ?thesis using tryCompleteStream_frame assms(2) by (fastforce simp: set_stream_def)
qed (use assms(2) in auto)

section \<open>Properties\<close>

text \<open>A header block for a stream, cut into one or more fragments.\<close>

fun continuation_frames :: "u32 \<Rightarrow> bytes list \<Rightarrow> h2_frame list" where
  "continuation_frames s [] = []"
| "continuation_frames s [frag] = [ContinuationFrame s frag True]"
| "continuation_frames s (frag # frags) = ContinuationFrame s frag False # continuation_frames s frags"

definition header_frames :: "u32 \<Rightarrow> bytes \<Rightarrow> bytes list \<Rightarrow> h2_frame list" where
  "header_frames s frag frags = HeadersFrame s frag (frags = []) False # continuation_frames s frags"

primrec data_of :: "h2_frame \<Rightarrow> bytes" where
  "data_of (HeadersFrame sid frag he se) = []"
| "data_of (ContinuationFrame sid frag he) = []"
| "data_of (DataFrame sid data se) = data"
| "data_of (RSTStreamFrame sid) = []"
| "data_of (GoAwayFrame sid) = []"
| "data_of (OtherFrame sid) = []"

definition stream_body :: "u32 \<Rightarrow> h2_frame list \<Rightarrow> bytes" where
  "stream_body s fs = concat (map data_of (filter (\<lambda>f. frame_StreamID f = s) fs))"

lemma continuation_run:
  assumes "HeaderStreamID st = s" and "s \<noteq> 0" and "Streams st s = Some empty_stream" and "frags \<noteq> []"
    and "DecodeFull lib (Decoder st) (HeaderBlockBuf st @ concat frags) = (Some hs, dec)"
  shows "\<exists>st'. run_frames lib st (continuation_frames s frags) = Some (st', []) \<and>
    Streams st' s = Some (empty_stream\<lparr>Headers := hs, HeadersReady := True\<rparr>)"
  using assms
proof (induction frags arbitrary: st rule: continuation_frames.induct)
  case (2 s frag)
  then show ?case
    by (simp add: add_fragment_def Let_def end_headers_def ensureStream_def tryCompleteStream_def
        set_stream_def empty_stream_def)
next
  case (3 s frag frag' frags)
  let ?st = "st\<lparr>HeaderBlockBuf := HeaderBlockBuf st @ frag, Streams := (Streams st)(s \<mapsto> empty_stream)\<rparr>"
  have "frame_step lib st (ContinuationFrame s frag False) = Some (?st, None)"
    using 3 by (simp add: add_fragment_def Let_def ensureStream_def tryCompleteStream_def
        set_stream_def empty_stream_def)
  moreover have "\<exists>st'. run_frames lib ?st (continuation_frames s (frag' # frags)) = Some (st', []) \<and>
    Streams st' s = Some (empty_stream\<lparr>Headers := hs, HeadersReady := True\<rparr>)"
    using 3 by (intro "3.IH") simp_all
  ultimately show ?case by auto
qed simp

lemma header_run:
  assumes "HeaderStreamID st = 0" and "s \<noteq> 0" and "Streams st s = None"
    and "DecodeFull lib (Decoder st) (frag @ concat frags) = (Some hs, dec)"
  shows "\<exists>st'. run_frames lib st (header_frames s frag frags) = Some (st', []) \<and>
    Streams st' s = Some (empty_stream\<lparr>Headers := hs, HeadersReady := True\<rparr>)"
proof (cases "frags = []")
  case True
  then show ?thesis
    using assms by (simp add: header_frames_def add_fragment_def Let_def end_headers_def ensureStream_def
        tryCompleteStream_def set_stream_def empty_stream_def)
next
  case False
  let ?st = "st\<lparr>HeaderStreamID := s, HeaderBlockBuf := frag, Streams := (Streams st)(s \<mapsto> empty_stream)\<rparr>"
  have "frame_step lib st (HeadersFrame s frag False False) = Some (?st, None)"
    using assms by (simp add: add_fragment_def Let_def ensureStream_def tryCompleteStream_def
        set_stream_def empty_stream_def)
  then show ?thesis
    using continuation_run [of ?st s frags lib hs dec] assms False by (auto simp: header_frames_def)
qed

lemma data_run:
  assumes "run_frames lib st fs = Some (st', ms)"
    and "Streams st s = Some \<lparr>HeadersReady = True, Ended = False, Headers = hs, Body = b\<rparr>"
    and "\<forall>f \<in> set fs. frame_StreamID f = s \<longrightarrow> f = OtherFrame s \<or> f = DataFrame s (data_of f) False"
  shows "Streams st' s = Some \<lparr>HeadersReady = True, Ended = False, Headers = hs, Body = b @ stream_body s fs\<rparr> \<and>
    (\<forall>m \<in> set ms. hm_StreamID m \<noteq> s)"
  using assms
proof (induction fs arbitrary: st b ms)
  case (Cons f fs)
  obtain st1 m ms1 where step: "frame_step lib st f = Some (st1, m)" "run_frames lib st1 fs = Some (st', ms1)"
    "ms = (case m of None \<Rightarrow> [] | Some x \<Rightarrow> [x]) @ ms1"
    using Cons.prems(1) by (auto split: option.splits)
  have "Streams st1 s = Some \<lparr>HeadersReady = True, Ended = False, Headers = hs,
      Body = b @ (if frame_StreamID f = s then data_of f else [])\<rparr> \<and> (\<forall>x. m = Some x \<longrightarrow> hm_StreamID x \<noteq> s)"
  proof (cases "frame_StreamID f = s")
    case True
    then consider "f = OtherFrame s" | "f = DataFrame s (data_of f) False" using Cons.prems(3) by auto
    then show ?thesis
    proof cases
      case 2
      then have "frame_step lib st (DataFrame s (data_of f) False) = Some (st1, m)" using step(1) by simp
      then show ?thesis using True Cons.prems(2)
        by (auto simp: Let_def ensureStream_def set_stream_def tryCompleteStream_def)
    qed (use step(1) Cons.prems(2) in auto)
  qed (use frame_step_others [OF step(1)] Cons.prems(2) in auto)
  then show ?case
    using Cons.IH [OF step(2)] Cons.prems(3) step(3) by (auto simp: stream_body_def split: option.splits)
qed (simp add: stream_body_def)

text \<open>
  C19: a message is put together from the frames of its own stream.  A header block for a stream, in
  one frame or continued in several, is followed by frames of which those of the stream are data
  (or of a kind the parser ignores) and all others are arbitrary frames of other streams that the
  parser accepts, and then by the last data of the stream.  Then exactly one message of the stream is
  delivered; it has the decoded headers and, in order, all data of the stream; and the state of the
  stream is gone.
\<close>

theorem http2_stream_reassembled:
  assumes "HeaderStreamID st = 0" and "s \<noteq> 0" and "Streams st s = None"
    and "DecodeFull lib (Decoder st) (frag @ concat frags) = (Some hs, dec)"
    and "\<forall>f \<in> set mid. frame_StreamID f = s \<longrightarrow> f = OtherFrame s \<or> f = DataFrame s (data_of f) False"
    and "run_frames lib st (header_frames s frag frags @ mid @ [DataFrame s d True]) = Some (st', ms)"
  shows "filter (\<lambda>m. hm_StreamID m = s) ms =
      [\<lparr>hm_StreamID = s, hm_Headers = hs, hm_Body = stream_body s mid @ d, hm_Canceled = False\<rparr>] \<and>
    Streams st' s = None"
proof -
  obtain st1 where st1: "run_frames lib st (header_frames s frag frags) = Some (st1, [])"
    "Streams st1 s = Some (empty_stream\<lparr>Headers := hs, HeadersReady := True\<rparr>)"
    using header_run [OF assms(1-4)] by blast
  then obtain st2 ms2 where st2: "run_frames lib st1 mid = Some (st2, ms2)"
    "map_option (\<lambda>(st'', ms'). (st'', ms2 @ ms')) (run_frames lib st2 [DataFrame s d True]) = Some (st', ms)"
    using assms(6) by (auto simp: run_frames_append split: option.splits)
  have "Streams st1 s = Some \<lparr>HeadersReady = True, Ended = False, Headers = hs, Body = []\<rparr>"
    using st1(2) by (simp add: empty_stream_def)
  then have "Streams st2 s = Some \<lparr>HeadersReady = True, Ended = False, Headers = hs, Body = stream_body s mid\<rparr>"
    "\<forall>m \<in> set ms2. hm_StreamID m \<noteq> s"
    using data_run [OF st2(1) _ assms(5)] by simp_all
  then show ?thesis
    using st2(2) by (auto simp: Let_def ensureStream_def set_stream_def tryCompleteStream_def)
qed

definition demo_h2_lib :: "(unit, unit) h2_lib" where
  "demo_h2_lib = \<lparr>NewFramer = (), ReadFrame = (\<lambda>_ _. Inl FrameEOF), NewDecoder = (),
     DecodeFull = (\<lambda>d b. (Some [(b, b)], d)), URL_String = (\<lambda>s h p. s @ h @ p)\<rparr>"

definition demo_h2_state :: "unit HTTP2State" where
  "demo_h2_state = ensureHTTP2State demo_h2_lib empty_record"

theorem http2_stream_reassembled_witness:
  "\<exists>st' ms. run_frames demo_h2_lib demo_h2_state
       [HeadersFrame 1 [7] False False, ContinuationFrame 1 [8] True, DataFrame 1 [1] False,
        HeadersFrame 3 [9] True True, DataFrame 5 [6] False, DataFrame 1 [2] True] = Some (st', ms) \<and>
     filter (\<lambda>m. hm_StreamID m = 1) ms =
       [\<lparr>hm_StreamID = 1, hm_Headers = [([7, 8], [7, 8])], hm_Body = [1, 2], hm_Canceled = False\<rparr>]"
proof -
  let ?mid = "[DataFrame 1 [1] False, HeadersFrame 3 [9] True True, DataFrame 5 [6] False]"
  have "\<exists>st' ms. run_frames demo_h2_lib demo_h2_state (header_frames 1 [7] [[8]] @ ?mid @ [DataFrame 1 [2] True]) = Some (st', ms)"
    by (simp add: header_frames_def demo_h2_lib_def demo_h2_state_def ensureHTTP2State_def empty_record_def
        add_fragment_def Let_def end_headers_def ensureStream_def set_stream_def tryCompleteStream_def empty_stream_def)
  then obtain st' ms where run: "run_frames demo_h2_lib demo_h2_state
      (header_frames 1 [7] [[8]] @ ?mid @ [DataFrame 1 [2] True]) = Some (st', ms)" by blast
  have "filter (\<lambda>m. hm_StreamID m = 1) ms =
      [\<lparr>hm_StreamID = 1, hm_Headers = [([7, 8], [7, 8])], hm_Body = stream_body 1 ?mid @ [2], hm_Canceled = False\<rparr>]"
    using http2_stream_reassembled [OF _ _ _ _ _ run, of "[([7, 8], [7, 8])]" "()"]
    by (simp add: demo_h2_state_def ensureHTTP2State_def empty_record_def demo_h2_lib_def)
  then show ?thesis using run by (auto simp: header_frames_def stream_body_def)
qed

end
