(* ===== verification/Tls_Protocol.thy ===== *)
theory Tls_Protocol
  imports Tls_Http1 Tls_Http2
begin

text \<open>
  Which protocol runs inside a TLS connection, \<^verbatim>\<open>detectProtocol\<close> (\<^verbatim>\<open>tls/protocol.go\<close>), and the parser for
  Postgres statements (\<^verbatim>\<open>tls/postgres.go\<close>).  The cache of detected protocols is a map; that an entry
  expires is a step of the environment.
\<close>

section \<open>The Postgres parser\<close>

text \<open>The results are the body (\<open>None\<close> is \<^verbatim>\<open>nil\<close>), the tag, the length and the record.\<close>

definition parsePostgresStatement :: "'d SSLRecord \<Rightarrow> bytes option \<times> u8 \<times> u32 \<times> 'd SSLRecord" where
  "parsePostgresStatement r =
     (if length (Stream r) < 5 then (None, 0, 0, r\<lparr>EndOfStream := False\<rparr>)
      else case Uint32 (take 4 (drop 1 (Stream r))) of
        None \<Rightarrow> (None, 0, 0, r\<lparr>EndOfStream := False\<rparr>)
      | Some len \<Rightarrow>
          if len < 4 \<or> of_nat (length (Stream r) - 1) < len then (None, 0, 0, r\<lparr>EndOfStream := False\<rparr>)
          else (Some (take (unat (len + 1) - 5) (drop 5 (Stream r))), Stream r ! 0, len + 1, r))"

definition PostgresProtoRequest :: bytes where "PostgresProtoRequest = str ''Postgres''"

definition statement_tags :: "u8 list" where
  "statement_tags = map byte_of_char [CHR ''Q'', CHR ''P'', CHR ''B'', CHR ''E'']"

definition Postgres_ParseRequest :: "'d SSLRecord \<Rightarrow> ('d, ParsedRequest) parse_result" where
  "Postgres_ParseRequest r =
     (case parsePostgresStatement r of
        (body, tag, len, r) \<Rightarrow>
          let req = (case body of None \<Rightarrow> None
            | Some b \<Rightarrow> if tag \<in> set statement_tags then
                Some \<lparr>pq_StreamID = 0, pq_Request = Some \<lparr>rq_Method = [tag], rq_URL = None, rq_RequestURI = [],
                  rq_Host = [], rq_Proto = PostgresProtoRequest, rq_ContentLength = uint (len - 5),
                  rq_Header = None, rq_Body = Some b\<rparr>\<rparr>
              else None)
          in (req, uint len, False, r\<lparr>EndOfStream := True\<rparr>))"

definition Postgres_ParseResponse :: "'d SSLRecord \<Rightarrow> ('d, ParsedResponse) parse_result" where
  "Postgres_ParseResponse r =
     (case parsePostgresStatement r of
        (body, tag, len, r) \<Rightarrow> (None, uint len, False, r\<lparr>EndOfStream := True\<rparr>))"

section \<open>Detection\<close>

datatype ProtocolType = ProtocolHTTP1 | ProtocolHTTP2 | ProtocolPostgres | ProtocolUnknown

definition PostgresStartupMessageMaxLength :: u32 where "PostgresStartupMessageMaxLength = 4096"
definition HTTP1ChunkEnd :: bytes where "HTTP1ChunkEnd = [48, 13, 10, 13, 10]"
definition HTTP1ResponsePrefix :: bytes where "HTTP1ResponsePrefix = str ''HTTP/''"

definition HTTP1RequestMethods :: "bytes list" where
  "HTTP1RequestMethods = map str [''GET'', ''POST'', ''PUT'', ''DELETE'', ''HEAD'', ''OPTIONS'', ''PATCH'',
     ''TRACE'', ''CONNECT'']"

definition HTTP2FrameMaxCode :: u8 where "HTTP2FrameMaxCode = 9"
definition HTTP2FlagsMask :: u8 where "HTTP2FlagsMask = 0x1 OR 0x4 OR 0x8 OR 0x20"

text \<open>\<^verbatim>\<open>unicode.IsControl\<close> of a byte as a code point.\<close>

definition IsControl :: "u8 \<Rightarrow> bool" where
  "IsControl b \<longleftrightarrow> unat b \<le> 31 \<or> 127 \<le> unat b \<and> unat b \<le> 159"

primrec isBinary :: "bytes \<Rightarrow> bool" where
  "isBinary [] = False"
| "isBinary (b # data) = (if IsControl b \<and> b \<noteq> 9 \<and> b \<noteq> 10 \<and> b \<noteq> 13 then True else isBinary data)"

definition http_signature :: "bytes \<Rightarrow> ProtocolType option" where
  "http_signature buf =
     (if HasPrefix buf HTTP2Preface then Some ProtocolHTTP2
      else if HasPrefix buf HTTP1ResponsePrefix \<or> HasPrefix buf HTTP1ChunkEnd then Some ProtocolHTTP1
      else if list_ex (HasPrefix buf) HTTP1RequestMethods then Some ProtocolHTTP1 else None)"

text \<open>The test for a Postgres startup message; \<open>Some\<close> gives the announced length.\<close>

definition startup_length :: "bytes \<Rightarrow> u32 option" where
  "startup_length buf =
     (if 8 < length buf then
        (case (Uint32 (take 4 buf), Uint32 (take 4 (drop 4 buf))) of
           (Some len, Some protocolVersion) \<Rightarrow>
             if len \<le> PostgresStartupMessageMaxLength \<and> drop_bit 16 protocolVersion = 3 then Some len else None
         | _ \<Rightarrow> None)
      else None)"

text \<open>The last resort: whether the bytes may start an HTTP/2 frame.\<close>

definition guess_frame :: "bytes \<Rightarrow> ProtocolType" where
  "guess_frame buf =
     (if length buf < HTTP2FrameHeaderLen then ProtocolUnknown
      else
        let len = push_bit 16 (ucast (buf ! 0)) OR push_bit 8 (ucast (buf ! 1)) OR ucast (buf ! 2) :: u32;
            frameType = buf ! 3;
            flags = buf ! 4;
            streamID = the (Uint32 (take 4 (drop 5 buf))) AND 0x7FFFFFFF
        in if of_nat SSLMaxDataSize < len \<or> HTTP2FrameMaxCode < frameType \<or> flags AND NOT HTTP2FlagsMask \<noteq> 0
           then ProtocolUnknown
           else if streamID = 0 \<and> \<not> (frameType = 4 \<or> frameType = 6 \<or> frameType = 7 \<or> frameType = 8)
           then ProtocolUnknown else ProtocolHTTP2)"

text \<open>\<open>None\<close> is a panic.  The results are the protocol, the cache and the record.\<close>

definition detectProtocol ::
  "(SSLKey \<Rightarrow> ProtocolType option) \<Rightarrow> SSLKey \<Rightarrow> 'd SSLRecord \<Rightarrow>
     (ProtocolType \<times> (SSLKey \<Rightarrow> ProtocolType option) \<times> 'd SSLRecord) option" where
  "detectProtocol cache key r =
     (case cache key of
        Some pt \<Rightarrow> Some (pt, cache, r)
      | None \<Rightarrow>
          let buf = Stream r in
          (case http_signature buf of
             Some pt \<Rightarrow> Some (pt, cache(key \<mapsto> pt), r)
           | None \<Rightarrow>
               (case startup_length buf of
                  Some len \<Rightarrow>
                    let n = min len (of_nat (length buf)) in
                    (case go_slice buf 8 (uint n) of
                       None \<Rightarrow> None
                     | Some _ \<Rightarrow> Some (ProtocolPostgres, cache(key \<mapsto> ProtocolPostgres),
                         r\<lparr>Stream := drop (unat n) (Stream r)\<rparr>))
                | None \<Rightarrow>
                    (case parseStream buf of
                       None \<Rightarrow> None
                     | Some res \<Rightarrow>
                         if (case res of Inl _ \<Rightarrow> False | Inr (_, consumed) \<Rightarrow> 0 < consumed) \<or> \<not> isBinary buf
                         then Some (ProtocolHTTP1, cache(key \<mapsto> ProtocolHTTP1), r)
                         else let pt = guess_frame buf in
                           Some (pt, if pt = ProtocolUnknown then cache else cache(key \<mapsto> pt), r)))))"

section \<open>Postgres messages\<close>

definition pg_msg :: "u8 \<Rightarrow> bytes \<Rightarrow> bytes" where
  "pg_msg tag body = tag # PutUint32 (of_nat (length body + 4)) @ body"

lemma length_pg_msg [simp]: "length (pg_msg tag body) = length body + 5"
  by (simp add: pg_msg_def)

lemma unat_u32: "n < 2 ^ 32 \<Longrightarrow> unat (of_nat n :: u32) = n"
  by (simp add: unat_of_nat)

lemma Uint32_of_PutUint32 [simp]: "Uint32 (PutUint32 w) = Some w"
  using Uint32_PutUint32 [of w "[]"] by simp

lemma parsePostgresStatement_msg:
  assumes "Stream r = pg_msg tag body @ rest" and "length (Stream r) < 2 ^ 31"
  shows "parsePostgresStatement r = (Some body, tag, of_nat (length body + 5), r)"
proof -
  let ?len = "of_nat (length body + 4) :: u32"
  have small: "length body + length rest + 5 < 2 ^ 31" using assms by simp
  have "length (Stream r) - 1 = length body + 4 + length rest" using assms(1) by simp
  then have len: "unat ?len = length body + 4" "unat (of_nat (length body + 5) :: u32) = length body + 5"
    "unat (of_nat (length (Stream r) - 1) :: u32) = length body + 4 + length rest"
    using small unat_u32 [of "length body + 4"] unat_u32 [of "length body + 5"]
      unat_u32 [of "length body + 4 + length rest"] by simp_all
  have "?len + 1 = of_nat (length body + 5)" by simp
  moreover have "\<not> ?len < 4" "\<not> of_nat (length (Stream r) - 1) < ?len"
    using len by (simp_all add: word_less_nat_alt)
  moreover have "take 4 (drop 1 (Stream r)) = PutUint32 ?len" "drop 5 (Stream r) = body @ rest" "Stream r ! 0 = tag"
    using assms(1) by (simp_all add: pg_msg_def eval_nat_numeral PutUint32_def)
  ultimately show ?thesis
    using assms(1) len(2) by (simp add: parsePostgresStatement_def add.commute)
qed

text \<open>A length field below its own size.\<close>

lemma parsePostgresStatement_short:
  assumes "Stream r = tag # PutUint32 len @ rest" and "unat len < 4"
  shows "parsePostgresStatement r = (None, 0, 0, r\<lparr>EndOfStream := False\<rparr>)"
proof -
  have "take 4 (drop 1 (Stream r)) = PutUint32 len" using assms(1) by simp
  then show ?thesis using assms by (simp add: parsePostgresStatement_def word_less_nat_alt)
qed

section \<open>When detection fails\<close>

lemma startup_length_Some: "startup_length buf = Some len \<Longrightarrow> 8 < length buf \<and> unat len \<le> 4096"
  by (auto simp: startup_length_def PostgresStartupMessageMaxLength_def word_le_nat_alt
      split: if_splits option.splits)

lemma startup_slice:
  assumes "startup_length buf = Some len" and "length buf < 2 ^ 32"
  shows "go_slice buf 8 (uint (min len (of_nat (length buf)))) = None \<longleftrightarrow> unat len < 8"
proof -
  have b: "8 < length buf" "unat (of_nat (length buf) :: u32) = length buf"
    using startup_length_Some [OF assms(1)] assms(2) unat_u32 by auto
  then have "unat (min len (of_nat (length buf))) = min (unat len) (length buf)"
    by (auto simp: min_def word_le_nat_alt)
  moreover have "uint (min len (of_nat (length buf))) = int (unat (min len (of_nat (length buf))))" by simp
  ultimately have "uint (min len (of_nat (length buf))) = int (min (unat len) (length buf))" by (simp only:)
  then show ?thesis using b(1) by (auto simp: go_slice_None min_def)
qed

text \<open>
  C31: the inputs on which protocol detection crashes the agent.  For a stream of less than \<open>2 ^ 32\<close> bytes
  of a connection whose protocol is not cached, detection panics if and only if the bytes carry no HTTP
  signature and either look like a Postgres startup message that announces fewer than the eight bytes of
  its own head, or do not look like one and start with a chunk length whose sum with its line wraps
  around, to a value that lies within the data.
\<close>

theorem detection_panics:
  assumes "length (Stream r) < 2 ^ 32"
  shows "detectProtocol cache key r = None \<longleftrightarrow> cache key = None \<and> http_signature (Stream r) = None \<and>
    (case startup_length (Stream r) of
       Some len \<Rightarrow> unat len < 8
     | None \<Rightarrow> (\<exists>idx len. Index (Stream r) CRLF = Some idx \<and> ParseUint16 (take idx (Stream r)) = Some len \<and>
         2 ^ 64 \<le> idx + 4 + unat len \<and> idx + 4 + unat len \<le> 2 ^ 64 + length (Stream r)))"
proof -
  have "length (Stream r) < 2 ^ 62" using assms by simp
  note stream = parseStream_None_iff [OF this]
  show ?thesis
  proof (cases "cache key = None \<and> http_signature (Stream r) = None")
    case True
    show ?thesis
    proof (cases "startup_length (Stream r)")
      case None
      then show ?thesis
        unfolding stream [symmetric] using True by (auto simp: detectProtocol_def Let_def split: option.splits)
    next
      case (Some len)
      then show ?thesis
        using True startup_slice [OF Some assms] by (auto simp: detectProtocol_def Let_def split: option.splits)
    qed
  qed (auto simp: detectProtocol_def Let_def split: option.splits)
qed

definition demo_key :: SSLKey where
  "demo_key = \<lparr>PidTgid = 1, UidGid = 2, SSLPtr = 3, CgroupID = 4\<rparr>"

theorem detection_panics_witness:
  "detectProtocol (\<lambda>_. None) demo_key ((empty_record :: unit SSLRecord)\<lparr>Stream := [0, 0, 0, 7, 0, 3, 0, 0, 1]\<rparr>) = None"
proof -
  let ?r = "(empty_record :: unit SSLRecord)\<lparr>Stream := [0, 0, 0, 7, 0, 3, 0, 0, 1]\<rparr>"
  have "http_signature [0, 0, 0, 7, 0, 3, 0, 0, 1] = None" by code_simp
  moreover have "startup_length [0, 0, 0, 7, 0, 3, 0, 0, 1] = Some 7" by code_simp
  ultimately show ?thesis using detection_panics [of ?r "\<lambda>_. None" demo_key] by simp
qed

text \<open>With a length field below four the parser asks for more data, whatever follows.\<close>

lemma short_length_waits:
  assumes "Stream r = tag # PutUint32 len @ rest" and "unat len < 4"
  shows "Postgres_ParseRequest r = (None, 0, False, r\<lparr>EndOfStream := True\<rparr>)"
  using parsePostgresStatement_short [OF assms] by (simp add: Postgres_ParseRequest_def)

end
