(* ===== verification/Tls_Store.thy ===== *)
theory Tls_Store
  imports Tls_Protocol
begin

text \<open>
  The store of the TLS probe, \<^verbatim>\<open>SSLStore\<close> (\<^verbatim>\<open>tls/protocol.go\<close>): the records of every connection and direction,
  the session keys that tie a response to its request, and the loops that parse what has arrived.
  The caches are maps from which the environment may remove entries.  A loop that never returns
  has the value \<open>None\<close>; a panic is the outcome \<open>Panicked\<close>.  The locks make every operation atomic.
\<close>

section \<open>Sessions\<close>

record SessionScope =
  Conn :: SSLKey
  StreamID :: u32

text \<open>The set of scopes of a connection is a list without repetition.\<close>

record session_state =
  sessions :: "SessionScope \<Rightarrow> bytes option"
  sessionScopes :: "SSLKey \<Rightarrow> SessionScope list option"

definition sessionScopeForKey :: "SSLKey \<Rightarrow> u32 \<Rightarrow> SessionScope" where
  "sessionScopeForKey key streamID = \<lparr>Conn = key, StreamID = streamID\<rparr>"

definition addSessionScope :: "session_state \<Rightarrow> SessionScope \<Rightarrow> session_state" where
  "addSessionScope s scope = (let scopes = (case sessionScopes s (Conn scope) of None \<Rightarrow> [] | Some l \<Rightarrow> l) in
     s\<lparr>sessionScopes := (sessionScopes s)(Conn scope \<mapsto> List.insert scope scopes)\<rparr>)"

definition removeSessionScope :: "session_state \<Rightarrow> SessionScope \<Rightarrow> session_state" where
  "removeSessionScope s scope = (case sessionScopes s (Conn scope) of None \<Rightarrow> s
     | Some scopes \<Rightarrow> let scopes = removeAll scope scopes in
         s\<lparr>sessionScopes := (sessionScopes s)(Conn scope := if scopes = [] then None else Some scopes)\<rparr>)"

text \<open>\<open>fresh\<close> is the key \<^verbatim>\<open>generateSessionKey\<close> returns.\<close>

definition ensureSessionKey :: "bytes \<Rightarrow> session_state \<Rightarrow> SessionScope \<Rightarrow> bytes \<times> session_state" where
  "ensureSessionKey fresh s scope = (case sessions s scope of Some k \<Rightarrow> (k, s)
     | None \<Rightarrow> (fresh, addSessionScope (s\<lparr>sessions := (sessions s)(scope \<mapsto> fresh)\<rparr>) scope))"

definition deleteSessionKey :: "session_state \<Rightarrow> SessionScope \<Rightarrow> session_state" where
  "deleteSessionKey s scope = removeSessionScope (s\<lparr>sessions := (sessions s)(scope := None)\<rparr>) scope"

definition sessionScopesForConn :: "session_state \<Rightarrow> SSLKey \<Rightarrow> SessionScope list \<times> session_state" where
  "sessionScopesForConn s key = (case sessionScopes s key of None \<Rightarrow> ([], s)
     | Some scopes \<Rightarrow> let scopes = filter (\<lambda>scope. sessions s scope \<noteq> None) scopes in
         (scopes, s\<lparr>sessionScopes := (sessionScopes s)(key := if scopes = [] then None else Some scopes)\<rparr>))"

definition deleteConnectionSessions :: "session_state \<Rightarrow> SSLKey \<Rightarrow> session_state" where
  "deleteConnectionSessions s key = (case sessionScopesForConn s key of (scopes, s) \<Rightarrow> foldl deleteSessionKey s scopes)"

section \<open>The store\<close>

record 'd SSLStore =
  st_Request :: "SSLKey \<Rightarrow> 'd SSLRecord option"
  st_Response :: "SSLKey \<Rightarrow> 'd SSLRecord option"
  st_sess :: session_state
  st_protocolCache :: "SSLKey \<Rightarrow> ProtocolType option"
  st_nextCleanup :: int

definition recordTTL :: int where "recordTTL = 10 * 60 * 10 ^ 9"
definition cleanupInterval :: int where "cleanupInterval = 60 * 10 ^ 9"

definition event_key :: "ssl_event \<Rightarrow> SSLKey" where
  "event_key e = \<lparr>PidTgid = le_pid_tgid e, UidGid = le_uid_gid e, SSLPtr = le_ssl_ptr e, CgroupID = le_cgroup_id e\<rparr>"

definition event_info :: "ssl_event \<Rightarrow> EventInfo" where
  "event_info e = \<lparr>TimestampNs = le_timestamp_ns e, DataLen = le_data_len e, Comm = le_comm e\<rparr>"

definition record_at :: "('k \<Rightarrow> 'd SSLRecord option) \<Rightarrow> 'k \<Rightarrow> 'd SSLRecord" where
  "record_at m key = (case m key of None \<Rightarrow> empty_record | Some r \<Rightarrow> r)"

text \<open>\<open>None\<close> is a panic of the slice expression.\<close>

definition Add :: "int \<Rightarrow> 'd SSLStore \<Rightarrow> ssl_event \<Rightarrow> 'd SSLStore option" where
  "Add now s event =
     (let key = event_key event; info = event_info event in
      if le_rw event = SSLRwWrite then
        (case go_slice (le_data event) 0 (int (unat (le_data_len event))) of
           None \<Rightarrow> None
         | Some data \<Rightarrow>
             Some (s\<lparr>st_Request := (st_Request s)(key \<mapsto> Append now (record_at (st_Request s) key) data info)\<rparr>))
      else if le_rw event = SSLRwRead then
        (case go_slice (le_data event) 0 (int (unat (le_data_len event))) of
           None \<Rightarrow> None
         | Some data \<Rightarrow>
             Some (s\<lparr>st_Response := (st_Response s)(key \<mapsto> Append now (record_at (st_Response s) key) data info)\<rparr>))
      else Some s)"

text \<open>
  The reader loop \<^verbatim>\<open>handle\<close> (\<^verbatim>\<open>tls/probe.go\<close>) over the events that were read from a ring and decoded, each
  with the time at which it is added.
\<close>

fun handle :: "(int \<times> ssl_event) list \<Rightarrow> 'd SSLStore \<Rightarrow> 'd SSLStore option" where
  "handle [] s = Some s"
| "handle ((now, event) # events) s = (case Add now s event of None \<Rightarrow> None | Some s \<Rightarrow> handle events s)"

definition shouldCleanup :: "int \<Rightarrow> 'd SSLStore \<Rightarrow> bool \<times> 'd SSLStore" where
  "shouldCleanup now s = (if now < st_nextCleanup s then (False, s)
     else (True, s\<lparr>st_nextCleanup := now + cleanupInterval\<rparr>))"

definition stale :: "int \<Rightarrow> 'd SSLRecord option \<Rightarrow> bool" where
  "stale cutoff r \<longleftrightarrow> (case r of None \<Rightarrow> False | Some r \<Rightarrow> LastTouched r < cutoff)"

definition cleanupStaleRequestRecords :: "int \<Rightarrow> 'd SSLStore \<Rightarrow> 'd SSLStore" where
  "cleanupStaleRequestRecords cutoff s =
     s\<lparr>st_Request := (\<lambda>key. if stale cutoff (st_Request s key) then None else st_Request s key)\<rparr>"

text \<open>\<open>order\<close> is the order in which the iteration visits the keys.\<close>

primrec cleanupStaleResponseRecords :: "int \<Rightarrow> SSLKey list \<Rightarrow> 'd SSLStore \<Rightarrow> 'd SSLStore" where
  "cleanupStaleResponseRecords cutoff [] s = s"
| "cleanupStaleResponseRecords cutoff (key # order) s = cleanupStaleResponseRecords cutoff order
     (if stale cutoff (st_Response s key)
      then s\<lparr>st_Response := (st_Response s)(key := None), st_sess := deleteConnectionSessions (st_sess s) key\<rparr>
      else s)"

section \<open>Parsing\<close>

record ('f, 'd) tls_lib =
  lib_http :: http_lib
  lib_h2 :: "('f, 'd) h2_lib"
  lib_codecs :: codecs
  lib_mac :: "bytes \<Rightarrow> bytes"

datatype 'a outcome = Panicked | Returned 'a

text \<open>The choice of the parser; a connection of unknown protocol is not parsed.\<close>

definition ParseRequest :: "('f, 'd) tls_lib \<Rightarrow> ProtocolType \<Rightarrow> 'd SSLRecord \<Rightarrow> ('d, ParsedRequest) parse_result" where
  "ParseRequest lib pt r = (case pt of
     ProtocolHTTP2 \<Rightarrow> HTTP2_ParseRequest (lib_h2 lib) r
   | ProtocolHTTP1 \<Rightarrow> HTTP1_ParseRequest (lib_http lib) r
   | ProtocolPostgres \<Rightarrow> Postgres_ParseRequest r
   | ProtocolUnknown \<Rightarrow> (None, 0, False, r))"

definition ParseResponse :: "('f, 'd) tls_lib \<Rightarrow> ProtocolType \<Rightarrow> 'd SSLRecord \<Rightarrow> ('d, ParsedResponse) parse_result option" where
  "ParseResponse lib pt r = (case pt of
     ProtocolHTTP2 \<Rightarrow> Some (HTTP2_ParseResponse (lib_h2 lib) r)
   | ProtocolHTTP1 \<Rightarrow> HTTP1_ParseResponse (lib_http lib) r
   | ProtocolPostgres \<Rightarrow> Some (Postgres_ParseResponse r)
   | ProtocolUnknown \<Rightarrow> Some (None, 0, False, r))"

definition read_body :: "('f, 'd) tls_lib \<Rightarrow> reader \<Rightarrow> Header option \<Rightarrow> bytes option" where
  "read_body lib body h = fst (readDecodeBytes (lib_codecs lib) body (Header_Get h (str ''Content-Encoding'')))"

text \<open>
  The inner loop of \<^verbatim>\<open>parseRequest\<close> on one record.  \<open>present\<close> is whether the record is still in the map of the
  store.  The loop ends after the first message that is complete: the last component of the result
  is its time stamp, command name, stream, request, decoded body and length.  The slice in the log
  message of the error path cannot panic, since no parser returns a negative count with an error.
\<close>

type_synonym sent_request = "u64 \<times> bytes \<times> u32 \<times> http_Request \<times> bytes \<times> int"

partial_function (option) request_loop ::
  "('f, 'd) tls_lib \<Rightarrow> ProtocolType \<Rightarrow> 'd SSLRecord \<Rightarrow> bool \<Rightarrow> ('d SSLRecord \<times> bool \<times> sent_request option) option" where
  "request_loop lib pt r present =
     (if Stream r = [] then Some (r, present, None)
      else case ParseRequest lib pt r of (parsed, consumed, err, r1) \<Rightarrow>
        if err then Some (r1, False, None)
        else if consumed = 0 then Some (r1, present, None)
        else case consumeRecord r1 consumed of ((timestamp, comm, consumedAll), r2) \<Rightarrow>
          let present = (present \<and> \<not> (consumedAll \<and> EndOfStream r2 \<and> pt \<noteq> ProtocolHTTP2)) in
          (case Option.bind parsed (\<lambda>p. map_option (Pair (pq_StreamID p)) (pq_Request p)) of
             None \<Rightarrow> request_loop lib pt (r2\<lparr>EndOfStream := False\<rparr>) present
           | Some (streamID, request) \<Rightarrow>
               if \<not> EndOfStream r2 then request_loop lib pt r2 present
               else (case read_body lib (rq_Body request) (rq_Header request) of
                       None \<Rightarrow> request_loop lib pt (r2\<lparr>EndOfStream := False\<rparr>) present
                     | Some body \<Rightarrow> Some (r2\<lparr>EndOfStream := False, LastResp := None\<rparr>, present,
                         Some (timestamp, comm, streamID, request, body, consumed)))))"

type_synonym sent_response = "u64 \<times> bytes \<times> u32 \<times> http_Response \<times> bytes"

partial_function (option) response_loop ::
  "('f, 'd) tls_lib \<Rightarrow> ProtocolType \<Rightarrow> SSLKey \<Rightarrow> 'd SSLRecord \<Rightarrow> bool \<Rightarrow> session_state \<Rightarrow>
     ('d SSLRecord \<times> bool \<times> session_state \<times> sent_response option) outcome option" where
  "response_loop lib pt key r present sess =
     (if Stream r = [] then Some (Returned (r, present, sess, None))
      else case ParseResponse lib pt r of
        None \<Rightarrow> Some Panicked
      | Some (parsed, consumed, err, r1) \<Rightarrow>
          if err then Some (Returned (r1, False, deleteConnectionSessions sess key, None))
          else if consumed = 0 then Some (Returned (r1, present, sess, None))
          else case consumeRecord r1 consumed of ((timestamp, comm, consumedAll), r2) \<Rightarrow>
            let present = (present \<and> \<not> (consumedAll \<and> EndOfStream r2 \<and> pt \<noteq> ProtocolHTTP2)) in
            (case parsed of
               None \<Rightarrow> response_loop lib pt key (r2\<lparr>EndOfStream := False\<rparr>) present sess
             | Some p \<Rightarrow>
                 let scope = sessionScopeForKey key (ps_StreamID p) in
                 if ps_DiscardStream p
                 then response_loop lib pt key (r2\<lparr>EndOfStream := False\<rparr>) present (deleteSessionKey sess scope)
                 else (case ps_Response p of
                    None \<Rightarrow> response_loop lib pt key (r2\<lparr>EndOfStream := False\<rparr>) present sess
                  | Some response \<Rightarrow>
                      if \<not> EndOfStream r2 then response_loop lib pt key r2 present sess
                      else (case read_body lib (rs_Body response) (rs_Header response) of
                         None \<Rightarrow> response_loop lib pt key (r2\<lparr>EndOfStream := False\<rparr>) present (deleteSessionKey sess scope)
                       | Some body \<Rightarrow> Some (Returned (r2\<lparr>EndOfStream := False, LastResp := None\<rparr>, present, sess,
                           Some (timestamp, comm, ps_StreamID p, response, body)))))))"

section \<open>What is sent\<close>

record RawRequest =
  rr_ElapsedNs :: u64
  rr_SessionKey :: bytes
  rr_PidTGid :: u64
  rr_UidGid :: u64
  rr_CgroupID :: u64
  rr_Comm :: bytes
  rr_Method :: bytes
  rr_URL :: bytes
  rr_ContentLength :: int
  rr_Protocol :: bytes
  rr_Headers :: "bytes \<Rightarrow> bytes option"
  rr_Body :: bytes
  rr_Truncated :: bool

record RawPostgres =
  rp_ElapsedNs :: u64
  rp_PidTGid :: u64
  rp_UidGid :: u64
  rp_CgroupID :: u64
  rp_Comm :: bytes
  rp_Data :: bytes
  rp_MsgType :: bytes

record RawResponse =
  ro_ElapsedNs :: u64
  ro_SessionKey :: bytes
  ro_PidTGid :: u64
  ro_UidGid :: u64
  ro_CgroupID :: u64
  ro_Comm :: bytes
  ro_StatusCode :: int
  ro_ContentLength :: int
  ro_Protocol :: bytes
  ro_Headers :: "bytes \<Rightarrow> bytes option"
  ro_Body :: bytes
  ro_Truncated :: bool

definition ExportChannelSize :: nat where "ExportChannelSize = 4096"

text \<open>The state of the request side: the store and the two channels it sends to.\<close>

type_synonym 'd request_side = "'d SSLStore \<times> RawRequest list \<times> RawPostgres list"

definition send_request ::
  "('f, 'd) tls_lib \<Rightarrow> bytes \<Rightarrow> SSLKey \<Rightarrow> sent_request \<Rightarrow> 'd request_side \<Rightarrow> 'd request_side" where
  "send_request lib fresh key = (\<lambda>(timestamp, comm, streamID, request, body, consumed) (s, reqChan, postgresChan).
     let truncated = (int SSLMaxDataSize \<le> consumed);
         url = (case rq_URL request of None \<Rightarrow> rq_RequestURI request | Some u \<Rightarrow> u);
         header = (case rq_Header request of None \<Rightarrow> None
           | Some h \<Rightarrow> Some (if rq_Host request = [] then h else Header_Add h (str ''Host'') (rq_Host request)));
         headers = flattenMaskedHeader (lib_mac lib) header
     in if rq_Proto request = PostgresProtoRequest then
          (s, reqChan, try_send ExportChannelSize postgresChan \<lparr>rp_ElapsedNs = timestamp, rp_PidTGid = PidTgid key,
             rp_UidGid = UidGid key, rp_CgroupID = CgroupID key, rp_Comm = comm, rp_Data = body,
             rp_MsgType = rq_Method request\<rparr>)
        else (case ensureSessionKey fresh (st_sess s) (sessionScopeForKey key streamID) of (sessionKey, sess) \<Rightarrow>
          (s\<lparr>st_sess := sess\<rparr>, try_send ExportChannelSize reqChan \<lparr>rr_ElapsedNs = timestamp,
             rr_SessionKey = sessionKey, rr_PidTGid = PidTgid key, rr_UidGid = UidGid key,
             rr_CgroupID = CgroupID key, rr_Comm = comm, rr_Method = rq_Method request, rr_URL = url,
             rr_ContentLength = rq_ContentLength request, rr_Protocol = rq_Proto request, rr_Headers = headers,
             rr_Body = body, rr_Truncated = truncated\<rparr>, postgresChan)))"

text \<open>One turn of the outer loop of \<^verbatim>\<open>parseRequest\<close>; a key that is not in the map is not visited.\<close>

definition request_key ::
  "('f, 'd) tls_lib \<Rightarrow> bytes \<Rightarrow> SSLKey \<Rightarrow> 'd request_side \<Rightarrow> 'd request_side outcome option" where
  "request_key lib fresh key = (\<lambda>(s, reqChan, postgresChan).
     case st_Request s key of
       None \<Rightarrow> Some (Returned (s, reqChan, postgresChan))
     | Some r \<Rightarrow>
         (case detectProtocol (st_protocolCache s) key r of
            None \<Rightarrow> Some Panicked
          | Some (pt, cache, r) \<Rightarrow>
              let s = s\<lparr>st_protocolCache := cache\<rparr> in
              if pt = ProtocolUnknown then
                Some (Returned (s\<lparr>st_Request := (st_Request s)(key := None)\<rparr>, reqChan, postgresChan))
              else (case request_loop lib pt r True of
                None \<Rightarrow> None
              | Some (r, present, sent) \<Rightarrow>
                  let s = s\<lparr>st_Request := (st_Request s)(key := if present then Some r else None)\<rparr> in
                  Some (Returned (case sent of None \<Rightarrow> (s, reqChan, postgresChan)
                    | Some m \<Rightarrow> send_request lib fresh key m (s, reqChan, postgresChan))))))"

fun visit_keys :: "(SSLKey \<Rightarrow> 'a \<Rightarrow> 'a outcome option) \<Rightarrow> SSLKey list \<Rightarrow> 'a \<Rightarrow> 'a outcome option" where
  "visit_keys f [] a = Some (Returned a)"
| "visit_keys f (key # order) a =
     (case f key a of None \<Rightarrow> None | Some Panicked \<Rightarrow> Some Panicked | Some (Returned a) \<Rightarrow> visit_keys f order a)"

text \<open>
  \<open>order\<close> is the order in which the iteration visits the keys, and \<open>fresh\<close> gives the session key that would
  be generated for each.
\<close>

definition parseRequest ::
  "('f, 'd) tls_lib \<Rightarrow> int \<Rightarrow> (SSLKey \<Rightarrow> bytes) \<Rightarrow> SSLKey list \<Rightarrow> 'd request_side \<Rightarrow> 'd request_side outcome option" where
  "parseRequest lib now fresh order = (\<lambda>(s, reqChan, postgresChan).
     case shouldCleanup now s of (cleanup, s) \<Rightarrow>
       let s = (if cleanup then cleanupStaleRequestRecords (now - recordTTL) s else s)
       in visit_keys (\<lambda>key. request_key lib (fresh key) key) order (s, reqChan, postgresChan))"

definition response_key ::
  "('f, 'd) tls_lib \<Rightarrow> bytes \<Rightarrow> SSLKey \<Rightarrow> 'd SSLStore \<times> RawResponse list \<Rightarrow>
     ('d SSLStore \<times> RawResponse list) outcome option" where
  "response_key lib fresh key = (\<lambda>(s, channel).
     case st_Response s key of
       None \<Rightarrow> Some (Returned (s, channel))
     | Some r \<Rightarrow>
         (case detectProtocol (st_protocolCache s) key r of
            None \<Rightarrow> Some Panicked
          | Some (pt, cache, r) \<Rightarrow>
              let s = s\<lparr>st_protocolCache := cache\<rparr> in
              if pt = ProtocolUnknown then
                Some (Returned (s\<lparr>st_Response := (st_Response s)(key := None),
                  st_sess := deleteConnectionSessions (st_sess s) key\<rparr>, channel))
              else (case response_loop lib pt key r True (st_sess s) of
                None \<Rightarrow> None
              | Some Panicked \<Rightarrow> Some Panicked
              | Some (Returned (r, present, sess, sent)) \<Rightarrow>
                  let s = s\<lparr>st_Response := (st_Response s)(key := if present then Some r else None)\<rparr> in
                  (case sent of
                     None \<Rightarrow> Some (Returned (s\<lparr>st_sess := sess\<rparr>, channel))
                   | Some (timestamp, comm, streamID, response, body) \<Rightarrow>
                       let scope = sessionScopeForKey key streamID;
                           headers = flattenMaskedHeader (lib_mac lib) (rs_Header response) in
                       (case ensureSessionKey fresh sess scope of (sessionKey, sess) \<Rightarrow>
                          Some (Returned (s\<lparr>st_sess := deleteSessionKey sess scope\<rparr>,
                            try_send ExportChannelSize channel \<lparr>ro_ElapsedNs = timestamp, ro_SessionKey = sessionKey,
                              ro_PidTGid = PidTgid key, ro_UidGid = UidGid key, ro_CgroupID = CgroupID key,
                              ro_Comm = comm, ro_StatusCode = rs_StatusCode response,
                              ro_ContentLength = rs_ContentLength response, ro_Protocol = rs_Proto response,
                              ro_Headers = headers, ro_Body = body, ro_Truncated = False\<rparr>)))))))"

definition parseResponse ::
  "('f, 'd) tls_lib \<Rightarrow> int \<Rightarrow> (SSLKey \<Rightarrow> bytes) \<Rightarrow> SSLKey list \<Rightarrow> 'd SSLStore \<times> RawResponse list \<Rightarrow>
     ('d SSLStore \<times> RawResponse list) outcome option" where
  "parseResponse lib now fresh order = (\<lambda>(s, channel).
     case shouldCleanup now s of (cleanup, s) \<Rightarrow>
       let s = (if cleanup then cleanupStaleResponseRecords (now - recordTTL) order s else s)
       in visit_keys (\<lambda>key. response_key lib (fresh key) key) order (s, channel))"

text \<open>
  One tick of the loop \<^verbatim>\<open>Parse\<close>: the request side, then the response side, each at its own time and with
  its own order of the keys.
\<close>

definition Parse_tick ::
  "('f, 'd) tls_lib \<Rightarrow> int \<times> (SSLKey \<Rightarrow> bytes) \<times> SSLKey list \<Rightarrow> int \<times> (SSLKey \<Rightarrow> bytes) \<times> SSLKey list \<Rightarrow>
     'd SSLStore \<times> RawRequest list \<times> RawPostgres list \<times> RawResponse list \<Rightarrow>
     ('d SSLStore \<times> RawRequest list \<times> RawPostgres list \<times> RawResponse list) outcome option" where
  "Parse_tick lib = (\<lambda>(now, fresh, order) (now', fresh', order') (s, reqChan, postgresChan, respChan).
     case parseRequest lib now fresh order (s, reqChan, postgresChan) of
       None \<Rightarrow> None
     | Some Panicked \<Rightarrow> Some Panicked
     | Some (Returned (s, reqChan, postgresChan)) \<Rightarrow>
         (case parseResponse lib now' fresh' order' (s, respChan) of
            None \<Rightarrow> None
          | Some Panicked \<Rightarrow> Some Panicked
          | Some (Returned (s, respChan)) \<Rightarrow> Some (Returned (s, reqChan, postgresChan, respChan))))"

end
