(* ===== verification/Tls_Store_Properties.thy ===== *)
theory Tls_Store_Properties
  imports Tls_Store Openssl
begin

text \<open>
  The TLS store: plaintext shipped by the kernel programs is reassembled, sessions are kept per
  connection, the parsing loops end and deliver the messages, and the inputs on which they do not.
\<close>

section \<open>Sessions\<close>

text \<open>
  Every live session is listed under its connection, and the lists hold scopes of their own connection
  only, each once.
\<close>

definition scopes_of :: "session_state \<Rightarrow> SSLKey \<Rightarrow> SessionScope list" where
  "scopes_of s k = (case sessionScopes s k of None \<Rightarrow> [] | Some l \<Rightarrow> l)"

definition session_inv :: "session_state \<Rightarrow> bool" where
  "session_inv s \<longleftrightarrow> (\<forall>sc. sessions s sc \<noteq> None \<longrightarrow> sc \<in> set (scopes_of s (Conn sc))) \<and>
     (\<forall>k. sessionScopes s k \<noteq> Some []) \<and>
     (\<forall>k. distinct (scopes_of s k) \<and> (\<forall>sc \<in> set (scopes_of s k). Conn sc = k))"

lemma sessionScopes_eq: "(\<And>k. sessionScopes s k \<noteq> Some []) \<Longrightarrow>
    sessionScopes s k = (if scopes_of s k = [] then None else Some (scopes_of s k))"
  by (auto simp: scopes_of_def split: option.splits)

lemma addSessionScope_simps [simp]:
  "sessions (addSessionScope s sc) = sessions s"
  "scopes_of (addSessionScope s sc) k = (if k = Conn sc then List.insert sc (scopes_of s k) else scopes_of s k)"
  "sessionScopes s k \<noteq> Some [] \<Longrightarrow> sessionScopes (addSessionScope s sc) k \<noteq> Some []"
  by (auto simp: addSessionScope_def Let_def scopes_of_def List.insert_def split: option.splits)

lemma removeSessionScope_simps [simp]:
  "sessions (removeSessionScope s sc) = sessions s"
  "scopes_of (removeSessionScope s sc) k = (if k = Conn sc then removeAll sc (scopes_of s k) else scopes_of s k)"
  "sessionScopes s k \<noteq> Some [] \<Longrightarrow> sessionScopes (removeSessionScope s sc) k \<noteq> Some []"
  by (auto simp: removeSessionScope_def Let_def scopes_of_def split: option.splits)

lemma scopes_of_sessions [simp]: "scopes_of (s\<lparr>sessions := m\<rparr>) k = scopes_of s k"
  by (simp add: scopes_of_def)

lemma session_invI:
  assumes "\<And>sc. sessions s sc \<noteq> None \<Longrightarrow> sc \<in> set (scopes_of s (Conn sc))"
    and "\<And>k. sessionScopes s k \<noteq> Some []"
    and "\<And>k. distinct (scopes_of s k)" and "\<And>k sc. sc \<in> set (scopes_of s k) \<Longrightarrow> Conn sc = k"
  shows "session_inv s"
  using assms by (simp add: session_inv_def)

lemma session_invD:
  assumes "session_inv s"
  shows "sessions s sc \<noteq> None \<Longrightarrow> sc \<in> set (scopes_of s (Conn sc))"
    and "sessionScopes s k \<noteq> Some []"
    and "distinct (scopes_of s k)" and "sc \<in> set (scopes_of s k) \<Longrightarrow> Conn sc = k"
  using assms by (simp_all add: session_inv_def)

lemma session_inv_ensure:
  assumes "session_inv s"
  shows "session_inv (snd (ensureSessionKey fresh s sc))"
proof (cases "sessions s sc")
  case None
  let ?s = "addSessionScope (s\<lparr>sessions := (sessions s)(sc \<mapsto> fresh)\<rparr>) sc"
  have "session_inv ?s"
  proof (rule session_invI)
    show "sc' \<in> set (scopes_of ?s (Conn sc'))" if "sessions ?s sc' \<noteq> None" for sc'
      using that session_invD(1) [OF assms, of sc'] by (cases "sc' = sc"; cases "Conn sc' = Conn sc") simp_all
    show "sessionScopes ?s k \<noteq> Some []" for k
      using session_invD(2) [OF assms, of k] by simp
    show "distinct (scopes_of ?s k)" for k
      using session_invD(3) [OF assms, of k] by (cases "k = Conn sc") simp_all
    show "Conn sc' = k" if "sc' \<in> set (scopes_of ?s k)" for k sc'
      using that session_invD(4) [OF assms, of sc' k] by (auto split: if_splits)
  qed
  then show ?thesis using None by (simp add: ensureSessionKey_def)
qed (use assms in \<open>simp add: ensureSessionKey_def\<close>)

lemma session_inv_delete:
  assumes "session_inv s"
  shows "session_inv (deleteSessionKey s sc)"
proof (rule session_invI)
  let ?s = "deleteSessionKey s sc"
  show "sc' \<in> set (scopes_of ?s (Conn sc'))" if "sessions ?s sc' \<noteq> None" for sc'
    using that session_invD(1) [OF assms, of sc'] by (cases "sc' = sc"; cases "Conn sc' = Conn sc") (simp_all add: deleteSessionKey_def)
  show "sessionScopes ?s k \<noteq> Some []" for k
    using session_invD(2) [OF assms, of k] by (simp add: deleteSessionKey_def)
  show "distinct (scopes_of ?s k)" for k
    using session_invD(3) [OF assms, of k]
    by (cases "k = Conn sc") (simp_all add: deleteSessionKey_def distinct_removeAll)
  show "Conn sc' = k" if "sc' \<in> set (scopes_of ?s k)" for k sc'
    using that session_invD(4) [OF assms, of sc' k] by (auto simp: deleteSessionKey_def split: if_splits)
qed

lemma session_inv_expire:
  assumes "session_inv s" and "\<forall>sc. m sc = None \<or> m sc = sessions s sc"
  shows "session_inv (s\<lparr>sessions := m\<rparr>)"
proof -
  have "sessions s sc \<noteq> None" if "m sc \<noteq> None" for sc using assms(2) that by metis
  then show ?thesis using assms(1) unfolding session_inv_def by simp
qed

lemma deleteSessionKey_simps:
  "sessions (deleteSessionKey s sc) sc' = (if sc' = sc then None else sessions s sc')"
  "scopes_of (deleteSessionKey s sc) k = (if k = Conn sc then removeAll sc (scopes_of s k) else scopes_of s k)"
  by (simp_all add: deleteSessionKey_def)

lemma delete_all:
  assumes "\<forall>sc \<in> set l. Conn sc = key"
  shows "sessions (foldl deleteSessionKey s l) sc = (if sc \<in> set l then None else sessions s sc)"
    and "scopes_of (foldl deleteSessionKey s l) k =
      (if k = key then filter (\<lambda>sc. sc \<notin> set l) (scopes_of s k) else scopes_of s k)"
    and "\<forall>k. sessionScopes s k \<noteq> Some [] \<Longrightarrow> sessionScopes (foldl deleteSessionKey s l) k \<noteq> Some []"
  using assms
proof (induction l arbitrary: s)
  case (Cons x l)
  { case 1 then show ?case using Cons.IH(1) by (auto simp: deleteSessionKey_simps) }
  { case 2 then show ?case using Cons.IH(2) [of "deleteSessionKey s x"]
      by (auto simp: deleteSessionKey_simps removeAll_filter_not_eq intro: filter_cong) }
  { case 3 then show ?case using Cons.IH(3) [of "deleteSessionKey s x"] by (auto simp: deleteSessionKey_def) }
qed auto

text \<open>
  C22: closing a connection ends all of its sessions and no other.  From a state in which every live
  session is listed, the sessions of the connection are gone afterwards, its list too, every other
  session and list is unchanged, and every live session is listed again.
\<close>

theorem connection_sessions_deleted:
  assumes "session_inv s"
  shows "session_inv (deleteConnectionSessions s key) \<and>
    (\<forall>sc. sessions (deleteConnectionSessions s key) sc = (if Conn sc = key then None else sessions s sc)) \<and>
    sessionScopes (deleteConnectionSessions s key) = (sessionScopes s)(key := None)"
proof -
  let ?live = "filter (\<lambda>sc. sessions s sc \<noteq> None) (scopes_of s key)"
  define s1 where "s1 = snd (sessionScopesForConn s key)"
  have s1: "deleteConnectionSessions s key = foldl deleteSessionKey s1 ?live" "sessions s1 = sessions s"
    "scopes_of s1 k = (if k = key then ?live else scopes_of s k)" "sessionScopes s1 k \<noteq> Some []" for k
    using assms by (auto simp: s1_def deleteConnectionSessions_def sessionScopesForConn_def scopes_of_def
        session_inv_def Let_def split: option.splits)
  have conn: "\<forall>sc \<in> set ?live. Conn sc = key" using assms by (auto simp: session_inv_def)
  note del = delete_all [OF conn, of s1]
  have ses: "sessions (deleteConnectionSessions s key) sc = (if Conn sc = key then None else sessions s sc)" for sc
    using del(1) [of sc] s1(1,2) assms conn by (auto simp: session_inv_def)
  have "sessionScopes (deleteConnectionSessions s key) k = ((sessionScopes s)(key := None)) k" for k
  proof -
    have ne: "sessionScopes (deleteConnectionSessions s key) k \<noteq> Some []" "sessionScopes s k \<noteq> Some []" for k
      using del(3) s1 assms by (auto simp: session_inv_def)
    have "scopes_of (deleteConnectionSessions s key) k = (if k = key then [] else scopes_of s k)"
      using del(2) [of k] s1(1,3) by (auto simp: filter_empty_conv)
    then show ?thesis using sessionScopes_eq [OF ne(1), of k] sessionScopes_eq [OF ne(2), of k] by simp
  qed
  then have "sessionScopes (deleteConnectionSessions s key) = (sessionScopes s)(key := None)" by (rule ext)
  moreover from this have "scopes_of (deleteConnectionSessions s key) k = (if k = key then [] else scopes_of s k)" for k
    by (simp add: scopes_of_def)
  ultimately show ?thesis using ses assms by (simp add: session_inv_def)
qed

definition demo_sessions :: session_state where
  "demo_sessions = \<lparr>sessions = [\<lparr>Conn = demo_key, StreamID = 1\<rparr> \<mapsto> [65]],
     sessionScopes = [demo_key \<mapsto> [\<lparr>Conn = demo_key, StreamID = 1\<rparr>]]\<rparr>"

theorem connection_sessions_deleted_witness:
  "session_inv demo_sessions \<and> sessions (deleteConnectionSessions demo_sessions demo_key) \<lparr>Conn = demo_key, StreamID = 1\<rparr> = None"
proof -
  have "session_inv demo_sessions"
    by (auto simp: session_inv_def demo_sessions_def scopes_of_def split: if_splits)
  then show ?thesis using connection_sessions_deleted [of demo_sessions demo_key] by simp
qed

section \<open>From the kernel to the store\<close>

text \<open>The two halves of the store; the request half holds what was written.\<close>

primrec side :: "bool \<Rightarrow> 'd SSLStore \<Rightarrow> SSLKey \<Rightarrow> 'd SSLRecord option" where
  "side True s = st_Request s"
| "side False s = st_Response s"

lemma go_slice_payload:
  "ssl_event_ok e \<Longrightarrow> go_slice (le_data e) 0 (int (unat (le_data_len e))) = Some (ssl_payload e)"
  using go_slice_head [of "unat (le_data_len e)" "le_data e"] by (simp add: ssl_event_ok_def ssl_payload_def)

lemma Add_event:
  assumes "ssl_event_ok e" and "w = (le_rw e = SSLRwWrite)"
  shows "\<exists>s'. Add now s e = Some s' \<and>
    side w s' = (side w s)(event_key e \<mapsto>
      Append now (record_at (side w s) (event_key e)) (ssl_payload e) (event_info e)) \<and>
    side (\<not> w) s' = side (\<not> w) s"
proof -
  have "le_rw e = SSLRwWrite \<or> le_rw e = SSLRwRead \<and> SSLRwRead \<noteq> SSLRwWrite"
    using assms by (auto simp: ssl_event_ok_def SSLRwWrite_def SSLRwRead_def)
  then show ?thesis unfolding Add_def Let_def go_slice_payload [OF assms(1)] assms(2) by auto
qed

lemma event_info_ok: "ssl_event_ok e \<Longrightarrow> info_ok (event_info e) \<and> dlen (event_info e) = length (ssl_payload e)"
  by (auto simp: ssl_event_ok_def info_ok_def dlen_def event_info_def ssl_payload_def SSL_MAX_BODY_SIZE_def)

lemma record_at_update [simp]:
  "record_at (m(k \<mapsto> r)) k = r" "k' \<noteq> k \<Longrightarrow> record_at (m(k \<mapsto> r)) k' = record_at m k'"
  by (simp_all add: record_at_def)

text \<open>What the store has after some events of one connection and direction.\<close>

definition extended :: "bool \<Rightarrow> SSLKey \<Rightarrow> bytes \<Rightarrow> 'd SSLStore \<Rightarrow> 'd SSLStore \<Rightarrow> bool" where
  "extended w k b s s' \<longleftrightarrow> Stream (record_at (side w s') k) = Stream (record_at (side w s) k) @ b \<and>
     (covered (record_at (side w s) k) \<longrightarrow> covered (record_at (side w s') k)) \<and>
     (\<forall>k'. k' \<noteq> k \<longrightarrow> side w s' k' = side w s k') \<and> side (\<not> w) s' = side (\<not> w) s"

lemma extended_trans: "extended w k a s s1 \<Longrightarrow> extended w k b s1 s2 \<Longrightarrow> extended w k (a @ b) s s2"
  by (simp add: extended_def)

lemma handle_events:
  assumes "\<forall>e \<in> set evs. ssl_event_ok e \<and> event_key e = k \<and> (le_rw e = SSLRwWrite) = w" and "length nows = length evs"
  shows "\<exists>s'. handle (zip nows evs) s = Some s' \<and> extended w k (concat (map ssl_payload evs)) s s'"
  using assms
proof (induction evs arbitrary: nows s)
  case (Cons e evs)
  obtain now nows' where nows: "nows = now # nows'" using Cons.prems(2) by (cases nows) auto
  have e: "ssl_event_ok e" "event_key e = k" "w = (le_rw e = SSLRwWrite)" using Cons.prems(1) by auto
  obtain s1 where s1: "Add now s e = Some s1"
    "side w s1 = (side w s)(k \<mapsto> Append now (record_at (side w s) k) (ssl_payload e) (event_info e))"
    "side (\<not> w) s1 = side (\<not> w) s"
    using Add_event [OF e(1,3), of now s] e(2) by auto
  have "extended w k (ssl_payload e) s s1"
    unfolding extended_def s1(2,3) using event_info_ok [OF e(1)] by (simp add: covered_Append) (simp add: Append_def)
  moreover obtain s' where "handle (zip nows' evs) s1 = Some s'" "extended w k (concat (map ssl_payload evs)) s1 s'"
    using Cons.IH [of nows' s1] Cons.prems nows by auto
  ultimately show ?case using s1(1) nows extended_trans [of w k "ssl_payload e" s s1] by auto
qed (simp add: extended_def)

text \<open>
  C2: the plaintext of a call arrives in its stream.  When a call of \<^verbatim>\<open>SSL_read\<close> or \<^verbatim>\<open>SSL_write\<close> returns with the
  bytes \<open>b\<close>, the events its exit program emits are accepted by the store without a panic, whenever
  they are added; the stream of the connection, in the direction of the call, grows by the bytes the
  ring had room for, in order; and no other stream changes.
\<close>

theorem plaintext_reaches_store:
  assumes "(c, w) \<in> {(SslReadExit, False), (SslWriteExit, True)}"
    and "openssl_reachable st" and "ssl_env_ok byte env"
    and "map_of (start_map st) (bpf_get_current_pid_tgid env) = Some info"
    and "sint (ret_of ctx) = int (length b)" and "b \<noteq> []"
    and "holds (bpf_probe_read_user env) (ci_buf_addr info) b" and "length b < 2 ^ 64"
    and "k = \<lparr>PidTgid = bpf_get_current_pid_tgid env, UidGid = bpf_get_current_uid_gid env,
      SSLPtr = ci_ssl_ptr info, CgroupID = bpf_get_current_cgroup_id env\<rparr>"
  shows "\<exists>evs st'. ssl_prog c env ctx st = Some st' \<and>
    rb_log (ssl_events st') = rb_log (ssl_events st) @ evs \<and>
    (\<forall>nows. length nows = length evs \<longrightarrow> (\<exists>s'. handle (zip nows evs) s = Some s' \<and>
        Stream (record_at (side w s') k) = Stream (record_at (side w s) k) @
          take (granted env SSL_MAX_LOOP * SSL_MAX_BODY_SIZE) (take (SSL_MAX_LOOP * SSL_MAX_BODY_SIZE) b) \<and>
        (\<forall>k'. k' \<noteq> k \<longrightarrow> side w s' k' = side w s k') \<and> side (\<not> w) s' = side (\<not> w) s))"
proof -
  let ?p = "bpf_get_current_pid_tgid env"
  define rw :: u8 where "rw = (if w then 2 else 4)"
  have "(c, rw) \<in> {(SslReadExit, 4), (SslWriteExit, 2)}" using assms(1) by (auto simp: rw_def)
  then obtain evs where evs: "ssl_prog c env ctx st = Some (ssl_cleanup ?p (ssl_sent evs st))" "ships env ?p info rw b evs"
    using ssl_exit_ships [OF _ assms(4-8)] by blast
  have "openssl_inv (ssl_cleanup ?p (ssl_sent evs st))"
    using ssl_prog_ok [OF assms(3) openssl_reachable_inv [OF assms(2)], of c ctx] evs(1) by (simp add: ssl_keeps_def)
  then have "\<forall>e \<in> set evs. ssl_event_ok e \<and> event_key e = k \<and> (le_rw e = SSLRwWrite) = w"
    using evs(2) assms(9) by (auto simp: openssl_inv_def ssl_ring_ok_def ssl_cleanup_def ships_def chunk_of_def
        event_key_def SSLRwWrite_def rw_def)
  then have "\<exists>s'. handle (zip nows evs) s = Some s' \<and> extended w k (concat (map ssl_payload evs)) s s'"
    if "length nows = length evs" for nows
    using handle_events that by blast
  then show ?thesis
    using evs by (intro exI [of _ evs] exI [of _ "ssl_cleanup ?p (ssl_sent evs st)"])
      (simp add: ssl_cleanup_def ships_def extended_def, metis)
qed

lemma demo_call_pending:
  obtains st where "openssl_reachable st"
    and "map_of (start_map st) (bpf_get_current_pid_tgid (ssl_demo_env [7, 8, 9])) = Some (new_call_info (ssl_demo_regs 0x2000 0 1))"
proof -
  let ?env = "ssl_demo_env [7, 8, 9]"
  obtain st where st: "ssl_prog SslWriteEntry ?env (ssl_demo_regs 0x2000 0 1) ssl_fresh_state = Some st"
    by (simp add: probe_ssl_write_entry_def)
  then have "openssl_reachable st"
    by (rule openssl_step [OF ssl_fresh ssl_demo_env_ok])
  moreover have "has_room SSL_MAX_ENTRIES (start_map ssl_fresh_state) (bpf_get_current_pid_tgid ?env)"
    by (simp add: ssl_fresh_state_def SSL_MAX_ENTRIES_def)
  then have "map_of (start_map st) (bpf_get_current_pid_tgid ?env) = Some (new_call_info (ssl_demo_regs 0x2000 0 1))"
    by (intro ssl_entry_stores [OF _ st]) simp_all
  ultimately show ?thesis by (rule that)
qed

definition empty_store :: "unit SSLStore" where
  "empty_store = \<lparr>st_Request = (\<lambda>_. None), st_Response = (\<lambda>_. None),
     st_sess = \<lparr>sessions = (\<lambda>_. None), sessionScopes = (\<lambda>_. None)\<rparr>, st_protocolCache = (\<lambda>_. None), st_nextCleanup = 0\<rparr>"

theorem plaintext_reaches_store_witness:
  "\<exists>st evs st' s'. ssl_prog SslWriteExit (ssl_demo_env [7, 8, 9]) (ssl_demo_regs 0 0 3) st = Some st' \<and>
     handle (zip (replicate (length evs) 0) evs) empty_store = Some s' \<and>
     Stream (record_at (st_Request s') \<lparr>PidTgid = bpf_get_current_pid_tgid (ssl_demo_env [7, 8, 9]),
       UidGid = bpf_get_current_uid_gid (ssl_demo_env [7, 8, 9]),
       SSLPtr = ci_ssl_ptr (new_call_info (ssl_demo_regs 0x2000 0 1)),
       CgroupID = bpf_get_current_cgroup_id (ssl_demo_env [7, 8, 9])\<rparr>) = [7, 8, 9]"
proof -
  let ?env = "ssl_demo_env [7, 8, 9]" and ?info = "new_call_info (ssl_demo_regs 0x2000 0 1)"
  let ?k = "\<lparr>PidTgid = bpf_get_current_pid_tgid ?env, UidGid = bpf_get_current_uid_gid ?env,
    SSLPtr = ci_ssl_ptr ?info, CgroupID = bpf_get_current_cgroup_id ?env\<rparr>"
  obtain st where st: "openssl_reachable st" "map_of (start_map st) (bpf_get_current_pid_tgid ?env) = Some ?info"
    by (rule demo_call_pending)
  have mem: "holds (bpf_probe_read_user ?env) (ci_buf_addr ?info) [7, 8, 9]"
    using ssl_demo_holds [of "[7, 8, 9]"] by (simp add: ssl_demo_regs_def new_call_info_def)
  have ret: "sint (ret_of (ssl_demo_regs 0 0 3)) = int (length [7 :: u8, 8, 9])"
    by (simp add: ret_of_def ssl_demo_regs_def)
  have sides: "(SslWriteExit, True) \<in> {(SslReadExit, False), (SslWriteExit, True)}" by simp
  have small: "[7 :: u8, 8, 9] \<noteq> []" "length [7 :: u8, 8, 9] < 2 ^ 64" by simp_all
  obtain evs st' where run: "ssl_prog SslWriteExit ?env (ssl_demo_regs 0 0 3) st = Some st'"
    "\<forall>nows. length nows = length evs \<longrightarrow> (\<exists>s'. handle (zip nows evs) empty_store = Some s' \<and>
        Stream (record_at (side True s') ?k) = Stream (record_at (side True empty_store) ?k) @
          take (granted ?env SSL_MAX_LOOP * SSL_MAX_BODY_SIZE) (take (SSL_MAX_LOOP * SSL_MAX_BODY_SIZE) [7, 8, 9]))"
    using plaintext_reaches_store [OF sides st(1) ssl_demo_env_ok st(2) ret small(1) mem small(2) refl, of empty_store]
    by blast
  have "length [7 :: u8, 8, 9] \<le> granted ?env SSL_MAX_LOOP * SSL_MAX_BODY_SIZE"
    using mult_le_mono1 [OF ssl_demo_granted [of "[7, 8, 9]"], of SSL_MAX_BODY_SIZE] by (simp add: SSL_MAX_BODY_SIZE_def)
  then have "take (granted ?env SSL_MAX_LOOP * SSL_MAX_BODY_SIZE)
      (take (SSL_MAX_LOOP * SSL_MAX_BODY_SIZE) [7, 8, 9]) = [7 :: u8, 8, 9]"
    by (simp add: ssl_sizes)
  moreover have "Stream (record_at (side True empty_store) ?k) = []"
    by (simp add: record_at_def empty_store_def empty_record_def)
  ultimately show ?thesis using run(1) run(2) [rule_format, of "replicate (length evs) 0"] by auto
qed

end
