(* ===== verification/Tls_Loops.thy ===== *)
theory Tls_Loops
  imports Tls_Store
begin

text \<open>
  The parsing loops of the TLS store.  The contract a protocol parser has to keep is a locale; the
  Postgres and HTTP/2 parsers keep it, the HTTP/1 parser does so unless a content length leaves the
  range of an \<^verbatim>\<open>int\<close>.  Under the contract every loop ends; without it one may not.
\<close>

section \<open>The contract of a parser\<close>

text \<open>A parser leaves the bytes of the record and their events alone.\<close>

locale protocol_parser =
  fixes parse :: "'d SSLRecord \<Rightarrow> 'p option \<times> int \<times> bool \<times> 'd SSLRecord"
  assumes keeps: "parse r = (p, n, err, r') \<Longrightarrow> Stream r' = Stream r \<and> Info r' = Info r"
begin

lemma keeps_covered: "parse r = (p, n, err, r') \<Longrightarrow> covered r \<Longrightarrow> covered r'"
  using keeps by (simp add: covered_def)

end

text \<open>It never asks to give bytes back.\<close>

locale forward_parser = protocol_parser +
  assumes forward: "parse r = (p, n, err, r') \<Longrightarrow> 0 \<le> n"
begin

lemma progress:
  assumes "parse r = (p, n, err, r1)" and "n \<noteq> 0" and "consumeRecord r1 n = (res, r2)"
    and "covered r" and "Stream r \<noteq> []"
  shows "covered r2 \<and> length (Stream r2) < length (Stream r)"
proof -
  have "covered r1" "Stream r1 = Stream r" using keeps_covered [OF assms(1,4)] keeps [OF assms(1)] by simp_all
  moreover have "0 < n" using forward [OF assms(1)] assms(2) by simp
  ultimately show ?thesis using consumeRecord_covered [OF _ assms(3)] assms(5) by (simp add: nat_less_iff)
qed

end

lemma postgres_keeps:
  "parsePostgresStatement r = (b, t, n, r') \<Longrightarrow> Stream r' = Stream r \<and> Info r' = Info r"
  by (auto simp: parsePostgresStatement_def split: if_splits option.splits)

interpretation pg_request: forward_parser Postgres_ParseRequest
  by unfold_locales (auto simp: Postgres_ParseRequest_def Let_def dest: postgres_keeps split: prod.splits)

interpretation pg_response: forward_parser Postgres_ParseResponse
  by unfold_locales (auto simp: Postgres_ParseResponse_def dest: postgres_keeps split: prod.splits)

lemma HTTP2_parse_contract:
  "HTTP2_parse lib r = (m, n, err, r') \<Longrightarrow> Stream r' = Stream r \<and> Info r' = Info r \<and> 0 \<le> n"
  by (auto simp: HTTP2_parse_def Let_def split: prod.splits)

lemma HTTP2_ParseRequest_contract:
  assumes "HTTP2_ParseRequest lib r = (p, n, err, r')"
  shows "\<exists>m err'. HTTP2_parse lib r = (m, n, err', r')"
proof -
  obtain m n' err' r'' where "HTTP2_parse lib r = (m, n', err', r'')" by (metis prod_cases4)
  with assms show ?thesis by (auto simp: HTTP2_ParseRequest_def split: if_splits option.splits prod.splits)
qed

lemma HTTP2_ParseResponse_contract:
  assumes "HTTP2_ParseResponse lib r = (p, n, err, r')"
  shows "\<exists>m err'. HTTP2_parse lib r = (m, n, err', r')"
proof -
  obtain m n' err' r'' where "HTTP2_parse lib r = (m, n', err', r'')" by (metis prod_cases4)
  with assms show ?thesis by (auto simp: HTTP2_ParseResponse_def split: if_splits option.splits prod.splits)
qed

interpretation h2_request: forward_parser "HTTP2_ParseRequest lib" for lib
  by unfold_locales (use HTTP2_ParseRequest_contract HTTP2_parse_contract in blast)+

interpretation h2_response: forward_parser "HTTP2_ParseResponse lib" for lib
  by unfold_locales (use HTTP2_ParseResponse_contract HTTP2_parse_contract in blast)+

interpretation h1_request: protocol_parser "HTTP1_ParseRequest lib" for lib
  by unfold_locales (auto simp: HTTP1_ParseRequest_def Let_def split: sum.splits http_error.splits option.splits if_splits)

interpretation h1_head: protocol_parser "parse_head lib" for lib
  by unfold_locales (auto simp: parse_head_def Let_def split: sum.splits http_error.splits option.splits if_splits)

section \<open>Termination\<close>

text \<open>
  The content length of a request is -1, when it is not known, or not negative, and can be anything up to
  the largest \<^verbatim>\<open>int64\<close>.  The lengths in a stream fit when no request that starts at some position of it
  declares one whose sum with the length of its head leaves the range of an \<^verbatim>\<open>int\<close>.
\<close>

definition lengths_fit :: "http_lib \<Rightarrow> bytes \<Rightarrow> bool" where
  "lengths_fit lib b \<longleftrightarrow> (\<forall>k req idx. ReadRequest lib (drop k b) = Inr req \<and> Index (drop k b) HTTP1Delimiter = Some idx \<longrightarrow>
     - 1 \<le> rq_ContentLength req \<and> int idx + 4 + rq_ContentLength req < 2 ^ 63)"

lemma lengths_fit_drop: "lengths_fit lib b \<Longrightarrow> lengths_fit lib (drop n b)"
  by (simp add: lengths_fit_def)

lemma lengths_fit_here:
  assumes "lengths_fit lib b" and "ReadRequest lib b = Inr req" and "Index b HTTP1Delimiter = Some idx"
  shows "- 1 \<le> rq_ContentLength req" "int idx + 4 + rq_ContentLength req < 2 ^ 63"
  using assms(1) [unfolded lengths_fit_def, rule_format, of 0] assms(2,3) by simp_all

lemma HTTP1_request_forward:
  assumes "lengths_fit lib (Stream r)" and "HTTP1_ParseRequest lib r = (p, n, err, r')"
  shows "0 \<le> n"
proof (cases "\<exists>req idx. ReadRequest lib (Stream r) = Inr req \<and> Index (Stream r) HTTP1Delimiter = Some idx")
  case True
  then obtain req idx where *: "ReadRequest lib (Stream r) = Inr req" "Index (Stream r) HTTP1Delimiter = Some idx" by blast
  have "0 \<le> int64 (int (idx + HTTP1DelimiterLen) + rq_ContentLength req)"
    using lengths_fit_here [OF assms(1) *] by (subst int64_id) (auto simp: HTTP1DelimiterLen_def)
  then show ?thesis using * assms(2) by (auto simp: HTTP1_ParseRequest_def Let_def split: if_splits)
next
  case False
  then show ?thesis
    using assms(2) by (auto simp: HTTP1_ParseRequest_def Let_def split: sum.splits http_error.splits option.splits)
qed

lemma ParseRequest_contract:
  assumes "pt = ProtocolHTTP1 \<longrightarrow> lengths_fit (lib_http lib) (Stream r)" and "ParseRequest lib pt r = (p, n, err, r')"
  shows "0 \<le> n \<and> Stream r' = Stream r \<and> Info r' = Info r"
proof (cases pt)
  case ProtocolHTTP1
  then have *: "HTTP1_ParseRequest (lib_http lib) r = (p, n, err, r')" using assms(2) by (simp add: ParseRequest_def)
  show ?thesis using HTTP1_request_forward [OF _ *] h1_request.keeps [OF *] assms(1) ProtocolHTTP1 by simp
next
  case ProtocolHTTP2
  then have *: "HTTP2_ParseRequest (lib_h2 lib) r = (p, n, err, r')" using assms(2) by (simp add: ParseRequest_def)
  show ?thesis using h2_request.forward [OF *] h2_request.keeps [OF *] by simp
next
  case ProtocolPostgres
  then have *: "Postgres_ParseRequest r = (p, n, err, r')" using assms(2) by (simp add: ParseRequest_def)
  show ?thesis using pg_request.forward [OF *] pg_request.keeps [OF *] by simp
next
  case ProtocolUnknown
  then show ?thesis using assms(2) by (simp add: ParseRequest_def)
qed

lemma request_loop_step:
  assumes "Stream r \<noteq> []" and "ParseRequest lib pt r = (p, n, False, r1)" and "n \<noteq> 0"
    and "consumeRecord r1 n = ((ts, comm, ca), r2)"
  shows "request_loop lib pt r present =
    (let pr = (present \<and> \<not> (ca \<and> EndOfStream r2 \<and> pt \<noteq> ProtocolHTTP2)) in
     (case Option.bind p (\<lambda>p. map_option (Pair (pq_StreamID p)) (pq_Request p)) of
        None \<Rightarrow> request_loop lib pt (r2\<lparr>EndOfStream := False\<rparr>) pr
      | Some (sid, q) \<Rightarrow>
          if \<not> EndOfStream r2 then request_loop lib pt r2 pr
          else (case read_body lib (rq_Body q) (rq_Header q) of
                  None \<Rightarrow> request_loop lib pt (r2\<lparr>EndOfStream := False\<rparr>) pr
                | Some body \<Rightarrow> Some (r2\<lparr>EndOfStream := False, LastResp := None\<rparr>, pr, Some (ts, comm, sid, q, body, n)))))"
  using assms by (subst request_loop.simps) (simp only: prod.case if_False simp_thms)

text \<open>
  C9: parsing the requests of a connection ends.  For a record whose bytes all belong to listed events, the
  loop over the record returns, whatever the bytes and the protocol; for HTTP/1 no request in these bytes
  may declare a content length whose sum with the length of its head leaves the range of an \<^verbatim>\<open>int\<close>.
\<close>

theorem request_parsing_ends:
  assumes "covered r" and "pt = ProtocolHTTP1 \<longrightarrow> lengths_fit (lib_http lib) (Stream r)"
  shows "\<exists>res. request_loop lib pt r present = Some res"
  using assms
proof (induction "length (Stream r)" arbitrary: r present rule: less_induct)
  case less
  obtain p n err r1 where parse: "ParseRequest lib pt r = (p, n, err, r1)" by (metis prod_cases4)
  obtain ts comm ca r2 where cons: "consumeRecord r1 n = ((ts, comm, ca), r2)" by (metis prod.exhaust)
  have r1: "0 \<le> n" "Stream r1 = Stream r" "covered r1"
    using ParseRequest_contract [OF less.prems(2) parse] less.prems(1) by (simp_all add: covered_def)
  show ?case
  proof (cases "Stream r = [] \<or> err \<or> n = 0")
    case True
    then show ?thesis by (subst request_loop.simps) (auto simp: parse)
  next
    case False
    then have "covered r2" "length (Stream r2) < length (Stream r)" "Stream r2 = drop (nat n) (Stream r)"
      using consumeRecord_covered [OF r1(3) cons] r1 by (auto simp: nat_less_iff)
    moreover from this(3) have "pt = ProtocolHTTP1 \<longrightarrow> lengths_fit (lib_http lib) (Stream r2)"
      using less.prems(2) lengths_fit_drop by simp
    ultimately have rec: "\<exists>res. request_loop lib pt r2 pr = Some res"
      "\<exists>res. request_loop lib pt (r2\<lparr>EndOfStream := False\<rparr>) pr = Some res" for pr
      using less.hyps [of r2] less.hyps [of "r2\<lparr>EndOfStream := False\<rparr>"] by (simp_all add: covered_def)
    let ?req = "Option.bind p (\<lambda>p. map_option (Pair (pq_StreamID p)) (pq_Request p))"
    show ?thesis
    proof (cases ?req)
      case None
      then show ?thesis
        using rec(2) request_loop_step [OF _ _ _ cons, of r lib pt p present] False parse by (simp add: Let_def)
    next
      case (Some q)
      then show ?thesis
        using rec request_loop_step [OF _ _ _ cons, of r lib pt p present] False parse unfolding Let_def
        by (cases q; cases "read_body lib (rq_Body (snd q)) (rq_Header (snd q))"; cases "EndOfStream r2") simp_all
    qed
  qed
qed

definition demo_tls_lib :: "(bytes \<Rightarrow> http_error + http_Request) \<Rightarrow> (unit, unit) tls_lib" where
  "demo_tls_lib read = \<lparr>lib_http = \<lparr>ReadRequest = read, ReadResponse = (\<lambda>_. Inl ErrUnexpectedEOF)\<rparr>,
     lib_h2 = demo_h2_lib, lib_codecs = tag_codecs, lib_mac = rev\<rparr>"

definition demo_request :: "int \<Rightarrow> http_Request" where
  "demo_request len = \<lparr>rq_Method = str ''PUT'', rq_URL = None, rq_RequestURI = [], rq_Host = [],
     rq_Proto = str ''HTTP/1.1'', rq_ContentLength = len, rq_Header = None, rq_Body = None\<rparr>"

theorem request_parsing_ends_witness:
  "\<exists>res. request_loop (demo_tls_lib (\<lambda>_. Inr (demo_request 3))) ProtocolHTTP1
     (demo_record [(demo_info 10 16, [71] @ HTTP1Delimiter @ [1, 2, 3] @ [71] @ HTTP1Delimiter @ [4, 5, 6])]) True = Some res"
proof -
  let ?b = "[71] @ HTTP1Delimiter @ [1, 2, 3] @ [71] @ HTTP1Delimiter @ [4, 5, 6]"
  let ?lib = "demo_tls_lib (\<lambda>_. Inr (demo_request 3))"
  have "int idx + 7 < 2 ^ 63" if "Index (drop k ?b) HTTP1Delimiter = Some idx" for k idx
    using Index_split(2) [OF that] by (simp add: HTTP1Delimiter_def)
  then have "lengths_fit (lib_http ?lib) ?b" by (auto simp: lengths_fit_def demo_tls_lib_def demo_request_def)
  moreover have "Stream (demo_record [(demo_info 10 16, ?b)]) = ?b" by (simp add: demo_record_def)
  moreover have "covered (demo_record [(demo_info 10 16, ?b)])"
    by (rule in_sync_covered [of _ "[(demo_info 10 16, ?b)]"])
      (simp add: in_sync_def demo_record_def demo_info_def info_ok_def dlen_def HTTP1Delimiter_def)
  ultimately show ?thesis by (intro request_parsing_ends) simp_all
qed

text \<open>
  C32: one request can stop the agent from reading.  When the content length of a request is so large that
  its sum with the length of the head leaves the range of an \<^verbatim>\<open>int\<close>, the count of bytes to consume is
  negative; nothing is consumed, and since a body shorter than its declared length cannot be read, the
  loop starts over with the same bytes: it never returns.
\<close>

theorem content_length_overflow_hangs:
  assumes "ReadRequest (lib_http lib) (Stream r) = Inr req" and "Index (Stream r) HTTP1Delimiter = Some idx"
    and "2 ^ 63 \<le> int idx + 4 + rq_ContentLength req" and "rq_ContentLength req < 2 ^ 63"
    and "length (Stream r) < 2 ^ 62" and "read_body lib (rq_Body req) (rq_Header req) = None"
  shows "request_loop lib ProtocolHTTP1 r present = None"
proof (rule ccontr)
  let ?n = "int64 (int idx + 4 + rq_ContentLength req)"
  have idx: "idx + 4 \<le> length (Stream r)" using Index_split(2) [OF assms(2)] by (simp add: HTTP1Delimiter_def)
  have n: "?n < 0" using int64_over [OF assms(3)] assms(4,5) idx by simp
  have parse: "ParseRequest lib ProtocolHTTP1 r' =
      (Some \<lparr>pq_StreamID = 0, pq_Request = Some req\<rparr>, ?n, False, r'\<lparr>EndOfStream := True\<rparr>)"
    if "Stream r' = Stream r" for r'
    using that assms(1,2) n by (simp add: ParseRequest_def HTTP1_ParseRequest_def HTTP1DelimiterLen_def add.assoc)
  note cons = consumeRecord_none [of ?n]
  have ne: "Stream r \<noteq> []" using idx by auto
  assume "request_loop lib ProtocolHTTP1 r present \<noteq> None"
  then obtain y where "request_loop lib ProtocolHTTP1 r present = Some y" by blast
  then have "lib = lib \<and> ProtocolHTTP1 = ProtocolHTTP1 \<and> Stream r = Stream r \<longrightarrow> False"
  proof (rule request_loop.raw_induct [where P = "\<lambda>lib' pt r' _ _. lib' = lib \<and> pt = ProtocolHTTP1 \<and> Stream r' = Stream r \<longrightarrow> False",
      rotated], goal_cases)
    case (1 f lib' pt r' present y)
    show ?case
    proof
      assume *: "lib' = lib \<and> pt = ProtocolHTTP1 \<and> Stream r' = Stream r"
      then have "f lib' pt (r'\<lparr>EndOfStream := False\<rparr>) present = Some y"
        using 1(2) parse [of r'] n ne assms(6) by (simp add: cons)
      from 1(1) [OF this] * show False by simp
    qed
  qed
  then show False by simp
qed

lemma read_body_plain [simp]: "read_body lib b None = b"
proof -
  have "parseEncodings [] = []" by (simp add: parseEncodings_def TrimSpace_def)
  then show ?thesis by (simp add: read_body_def readDecodeBytes_def Header_Get_def)
qed

lemma Index_delimiter: "13 \<notin> set a \<Longrightarrow> Index (a @ HTTP1Delimiter @ b) HTTP1Delimiter = Some (length a)"
  using Index_fresh [of 13 a "[10, 13, 10]" b] by (simp add: HTTP1Delimiter_def)

theorem content_length_overflow_hangs_witness:
  "request_loop (demo_tls_lib (\<lambda>_. Inr (demo_request (2 ^ 63 - 1)))) ProtocolHTTP1
     ((empty_record :: unit SSLRecord)\<lparr>Stream := [71] @ HTTP1Delimiter @ []\<rparr>) True = None"
proof -
  let ?lib = "demo_tls_lib (\<lambda>_. Inr (demo_request (2 ^ 63 - 1)))"
  let ?r = "(empty_record :: unit SSLRecord)\<lparr>Stream := [71] @ HTTP1Delimiter @ []\<rparr>"
  have "Index (Stream ?r) HTTP1Delimiter = Some 1" using Index_delimiter [of "[71]" "[]"] by simp
  moreover have "ReadRequest (lib_http ?lib) (Stream ?r) = Inr (demo_request (2 ^ 63 - 1))" by (simp add: demo_tls_lib_def)
  ultimately show ?thesis
    by (intro content_length_overflow_hangs [where req = "demo_request (2 ^ 63 - 1)" and idx = 1])
      (simp_all add: demo_request_def HTTP1Delimiter_def)
qed

text \<open>
  C33: a request that is too large to be collected is lost.  When a request of more than 4 MiB is not
  complete and the data at hand comes within an event's size of 4 MiB, the parser returns it to have it
  reported with the part of the body at hand; but a body shorter than its declared length cannot be read.
  Nothing is sent for it, and the first 4 MiB of the record are dropped: the loop goes on with the
  rest as if a message began there, and when there is no rest, as when at most 4 MiB are at hand, the
  record itself is dropped.
\<close>

theorem oversize_request_dropped:
  assumes "covered r" and "ReadRequest (lib_http lib) (Stream r) = Inr req"
    and "Index (Stream r) HTTP1Delimiter = Some idx"
    and "0 \<le> rq_ContentLength req" and "int idx + 4 + rq_ContentLength req < 2 ^ 63"
    and "int SSLMaxDataSize < int idx + 4 + rq_ContentLength req"
    and "int (length (Stream r)) < int idx + 4 + rq_ContentLength req"
    and "SSLMaxDataSize < length (Stream r) + SSLMaxEventSize"
    and "read_body lib (rq_Body req) (rq_Header req) = None"
  shows "\<exists>r'. covered r' \<and> Stream r' = drop SSLMaxDataSize (Stream r) \<and>
    request_loop lib ProtocolHTTP1 r present =
      (if length (Stream r) \<le> SSLMaxDataSize then Some (r', False, None)
       else request_loop lib ProtocolHTTP1 r' present)"
proof -
  let ?r1 = "r\<lparr>EndOfStream := True\<rparr>"
  let ?n = "int (min SSLMaxDataSize (length (Stream r)))"
  have "int64 (int (idx + HTTP1DelimiterLen) + rq_ContentLength req) = int idx + 4 + rq_ContentLength req"
    using assms(4,5) by (subst int64_id) (auto simp: HTTP1DelimiterLen_def)
  then have parse: "ParseRequest lib ProtocolHTTP1 r =
      (Some \<lparr>pq_StreamID = 0, pq_Request = Some req\<rparr>, ?n, False, ?r1)"
    using assms(2-4,6-8) by (simp add: ParseRequest_def HTTP1_ParseRequest_def Let_def)
  have ne: "Stream r \<noteq> []" using Index_split(2) [OF assms(3)] by (auto simp: HTTP1Delimiter_def)
  then have n: "0 < ?n" by (simp add: SSLMaxDataSize_def SSLMaxEventSize_def)
  obtain ts comm ca r2 where cons: "consumeRecord ?r1 ?n = ((ts, comm, ca), r2)" by (metis prod.exhaust)
  have c1: "covered ?r1" using assms(1) by (simp add: covered_def)
  have r2: "covered r2" "Stream r2 = drop SSLMaxDataSize (Stream r)" "EndOfStream r2"
    "ca \<longleftrightarrow> length (Stream r) \<le> SSLMaxDataSize"
    using consumeRecord_covered [OF c1 cons] consumeRecord_result [OF c1 cons n] ne n by (auto simp: min_def)
  have "request_loop lib ProtocolHTTP1 r present =
      request_loop lib ProtocolHTTP1 (r2\<lparr>EndOfStream := False\<rparr>) (present \<and> \<not> ca)"
    using request_loop_step [OF ne parse _ cons] n r2(3) assms(9) by simp
  moreover have "request_loop lib ProtocolHTTP1 (r2\<lparr>EndOfStream := False\<rparr>) False = Some (r2\<lparr>EndOfStream := False\<rparr>, False, None)"
    if "Stream r2 = []" using that by (simp add: request_loop.simps)
  ultimately show ?thesis using r2 by (intro exI [of _ "r2\<lparr>EndOfStream := False\<rparr>"]) (simp add: covered_def)
qed

theorem oversize_request_dropped_witness:
  "\<exists>r'. request_loop (demo_tls_lib (\<lambda>_. Inr (demo_request 5000000))) ProtocolHTTP1
     (demo_record [(demo_info 10 4190005, [71] @ HTTP1Delimiter @ replicate 4190000 0)]) True = Some (r', False, None)"
proof -
  let ?lib = "demo_tls_lib (\<lambda>_. Inr (demo_request 5000000))"
  let ?b = "[71] @ HTTP1Delimiter @ replicate 4190000 0"
  let ?r = "demo_record [(demo_info 10 4190005, ?b)]"
  have "Stream ?r = ?b" by (simp add: demo_record_def)
  moreover have "covered ?r"
    by (rule in_sync_covered [of _ "[(demo_info 10 4190005, ?b)]"])
      (simp add: in_sync_def demo_record_def demo_info_def info_ok_def dlen_def HTTP1Delimiter_def)
  moreover have "Index ?b HTTP1Delimiter = Some 1" using Index_delimiter [of "[71]" "replicate 4190000 0"] by simp
  moreover have "ReadRequest (lib_http ?lib) (Stream ?r) = Inr (demo_request 5000000)" by (simp add: demo_tls_lib_def)
  moreover have len: "length ?b = 4190005" by (simp add: HTTP1Delimiter_def)
  ultimately obtain r' where "request_loop ?lib ProtocolHTTP1 ?r True =
      (if length (Stream ?r) \<le> SSLMaxDataSize then Some (r', False, None) else request_loop ?lib ProtocolHTTP1 r' True)"
    using oversize_request_dropped [of ?r ?lib "demo_request 5000000" 1 True]
    by (auto simp: demo_request_def SSLMaxDataSize_def SSLMaxEventSize_def simp del: append_Cons append.simps)
  with \<open>Stream ?r = ?b\<close> len show ?thesis by (simp add: SSLMaxDataSize_def SSLMaxEventSize_def del: append_Cons append.simps)
qed

end
