(* ===== verification/Tls_Delivery.thy ===== *)
theory Tls_Delivery
  imports Tls_Loops Tls_Store_Properties
begin

text \<open>
  What the TLS store delivers: the statements of a Postgres connection, one per turn, unless a message
  blocks it; a response that arrives in chunks; and who cleans up.
\<close>

section \<open>Postgres statements\<close>

definition stream_of :: "(u8 \<times> bytes) list \<Rightarrow> bytes" where
  "stream_of ms = concat (map (\<lambda>(tag, body). pg_msg tag body) ms)"

definition is_statement :: "u8 \<times> bytes \<Rightarrow> bool" where
  "is_statement m \<longleftrightarrow> fst m \<in> set statement_tags"

definition pg_request :: "u8 \<Rightarrow> bytes \<Rightarrow> http_Request" where
  "pg_request tag body = \<lparr>rq_Method = [tag], rq_URL = None, rq_RequestURI = [], rq_Host = [],
     rq_Proto = PostgresProtoRequest, rq_ContentLength = int (length body), rq_Header = None, rq_Body = Some body\<rparr>"

lemma stream_of_simps [simp]:
  "stream_of [] = []" "stream_of ((t, b) # ms) = pg_msg t b @ stream_of ms"
  by (simp_all add: stream_of_def)

lemma stream_of_Nil [simp]: "stream_of ms = [] \<longleftrightarrow> ms = []"
  by (cases ms) (auto simp: pg_msg_def)

lemma pg_parse:
  assumes "Stream r = pg_msg t b @ rest" and "length (Stream r) < 2 ^ 31"
  shows "ParseRequest lib ProtocolPostgres r =
    (if is_statement (t, b) then Some \<lparr>pq_StreamID = 0, pq_Request = Some (pg_request t b)\<rparr> else None,
     int (length b + 5), False, r\<lparr>EndOfStream := True\<rparr>)"
proof -
  have len: "unat (of_nat (length b + 5) :: u32) = length b + 5" using assms by (intro unat_u32) simp
  then have "uint (of_nat (length b + 5) :: u32) = int (length b + 5)" by (metis uint_nat)
  moreover have "(of_nat (length b + 5) :: u32) - 5 = of_nat (length b)" by simp
  moreover have "unat (of_nat (length b) :: u32) = length b" using assms by (intro unat_u32) simp
  then have "uint (of_nat (length b) :: u32) = int (length b)" by (metis uint_nat)
  ultimately show ?thesis
    using parsePostgresStatement_msg [OF assms]
    by (simp add: ParseRequest_def Postgres_ParseRequest_def Let_def is_statement_def pg_request_def)
qed

text \<open>The messages from the first statement on.\<close>

fun from_statement :: "(u8 \<times> bytes) list \<Rightarrow> (u8 \<times> bytes) list" where
  "from_statement [] = []"
| "from_statement (m # ms) = (if is_statement m then m # ms else from_statement ms)"

lemma filter_from_statement: "filter is_statement (from_statement ms) = filter is_statement ms"
  by (induction ms) auto

lemma from_statement_hd: "from_statement ms = m # rest \<Longrightarrow> is_statement m"
  by (induction ms) (auto split: if_splits)

lemma from_statement_length: "length (stream_of (from_statement ms)) \<le> length (stream_of ms)"
  by (induction ms) (auto simp: stream_of_def)

text \<open>
  A run of the loop on whole messages: it skips to the first statement and takes it off the stream, or
  consumes everything.
\<close>

lemma pg_loop:
  assumes "covered r" and "Stream r = stream_of ms" and "length (Stream r) < 2 ^ 31"
  shows "case from_statement ms of
      [] \<Rightarrow> \<exists>r' pr. request_loop lib ProtocolPostgres r present = Some (r', pr, None) \<and> covered r' \<and> Stream r' = []
    | (t, b) # rest \<Rightarrow> \<exists>r' ts comm. request_loop lib ProtocolPostgres r present =
          Some (r', present \<and> rest \<noteq> [], Some (ts, comm, 0, pg_request t b, b, int (length b + 5))) \<and>
        covered r' \<and> Stream r' = stream_of rest"
  using assms
proof (induction ms arbitrary: r present)
  case Nil
  then show ?case by (simp add: request_loop.simps)
next
  case (Cons m ms)
  obtain t b where m: "m = (t, b)" by (cases m)
  let ?r1 = "r\<lparr>EndOfStream := True\<rparr>" and ?n = "int (length b + 5)"
  have stream: "Stream r = pg_msg t b @ stream_of ms" using Cons.prems(2) m by simp
  then have ne: "Stream r \<noteq> []" by (simp add: pg_msg_def)
  obtain ts comm ca r2 where cons: "consumeRecord ?r1 ?n = ((ts, comm, ca), r2)" by (metis prod.exhaust)
  have cov: "covered ?r1" using Cons.prems(1) by (simp add: covered_def)
  have r2: "covered r2" "Stream r2 = stream_of ms"
    using consumeRecord_covered [OF cov cons] stream by simp_all
  have eos: "EndOfStream r2" "ca = (ms = [])"
    using consumeRecord_result [OF cov cons] stream ne by simp_all
  show ?case
  proof (cases "is_statement (t, b)")
    case True
    then have "request_loop lib ProtocolPostgres r present = Some (r2\<lparr>EndOfStream := False, LastResp := None\<rparr>,
        present \<and> ms \<noteq> [], Some (ts, comm, 0, pg_request t b, b, ?n))"
      using request_loop_step [OF ne pg_parse [OF stream Cons.prems(3)] _ cons, of lib present] eos
      by (simp add: pg_request_def)
    then show ?thesis using True m r2 by (simp add: covered_def)
  next
    case False
    let ?r2 = "r2\<lparr>EndOfStream := False\<rparr>"
    have "request_loop lib ProtocolPostgres r present = request_loop lib ProtocolPostgres ?r2 (present \<and> ms \<noteq> [])"
      using request_loop_step [OF ne pg_parse [OF stream Cons.prems(3)] _ cons, of lib present] eos False by simp
    moreover have "covered ?r2" "Stream ?r2 = stream_of ms" "length (Stream ?r2) < 2 ^ 31"
      using r2 stream Cons.prems(3) by (simp_all add: covered_def)
    note Cons.IH [OF this, of "present \<and> ms \<noteq> []"]
    moreover have "ms \<noteq> []" if "from_statement ms = x # rest" for x rest using that by auto
    ultimately show ?thesis using False m by (cases "from_statement ms") auto
  qed
qed

text \<open>A connection whose buffered bytes are the given messages.\<close>

definition pending :: "'d SSLStore \<Rightarrow> SSLKey \<Rightarrow> (u8 \<times> bytes) list \<Rightarrow> bool" where
  "pending s key ms \<longleftrightarrow> st_protocolCache s key = Some ProtocolPostgres \<and>
     (case st_Request s key of None \<Rightarrow> ms = []
      | Some r \<Rightarrow> covered r \<and> Stream r = stream_of ms \<and> length (Stream r) < 2 ^ 31)"

lemma request_turn:
  assumes "pending s key ms" and "length pgs < ExportChannelSize"
  shows "\<exists>s' out. request_key lib fresh key (s, reqs, pgs) = Some (Returned (s', reqs, pgs @ out)) \<and>
    (case from_statement ms of
       [] \<Rightarrow> out = [] \<and> pending s' key []
     | (t, b) # rest \<Rightarrow> map (\<lambda>p. (rp_MsgType p, rp_Data p)) out = [([t], b)] \<and> pending s' key rest)"
proof (cases "st_Request s key")
  case None
  then show ?thesis using assms(1) by (simp add: pending_def request_key_def)
next
  case (Some r)
  then have r: "covered r" "Stream r = stream_of ms" "length (Stream r) < 2 ^ 31"
    and det: "detectProtocol (st_protocolCache s) key r = Some (ProtocolPostgres, st_protocolCache s, r)"
    and cache: "st_protocolCache s key = Some ProtocolPostgres"
    using assms(1) by (auto simp: pending_def detectProtocol_def)
  note run = pg_loop [OF r, of lib True]
  show ?thesis
  proof (cases "from_statement ms")
    case Nil
    then obtain r' pr where "request_loop lib ProtocolPostgres r True = Some (r', pr, None)" "covered r'" "Stream r' = []"
      using run by auto
    then show ?thesis using Nil Some det cache by (simp add: request_key_def pending_def Let_def)
  next
    case (Cons m rest)
    obtain t b where m: "m = (t, b)" by (cases m)
    then obtain r' ts comm where loop: "request_loop lib ProtocolPostgres r True =
        Some (r', rest \<noteq> [], Some (ts, comm, 0, pg_request t b, b, int (length b + 5)))"
      "covered r'" "Stream r' = stream_of rest"
      using run Cons by auto
    have "length (stream_of rest) < 2 ^ 31"
      using from_statement_length [of ms] r(2,3) Cons m by simp
    then show ?thesis
      using Cons m Some det cache loop assms(2)
      by (simp add: request_key_def pending_def Let_def send_request_def pg_request_def)
  qed
qed

fun turns :: "nat \<Rightarrow> ('a \<Rightarrow> 'a outcome option) \<Rightarrow> 'a \<Rightarrow> 'a outcome option" where
  "turns 0 f a = Some (Returned a)"
| "turns (Suc n) f a = (case f a of None \<Rightarrow> None | Some Panicked \<Rightarrow> Some Panicked | Some (Returned a) \<Rightarrow> turns n f a)"

text \<open>
  C7: every buffered Postgres statement is delivered.  For a connection whose buffer holds whole messages,
  as many turns of the request loop as there are statements among them send all statements, each
  once and in their order, with their type and text, as long as the channel has room for them.
\<close>

theorem statements_delivered:
  assumes "pending s key ms" and "length pgs + length (filter is_statement ms) \<le> ExportChannelSize"
  shows "\<exists>s' out. turns (length (filter is_statement ms)) (request_key lib fresh key) (s, reqs, pgs) =
      Some (Returned (s', reqs, pgs @ out)) \<and>
    map (\<lambda>p. (rp_MsgType p, rp_Data p)) out = map (\<lambda>(t, b). ([t], b)) (filter is_statement ms)"
  using assms
proof (induction "length (filter is_statement ms)" arbitrary: s ms pgs)
  case 0
  then show ?case by (auto intro: exI [of _ "[]"])
next
  case (Suc n)
  then obtain t b rest where ms: "from_statement ms = (t, b) # rest"
    using filter_from_statement [of ms] by (cases "from_statement ms") auto
  then have stmts: "filter is_statement ms = (t, b) # filter is_statement rest"
    using filter_from_statement [of ms] from_statement_hd [OF ms] by simp
  have room: "length pgs < ExportChannelSize" using Suc.prems(2) stmts by simp
  obtain s1 out1 where turn: "request_key lib fresh key (s, reqs, pgs) = Some (Returned (s1, reqs, pgs @ out1))"
    "map (\<lambda>p. (rp_MsgType p, rp_Data p)) out1 = [([t], b)]" "pending s1 key rest"
    using request_turn [OF Suc.prems(1) room, of lib fresh reqs] unfolding ms list.case prod.case by (elim exE conjE) (rule that)
  have "length out1 = 1" using arg_cong [OF turn(2), of length] by simp
  then have "length (pgs @ out1) + length (filter is_statement rest) \<le> ExportChannelSize"
    using Suc.prems(2) stmts by simp
  moreover have n: "n = length (filter is_statement rest)" using Suc.hyps(2) stmts by simp
  ultimately have "\<exists>s' out. turns n (request_key lib fresh key) (s1, reqs, pgs @ out1) = Some (Returned (s', reqs, (pgs @ out1) @ out)) \<and>
      map (\<lambda>p. (rp_MsgType p, rp_Data p)) out = map (\<lambda>(t, b). ([t], b)) (filter is_statement rest)"
    using Suc.hyps(1) [OF n turn(3), of "pgs @ out1"] by (simp only:)
  then obtain s' out2 where "turns n (request_key lib fresh key) (s1, reqs, pgs @ out1) = Some (Returned (s', reqs, (pgs @ out1) @ out2))"
    "map (\<lambda>p. (rp_MsgType p, rp_Data p)) out2 = map (\<lambda>(t, b). ([t], b)) (filter is_statement rest)"
    by (elim exE conjE) (rule that)
  then show ?case
    unfolding Suc.hyps(2) [symmetric] turns.simps turn(1) option.case outcome.case
    using turn(2) stmts by (intro exI [of _ s'] exI [of _ "out1 @ out2"]) simp
qed

definition demo_messages :: "(u8 \<times> bytes) list" where
  "demo_messages = [(81, [1, 2]), (88, []), (80, [3])]"

definition demo_pg_store :: "unit SSLStore" where
  "demo_pg_store = \<lparr>st_Request = [demo_key \<mapsto> demo_record [(demo_info 10 18, stream_of demo_messages)]], st_Response = (\<lambda>_. None),
     st_sess = \<lparr>sessions = (\<lambda>_. None), sessionScopes = (\<lambda>_. None)\<rparr>,
     st_protocolCache = [demo_key \<mapsto> ProtocolPostgres], st_nextCleanup = 0\<rparr>"

theorem statements_delivered_witness:
  "\<exists>s' out. turns 2 (request_key (demo_tls_lib (\<lambda>_. Inl ErrMalformed)) [] demo_key) (demo_pg_store, [], []) =
      Some (Returned (s', [], out)) \<and>
    map (\<lambda>p. (rp_MsgType p, rp_Data p)) out = [([81], [1, 2]), ([80], [3])]"
proof -
  have stmts: "filter is_statement demo_messages = [(81, [1, 2]), (80, [3])]"
    by (simp add: demo_messages_def is_statement_def statement_tags_def byte_of_char_def)
  have len: "length (stream_of demo_messages) = 18" by (simp add: demo_messages_def)
  then have "covered (demo_record [(demo_info 10 18, stream_of demo_messages)])"
    by (intro in_sync_covered [of _ "[(demo_info 10 18, stream_of demo_messages)]"])
      (simp add: in_sync_def demo_record_def demo_info_def info_ok_def dlen_def)
  then have "pending demo_pg_store demo_key demo_messages"
    using len by (simp add: pending_def demo_pg_store_def) (simp add: demo_record_def)
  from statements_delivered [OF this, of "[]" "demo_tls_lib (\<lambda>_. Inl ErrMalformed)" "[]" "[]"] show ?thesis
    unfolding stmts by (simp add: ExportChannelSize_def numeral_2_eq_2)
qed

section \<open>A message that blocks its connection\<close>

text \<open>
  What happens to the request side of a connection over time: events arrive, of this connection or others,
  and the loop takes its turns, each at its time.
\<close>

datatype conn_step = Arrive int ssl_event | Turn int bytes

fun conn_run :: "('f, 'd) tls_lib \<Rightarrow> SSLKey \<Rightarrow> conn_step list \<Rightarrow> 'd request_side \<Rightarrow> 'd request_side outcome option" where
  "conn_run lib key [] a = Some (Returned a)"
| "conn_run lib key (Arrive now event # steps) a =
     (case Add now (fst a) event of None \<Rightarrow> Some Panicked | Some s \<Rightarrow> conn_run lib key steps (s, snd a))"
| "conn_run lib key (Turn now fresh # steps) a =
     (case parseRequest lib now (\<lambda>_. fresh) [key] a of
        None \<Rightarrow> None | Some Panicked \<Rightarrow> Some Panicked | Some (Returned a) \<Rightarrow> conn_run lib key steps a)"

text \<open>What the connection writes, and that no turn finds it idle for longer than the lifetime of a record.\<close>

definition written_to :: "SSLKey \<Rightarrow> ssl_event \<Rightarrow> bool" where
  "written_to key e \<longleftrightarrow> event_key e = key \<and> le_rw e = SSLRwWrite"

fun arrived :: "SSLKey \<Rightarrow> conn_step list \<Rightarrow> bytes" where
  "arrived key [] = []"
| "arrived key (Arrive now e # steps) = (if written_to key e then ssl_payload e else []) @ arrived key steps"
| "arrived key (Turn now fresh # steps) = arrived key steps"

fun never_idle :: "SSLKey \<Rightarrow> int \<Rightarrow> conn_step list \<Rightarrow> bool" where
  "never_idle key touched [] \<longleftrightarrow> True"
| "never_idle key touched (Arrive now e # steps) \<longleftrightarrow>
     ssl_event_ok e \<and> never_idle key (if written_to key e then now else touched) steps"
| "never_idle key touched (Turn now fresh # steps) \<longleftrightarrow> now \<le> touched + recordTTL \<and> never_idle key touched steps"

definition buffered :: "'d SSLStore \<Rightarrow> SSLKey \<Rightarrow> int \<Rightarrow> bytes \<Rightarrow> bool" where
  "buffered s key touched b \<longleftrightarrow> st_protocolCache s key = Some ProtocolPostgres \<and>
     (\<exists>r. st_Request s key = Some r \<and> Stream r = b \<and> LastTouched r = touched)"

lemma blocked_turn:
  assumes "buffered s key touched (tag # PutUint32 len @ rest)" and "unat len < 4" and "now \<le> touched + recordTTL"
  shows "\<exists>s'. parseRequest lib now fresh [key] (s, out) = Some (Returned (s', out)) \<and>
    buffered s' key touched (tag # PutUint32 len @ rest)"
proof -
  obtain reqs pgs where out: "out = (reqs, pgs)" by (cases out)
  obtain r where r: "st_Request s key = Some r" "Stream r = tag # PutUint32 len @ rest" "LastTouched r = touched"
    "st_protocolCache s key = Some ProtocolPostgres" using assms(1) by (auto simp: buffered_def)
  define s1 where "s1 = (case shouldCleanup now s of (cleanup, s) \<Rightarrow>
    if cleanup then cleanupStaleRequestRecords (now - recordTTL) s else s)"
  have s1: "st_Request s1 key = Some r" "st_protocolCache s1 = st_protocolCache s"
    using r(1,3) assms(3) by (simp_all add: s1_def shouldCleanup_def cleanupStaleRequestRecords_def stale_def)
  have "ParseRequest lib ProtocolPostgres r = (None, 0, False, r\<lparr>EndOfStream := True\<rparr>)"
    using short_length_waits [OF r(2) assms(2)] by (simp add: ParseRequest_def)
  then have "\<exists>r'. request_loop lib ProtocolPostgres r True = Some (r', True, None) \<and> Stream r' = Stream r \<and> LastTouched r' = LastTouched r"
    by (simp add: request_loop.simps)
  then obtain r' where loop: "request_loop lib ProtocolPostgres r True = Some (r', True, None)"
    "Stream r' = Stream r" "LastTouched r' = LastTouched r" by blast
  have "parseRequest lib now fresh [key] (s, out) = visit_keys (\<lambda>key. request_key lib (fresh key) key) [key] (s1, out)"
    by (simp add: parseRequest_def s1_def out split: prod.split)
  then show ?thesis
    using s1 r loop by (simp add: out request_key_def detectProtocol_def Let_def buffered_def)
qed

lemma blocked_arrival:
  assumes "buffered s key touched b" and "ssl_event_ok e"
  shows "\<exists>s'. Add now s e = Some s' \<and> (if written_to key e then buffered s' key now (b @ ssl_payload e)
    else buffered s' key touched b)"
  using assms(1) go_slice_payload [OF assms(2)] assms(2)
  by (auto simp: Add_def Let_def written_to_def buffered_def Append_def record_at_def ssl_event_ok_def SSLRwWrite_def SSLRwRead_def)

lemma idle_record_removed:
  assumes "buffered s key touched b" and "touched + recordTTL < now" and "st_nextCleanup s \<le> now"
  shows "\<exists>s'. parseRequest lib now fresh [key] (s, out) = Some (Returned (s', out)) \<and> st_Request s' key = None"
  using assms by (cases out) (auto simp: parseRequest_def shouldCleanup_def cleanupStaleRequestRecords_def stale_def
      buffered_def request_key_def)

lemma blocked_run:
  assumes "buffered s key touched (tag # PutUint32 len @ rest)" and "unat len < 4" and "never_idle key touched steps"
  shows "\<exists>s' touched'. conn_run lib key steps (s, out) = Some (Returned (s', out)) \<and>
    buffered s' key touched' (tag # PutUint32 len @ rest @ arrived key steps)"
  using assms
proof (induction steps arbitrary: s touched rest)
  case Nil
  then show ?case unfolding conn_run.simps arrived.simps append_Nil2 by blast
next
  case (Cons step steps)
  show ?case
  proof (cases step)
    case (Arrive now e)
    define more where "more = (if written_to key e then ssl_payload e else [])"
    define touched1 where "touched1 = (if written_to key e then now else touched)"
    have ok: "ssl_event_ok e" "never_idle key touched1 steps"
      using Cons.prems(3) unfolding Arrive never_idle.simps touched1_def by blast+
    obtain s1 where s1: "Add now s e = Some s1" "buffered s1 key touched1 (tag # PutUint32 len @ rest @ more)"
      using blocked_arrival [OF Cons.prems(1) ok(1), of now] unfolding more_def touched1_def
      by (cases "written_to key e") auto
    show ?thesis
      using Cons.IH [OF s1(2) Cons.prems(2) ok(2)]
      unfolding Arrive conn_run.simps arrived.simps fst_conv snd_conv s1(1) option.case more_def append_assoc .
  next
    case (Turn now fresh)
    have ok: "now \<le> touched + recordTTL" "never_idle key touched steps"
      using Cons.prems(3) unfolding Turn never_idle.simps by blast+
    obtain s1 where s1: "parseRequest lib now (\<lambda>_. fresh) [key] (s, out) = Some (Returned (s1, out))"
      "buffered s1 key touched (tag # PutUint32 len @ rest)"
      using blocked_turn [OF Cons.prems(1,2) ok(1), of lib "\<lambda>_. fresh" out] by blast
    show ?thesis
      using Cons.IH [OF s1(2) Cons.prems(2) ok(2)]
      unfolding Turn conn_run.simps arrived.simps s1(1) option.case outcome.case .
  qed
qed

text \<open>
  C35: a Postgres message with an impossible length blocks its connection.  When the message at the head of
  the buffer has a length field below four, then whatever events arrive and however many turns the
  request loop takes, nothing is sent, and all the connection writes piles up behind that message, as long
  as no turn finds the connection idle for more than ten minutes.  Only a turn that does, and that
  cleans up, removes the record, with everything collected.
\<close>

theorem bad_length_blocks:
  assumes "buffered s key touched (tag # PutUint32 len @ rest)" and "unat len < 4" and "never_idle key touched steps"
  shows "\<exists>s' touched'. conn_run lib key steps (s, out) = Some (Returned (s', out)) \<and>
    buffered s' key touched' (tag # PutUint32 len @ rest @ arrived key steps) \<and>
    (\<forall>now fresh. touched' + recordTTL < now \<and> st_nextCleanup s' \<le> now \<longrightarrow>
      (\<exists>s''. parseRequest lib now fresh [key] (s', out) = Some (Returned (s'', out)) \<and> st_Request s'' key = None))"
  using blocked_run [OF assms, of lib out] idle_record_removed by blast

definition demo_written :: ssl_event where
  "demo_written = \<lparr>le_timestamp_ns = 20, le_pid_tgid = 1, le_uid_gid = 2, le_cgroup_id = 4, le_ssl_ptr = 3, le_req_len = 2,
     le_data_len = 2, le_rw = 2, le_comm = replicate SSL_COMM_LEN 0,
     le_data = [88, 89] @ replicate (SSL_MAX_BODY_SIZE - 2) 0\<rparr>"

theorem bad_length_blocks_witness:
  "\<exists>s'. conn_run (demo_tls_lib (\<lambda>_. Inl ErrMalformed)) demo_key [Turn 5 [], Arrive 7 demo_written, Turn 8 []]
      (demo_pg_store\<lparr>st_Request := [demo_key \<mapsto> demo_record [(demo_info 10 5, 81 # PutUint32 3)]]\<rparr>, [], []) =
      Some (Returned (s', [], [])) \<and> st_Request s' demo_key \<noteq> None"
proof -
  let ?s = "demo_pg_store\<lparr>st_Request := [demo_key \<mapsto> demo_record [(demo_info 10 5, 81 # PutUint32 3)]]\<rparr>"
  have "buffered ?s demo_key 0 (81 # PutUint32 3 @ [])"
    by (simp add: buffered_def demo_pg_store_def demo_record_def empty_record_def)
  moreover have three: "unat (3 :: u32) < 4" by simp
  moreover have "never_idle demo_key 0 [Turn 5 [], Arrive 7 demo_written, Turn 8 []]"
    by (simp add: ssl_event_ok_def demo_written_def SSL_MAX_BODY_SIZE_def recordTTL_def)
  ultimately have "\<exists>s' touched'. conn_run (demo_tls_lib (\<lambda>_. Inl ErrMalformed)) demo_key
      [Turn 5 [], Arrive 7 demo_written, Turn 8 []] (?s, [], []) = Some (Returned (s', [], [])) \<and>
      buffered s' demo_key touched' (81 # PutUint32 3 @ [] @ arrived demo_key [Turn 5 [], Arrive 7 demo_written, Turn 8 []])"
    using bad_length_blocks [of ?s demo_key 0 81 3 "[]" "[Turn 5 [], Arrive 7 demo_written, Turn 8 []]"
        "demo_tls_lib (\<lambda>_. Inl ErrMalformed)" "([], [])"] three by blast
  then show ?thesis unfolding buffered_def by blast
qed

section \<open>Chunked responses\<close>

lemma response_loop_step:
  assumes "Stream r \<noteq> []" and "ParseResponse lib pt r = Some (Some p, n, False, r1)" and "n \<noteq> 0"
    and "consumeRecord r1 n = ((ts, comm, ca), r2)" and "\<not> ps_DiscardStream p" and "ps_Response p = Some resp"
  shows "response_loop lib pt key r present sess =
    (let pr = (present \<and> \<not> (ca \<and> EndOfStream r2 \<and> pt \<noteq> ProtocolHTTP2)) in
     if \<not> EndOfStream r2 then response_loop lib pt key r2 pr sess
     else (case read_body lib (rs_Body resp) (rs_Header resp) of
        None \<Rightarrow> response_loop lib pt key (r2\<lparr>EndOfStream := False\<rparr>) pr
          (deleteSessionKey sess (sessionScopeForKey key (ps_StreamID p)))
      | Some body \<Rightarrow> Some (Returned (r2\<lparr>EndOfStream := False, LastResp := None\<rparr>, pr, sess,
          Some (ts, comm, ps_StreamID p, resp, body)))))"
  using assms by (subst response_loop.simps) (simp add: Let_def)

lemma length_chunk: "5 \<le> length (chunk d) \<and> (d \<noteq> [] \<longrightarrow> 5 < length (chunk d))"
  using FormatUint16_ne [of "length d"]
  by (cases "FormatUint16 (length d)"; cases d) (simp_all add: chunk_def CRLF_def)

lemma chunk_count:
  assumes "length (chunk d) < 2 ^ 62"
  shows "sint (of_nat (length (chunk d)) :: u64) = int (length (chunk d))"
    and "(of_nat (length (chunk d)) :: u64) \<noteq> 0"
    and "d \<noteq> [] \<Longrightarrow> (of_nat (length (chunk d)) :: u64) \<noteq> StreamEndChunkLength"
proof -
  have u: "unat (of_nat (length (chunk d)) :: u64) = length (chunk d)" using assms by (intro unat_small) simp
  show "sint (of_nat (length (chunk d)) :: u64) = int (length (chunk d))"
    using assms by (intro sint_small) simp
  show "(of_nat (length (chunk d)) :: u64) \<noteq> 0" using u length_chunk [of d] by (metis not_numeral_le_zero unat_0)
  show "(of_nat (length (chunk d)) :: u64) \<noteq> StreamEndChunkLength" if "d \<noteq> []"
  proof
    assume "(of_nat (length (chunk d)) :: u64) = StreamEndChunkLength"
    then have "unat (of_nat (length (chunk d)) :: u64) = unat StreamEndChunkLength" by (rule arg_cong)
    then show False using u length_chunk [of d] that by (simp add: StreamEndChunkLength_def)
  qed
qed

lemma parse_chunk_step:
  assumes "LastResp r = Some resp" and "isChunkedEncoding resp" and "rs_Body resp = Some b"
    and "Stream r = chunk d @ rest" and "length (Stream r) < 2 ^ 62"
  shows "ParseResponse lib ProtocolHTTP1 r = Some
    (Some \<lparr>ps_StreamID = 0, ps_Response = Some (resp\<lparr>rs_Body := Some (b @ d)\<rparr>), ps_DiscardStream = False\<rparr>,
     int (length (chunk d)), False,
     if d = [] then r\<lparr>EndOfStream := True\<rparr> else r\<lparr>EndOfStream := False, LastResp := Some (resp\<lparr>rs_Body := Some (b @ d)\<rparr>)\<rparr>)"
proof -
  have len: "length (chunk d) < 2 ^ 62" using assms(4,5) by simp
  have "parseStream (Stream r) = Some (Inr (d, of_nat (length (chunk d))))"
    using parseStream_chunk [of d rest] assms(4,5) by simp
  moreover have "(of_nat (length (chunk [])) :: u64) = StreamEndChunkLength"
    by (simp add: chunk_def CRLF_def StreamEndChunkLength_def FormatUint16.simps)
  moreover have "resp\<lparr>rs_Body := Some b\<rparr> = resp" using assms(3) by (cases resp) simp
  ultimately show ?thesis
    using assms(1-3) chunk_count [OF len]
    by (cases "d = []") (simp_all add: ParseResponse_def HTTP1_ParseResponse_def parse_chunk_def Let_def)
qed

lemma chunks_collected:
  assumes "covered r" and "LastResp r = Some resp" and "isChunkedEncoding resp" and "rs_Body resp = Some b"
    and "Stream r = concat (map chunk ds) @ chunk []" and "[] \<notin> set ds" and "length (Stream r) < 2 ^ 62"
    and "read_body lib (Some (b @ concat ds)) (rs_Header resp) = Some body"
  shows "\<exists>r' ts comm. response_loop lib ProtocolHTTP1 key r present sess = Some (Returned (r', False, sess,
    Some (ts, comm, 0, resp\<lparr>rs_Body := Some (b @ concat ds)\<rparr>, body)))"
  using assms
proof (induction ds arbitrary: r resp b present)
  case Nil
  let ?r1 = "r\<lparr>EndOfStream := True\<rparr>" and ?n = "int (length (chunk []))"
  have stream: "Stream r = chunk [] @ []" and ne: "Stream r \<noteq> []" "?n \<noteq> 0"
    using Nil.prems(5) length_chunk [of "[]"] by auto
  obtain ts comm ca r2 where cons: "consumeRecord ?r1 ?n = ((ts, comm, ca), r2)" by (metis prod.exhaust)
  have "covered ?r1" using Nil.prems(1) by (simp add: covered_def)
  from consumeRecord_result [OF this cons] have "EndOfStream r2" "ca" using ne stream by simp_all
  then show ?case
    using response_loop_step [OF ne(1) _ ne(2) cons, of lib ProtocolHTTP1]
      parse_chunk_step [OF Nil.prems(2-4) stream Nil.prems(7), of lib] Nil.prems(8) by simp
next
  case (Cons d ds)
  let ?resp = "resp\<lparr>rs_Body := Some (b @ d)\<rparr>"
  let ?r1 = "r\<lparr>EndOfStream := False, LastResp := Some ?resp\<rparr>" and ?n = "int (length (chunk d))"
  have stream: "Stream r = chunk d @ concat (map chunk ds) @ chunk []" and d: "d \<noteq> []"
    and ne: "Stream r \<noteq> []" "?n \<noteq> 0"
    using Cons.prems(5,6) length_chunk [of d] by auto
  obtain ts comm ca r2 where cons: "consumeRecord ?r1 ?n = ((ts, comm, ca), r2)" by (metis prod.exhaust)
  have cov: "covered ?r1" using Cons.prems(1) by (simp add: covered_def)
  have r2: "covered r2" "Stream r2 = concat (map chunk ds) @ chunk []" "\<not> EndOfStream r2" "LastResp r2 = Some ?resp"
    using consumeRecord_covered [OF cov cons] consumeRecord_result [OF cov cons] ne stream by auto
  have "response_loop lib ProtocolHTTP1 key r present sess = response_loop lib ProtocolHTTP1 key r2 present sess"
    using response_loop_step [OF ne(1) _ ne(2) cons, of lib ProtocolHTTP1]
      parse_chunk_step [OF Cons.prems(2-4) stream Cons.prems(7), of lib] r2(3) d by simp
  moreover have "isChunkedEncoding ?resp" using Cons.prems(3) by (simp add: isChunkedEncoding_def)
  ultimately show ?case
    using Cons.IH [OF r2(1,4), of "b @ d" present] r2(2) stream Cons.prems(6-8) by simp
qed

lemma parse_head_chunked:
  assumes "LastResp r = None" and "ReadResponse (lib_http lib) (Stream r) = Inr resp" and "isChunkedEncoding resp"
    and "Index (Stream r) HTTP1Delimiter = Some idx"
  shows "ParseResponse lib ProtocolHTTP1 r = Some
    (Some \<lparr>ps_StreamID = 0, ps_Response = Some (resp\<lparr>rs_Body := Some []\<rparr>), ps_DiscardStream = False\<rparr>,
     int (idx + 4), False, r\<lparr>LastResp := Some (resp\<lparr>rs_Body := Some []\<rparr>), EndOfStream := False\<rparr>)"
  using assms by (simp add: ParseResponse_def HTTP1_ParseResponse_def parse_head_def Let_def HTTP1DelimiterLen_def)

lemma chunked_loop:
  assumes "covered r" and "LastResp r = None" and "ReadResponse (lib_http lib) (Stream r) = Inr resp"
    and "isChunkedEncoding resp" and "Index (Stream r) HTTP1Delimiter = Some idx" and "length head = idx + 4"
    and "Stream r = head @ concat (map chunk ds) @ chunk []" and "[] \<notin> set ds" and "length (Stream r) < 2 ^ 62"
    and "read_body lib (Some (concat ds)) (rs_Header resp) = Some body"
  shows "\<exists>r' ts comm. response_loop lib ProtocolHTTP1 key r present sess = Some (Returned (r', False, sess,
    Some (ts, comm, 0, resp\<lparr>rs_Body := Some (concat ds)\<rparr>, body)))"
proof -
  let ?resp = "resp\<lparr>rs_Body := Some []\<rparr>"
  let ?r1 = "r\<lparr>LastResp := Some ?resp, EndOfStream := False\<rparr>" and ?n = "int (idx + 4)"
  have ne: "Stream r \<noteq> []" "?n \<noteq> 0" using assms(6,7) by auto
  obtain ts comm ca r2 where cons: "consumeRecord ?r1 ?n = ((ts, comm, ca), r2)" by (metis prod.exhaust)
  have cov: "covered ?r1" using assms(1) by (simp add: covered_def)
  have r2: "covered r2" "Stream r2 = concat (map chunk ds) @ chunk []" "\<not> EndOfStream r2" "LastResp r2 = Some ?resp"
    using consumeRecord_covered [OF cov cons] consumeRecord_result [OF cov cons] ne assms(6,7) by auto
  have "response_loop lib ProtocolHTTP1 key r present sess = response_loop lib ProtocolHTTP1 key r2 present sess"
    using response_loop_step [OF ne(1) _ ne(2) cons, of lib ProtocolHTTP1]
      parse_head_chunked [OF assms(2-5)] r2(3) by simp
  moreover have "isChunkedEncoding ?resp" using assms(4) by (simp add: isChunkedEncoding_def)
  ultimately show ?thesis
    using chunks_collected [OF r2(1,4) _ _ r2(2) assms(8), of "[]" lib body key present sess] r2(2) assms(7,9,10) by simp
qed

text \<open>
  C8: a chunked response is delivered whole.  When the buffer of a connection's response side holds a head
  that announces the chunked coding, followed by chunks and the last chunk, one turn of the response loop
  sends one response: its body is what the content codings make of the data of all chunks in order, its
  session key is the one stored for the connection, which is removed, and so is the record.
\<close>

theorem chunked_response_delivered:
  assumes "st_Response s key = Some r" and "st_protocolCache s key = Some ProtocolHTTP1"
    and "covered r" and "LastResp r = None" and "ReadResponse (lib_http lib) (Stream r) = Inr resp"
    and "isChunkedEncoding resp" and "Index (Stream r) HTTP1Delimiter = Some idx" and "length head = idx + 4"
    and "Stream r = head @ concat (map chunk ds) @ chunk []" and "[] \<notin> set ds" and "length (Stream r) < 2 ^ 62"
    and "read_body lib (Some (concat ds)) (rs_Header resp) = Some body"
    and "length ch < ExportChannelSize"
  shows "\<exists>s' p. response_key lib fresh key (s, ch) = Some (Returned (s', ch @ [p])) \<and>
    ro_Body p = body \<and> ro_StatusCode p = rs_StatusCode resp \<and> ro_PidTGid p = PidTgid key \<and>
    ro_SessionKey p = (case sessions (st_sess s) (sessionScopeForKey key 0) of None \<Rightarrow> fresh | Some k \<Rightarrow> k) \<and>
    sessions (st_sess s') (sessionScopeForKey key 0) = None \<and> st_Response s' key = None"
proof -
  have det: "detectProtocol (st_protocolCache s) key r = Some (ProtocolHTTP1, st_protocolCache s, r)"
    using assms(2) by (simp add: detectProtocol_def)
  obtain r' ts comm where "response_loop lib ProtocolHTTP1 key r True (st_sess s) = Some (Returned (r', False, st_sess s,
      Some (ts, comm, 0, resp\<lparr>rs_Body := Some (concat ds)\<rparr>, body)))"
    using chunked_loop [OF assms(3-12)] by blast
  then show ?thesis
    using assms(1,13) det
    by (cases "sessions (st_sess s) (sessionScopeForKey key 0)")
      (simp_all add: response_key_def Let_def ensureSessionKey_def deleteSessionKey_def removeSessionScope_def
        addSessionScope_def split: option.split)
qed

definition demo_chunks :: bytes where
  "demo_chunks = [65, 13, 10, 13, 10] @ chunk [1, 2] @ chunk [3] @ chunk []"

theorem chunked_response_delivered_witness:
  "\<exists>s' p. response_key ((demo_tls_lib (\<lambda>_. Inl ErrMalformed))\<lparr>lib_http := demo_lib\<lparr>ReadResponse := \<lambda>_. Inr (demo_response [])\<rparr>\<rparr>)
      [7] demo_key
      (demo_pg_store\<lparr>st_Response := [demo_key \<mapsto> demo_record [(demo_info 10 23, demo_chunks)]],
         st_protocolCache := [demo_key \<mapsto> ProtocolHTTP1]\<rparr>, []) = Some (Returned (s', [p])) \<and>
    ro_Body p = [1, 2, 3] \<and> ro_StatusCode p = 200 \<and> ro_SessionKey p = [7]"
proof -
  let ?lib = "(demo_tls_lib (\<lambda>_. Inl ErrMalformed))\<lparr>lib_http := demo_lib\<lparr>ReadResponse := \<lambda>_. Inr (demo_response [])\<rparr>\<rparr>"
  let ?r = "demo_record [(demo_info 10 23, demo_chunks)]"
  let ?s = "demo_pg_store\<lparr>st_Response := [demo_key \<mapsto> ?r], st_protocolCache := [demo_key \<mapsto> ProtocolHTTP1]\<rparr>"
  have len: "length demo_chunks = 23" and idx: "Index demo_chunks HTTP1Delimiter = Some 1" by code_simp+
  have "covered ?r"
    by (intro in_sync_covered [of _ "[(demo_info 10 23, demo_chunks)]"])
      (simp add: in_sync_def demo_record_def demo_info_def info_ok_def dlen_def len)
  moreover have "read_body ?lib (Some [1, 2, 3]) (rs_Header (demo_response [])) = Some [1, 2, 3]"
    by (simp add: demo_response_def read_body_def readDecodeBytes_def Header_Get_def parseEncodings_def TrimSpace_def)
  ultimately show ?thesis
    using chunked_response_delivered [of ?s demo_key ?r ?lib "demo_response []" 1 "[65, 13, 10, 13, 10]" "[[1, 2], [3]]" "[1, 2, 3]" "[]" "[7]"]
      len idx
    by (auto simp: demo_record_def demo_chunks_def [symmetric] demo_tls_lib_def demo_response_def isChunkedEncoding_def
        ExportChannelSize_def demo_pg_store_def empty_record_def) (auto simp: demo_chunks_def)
qed

section \<open>Cleanup\<close>

lemma send_request_deadline: "st_nextCleanup (fst (send_request lib fresh key m a)) = st_nextCleanup (fst a)"
  by (cases a; cases m) (simp add: send_request_def Let_def split: prod.split)

lemma request_key_deadline:
  assumes "request_key lib fresh key (s, reqs, pgs) = Some (Returned (s', reqs', pgs'))"
  shows "st_nextCleanup s' = st_nextCleanup s"
proof (cases "st_Request s key")
  case None
  then show ?thesis using assms by (simp add: request_key_def)
next
  case (Some r)
  then obtain pt cache r' where det: "detectProtocol (st_protocolCache s) key r = Some (pt, cache, r')"
    using assms by (cases "detectProtocol (st_protocolCache s) key r") (auto simp: request_key_def)
  show ?thesis
  proof (cases "pt = ProtocolUnknown")
    case True
    then show ?thesis using assms Some det by (auto simp: request_key_def Let_def)
  next
    case False
    then obtain r'' present sent where loop: "request_loop lib pt r' True = Some (r'', present, sent)"
      using assms Some det by (cases "request_loop lib pt r' True") (auto simp: request_key_def Let_def)
    show ?thesis
    proof (cases sent)
      case None
      then show ?thesis using assms Some det False loop by (auto simp: request_key_def Let_def)
    next
      case (Some m)
      let ?s = "s\<lparr>st_protocolCache := cache, st_Request := (st_Request s)(key := if present then Some r'' else None)\<rparr>"
      have "(s', reqs', pgs') = send_request lib fresh key m (?s, reqs, pgs)"
        using assms \<open>st_Request s key = Some r\<close> det False loop Some by (simp add: request_key_def Let_def)
      then have "st_nextCleanup (fst (s', reqs', pgs')) = st_nextCleanup (fst (?s, reqs, pgs))"
        by (simp only: send_request_deadline)
      then show ?thesis by simp
    qed
  qed
qed

lemma visit_keys_keeps:
  assumes "\<And>key a a'. f key a = Some (Returned a') \<Longrightarrow> P a' = P a"
  shows "visit_keys f order a = Some (Returned a') \<Longrightarrow> P a' = P a"
proof (induction order arbitrary: a)
  case Nil
  then show ?case by simp
next
  case (Cons key order)
  show ?case
  proof (cases "f key a")
    case None
    then show ?thesis using Cons.prems by simp
  next
    case (Some res)
    then show ?thesis using Cons assms [of key a] by (cases res) simp_all
  qed
qed

lemma visit_requests_deadline:
  assumes "visit_keys (\<lambda>key. request_key lib (fresh key) key) order (s, reqs, pgs) = Some (Returned (s', reqs', pgs'))"
  shows "st_nextCleanup s' = st_nextCleanup s"
proof -
  have "st_nextCleanup (fst (s', reqs', pgs')) = st_nextCleanup (fst (s, reqs, pgs))"
    by (rule visit_keys_keeps [OF _ assms, of "\<lambda>a. st_nextCleanup (fst a)"])
      (metis request_key_deadline prod.collapse)
  then show ?thesis by simp
qed

text \<open>
  Both sides share one deadline.  In a tick whose request side is past it, the request side takes the
  cleanup, and the response side, if it follows within a minute, only parses: no stale response record
  is removed.
\<close>

lemma response_cleanup_skipped:
  assumes "parseRequest lib now fresh order (s, reqs, pgs) = Some (Returned (s', reqs', pgs'))"
    and "st_nextCleanup s \<le> now" and "now' < now + cleanupInterval"
  shows "Parse_tick lib (now, fresh, order) (now', fresh', order') (s, reqs, pgs, resps) =
    (case visit_keys (\<lambda>key. response_key lib (fresh' key) key) order' (s', resps) of
       None \<Rightarrow> None
     | Some Panicked \<Rightarrow> Some Panicked
     | Some (Returned (s, resps)) \<Rightarrow> Some (Returned (s, reqs', pgs', resps)))"
proof -
  let ?s = "cleanupStaleRequestRecords (now - recordTTL) (s\<lparr>st_nextCleanup := now + cleanupInterval\<rparr>)"
  have "visit_keys (\<lambda>key. request_key lib (fresh key) key) order (?s, reqs, pgs) = Some (Returned (s', reqs', pgs'))"
    using assms(1,2) by (simp add: parseRequest_def shouldCleanup_def)
  from visit_requests_deadline [OF this] have "st_nextCleanup s' = now + cleanupInterval"
    by (simp add: cleanupStaleRequestRecords_def)
  then show ?thesis
    using assms(1,3) by (simp add: Parse_tick_def parseResponse_def shouldCleanup_def Let_def)
qed

end
