(* ===== verification/Exporter.thy ===== *)
theory Exporter
  imports Tls_Store
begin

text \<open>
  The exporter (\<^verbatim>\<open>export/exporter.go\<close>): every second it takes a batch of records from a channel, converts
  them and hands them to the sink.  A probe puts records into the channel without waiting; the channel
  holds 4096.  The conversion \<^verbatim>\<open>ToRecord\<close> and the sink behind \<^verbatim>\<open>WriteBatch\<close>, whose errors are only logged, are
  parameters.
\<close>

definition maxBatchSize :: nat where "maxBatchSize = 1024"

text \<open>
  The function \<^verbatim>\<open>consumeFromChannel\<close> returns: \<open>q\<close> is the content of the channel and \<open>closed\<close> whether it was
  closed.  The results are the events, whether the channel is still open, and what is left in it.
\<close>

fun consume_batch :: "('r \<Rightarrow> 'e option) \<Rightarrow> bool \<Rightarrow> 'r list \<Rightarrow> 'e list \<Rightarrow> 'e list \<times> bool \<times> 'r list" where
  "consume_batch ToRecord closed [] events = (events, length events < maxBatchSize \<longrightarrow> \<not> closed, [])"
| "consume_batch ToRecord closed (raw # q) events =
     (if length events < maxBatchSize
      then consume_batch ToRecord closed q (case ToRecord raw of None \<Rightarrow> events | Some record \<Rightarrow> events @ [record])
      else (events, True, raw # q))"

definition consumeFromChannel :: "('r \<Rightarrow> 'e option) \<Rightarrow> bool \<Rightarrow> 'r list \<Rightarrow> 'e list \<times> bool \<times> 'r list" where
  "consumeFromChannel ToRecord closed q = consume_batch ToRecord closed q []"

text \<open>
  What wakes the loop of \<^verbatim>\<open>IngestEvents\<close>: the end of its context, or a tick.  A tick carries what the probes
  sent since the one before and whether the channel was closed; the end of the context carries what was
  sent before it.
\<close>

datatype 'r wakeup = Done "'r list" | Tick "'r list" bool

text \<open>
  The loop itself.  The results are the batches written, what is left in the channel, and whether the loop
  is still running.
\<close>

fun IngestEvents :: "('r \<Rightarrow> 'e option) \<Rightarrow> 'r wakeup list \<Rightarrow> 'r list \<Rightarrow> 'e list list \<times> 'r list \<times> bool" where
  "IngestEvents ToRecord [] q = ([], q, True)"
| "IngestEvents ToRecord (Done sent # wakeups) q = ([], foldl (try_send ExportChannelSize) q sent, False)"
| "IngestEvents ToRecord (Tick sent closed # wakeups) q =
     (case consumeFromChannel ToRecord closed (foldl (try_send ExportChannelSize) q sent) of
        (events, open, q) \<Rightarrow>
          let batch = (if events = [] then [] else [events]) in
          if \<not> open then (batch, q, False)
          else (case IngestEvents ToRecord wakeups q of (batches, q, running) \<Rightarrow> (batch @ batches, q, running)))"

lemma consume_batch_spec:
  assumes "consume_batch f closed q events = (events', opened, q')" and "length events \<le> maxBatchSize"
  shows "\<exists>taken. q = taken @ q' \<and> events' = events @ List.map_filter f taken \<and> length events' \<le> maxBatchSize \<and>
    (q' \<noteq> [] \<longrightarrow> opened \<and> length events' = maxBatchSize) \<and> (\<not> opened \<longrightarrow> closed) \<and>
    (q' = [] \<and> closed \<and> length events' < maxBatchSize \<longrightarrow> \<not> opened)"
  using assms
proof (induction q arbitrary: events)
  case Nil
  then show ?case by (auto simp: List.map_filter_def)
next
  case (Cons raw q)
  show ?case
  proof (cases "length events < maxBatchSize")
    case True
    let ?events = "case f raw of None \<Rightarrow> events | Some r \<Rightarrow> events @ [r]"
    have "consume_batch f closed q ?events = (events', opened, q')" "length ?events \<le> maxBatchSize"
      using Cons.prems(1) True by (auto split: option.split)
    from Cons.IH [OF this] obtain taken where
      taken: "q = taken @ q'" "events' = ?events @ List.map_filter f taken" "length events' \<le> maxBatchSize"
        "(q' \<noteq> [] \<longrightarrow> opened \<and> length events' = maxBatchSize) \<and> (\<not> opened \<longrightarrow> closed) \<and>
          (q' = [] \<and> closed \<and> length events' < maxBatchSize \<longrightarrow> \<not> opened)"
      by blast
    have "events' = events @ List.map_filter f (raw # taken)"
      using taken(2) by (cases "f raw") (simp_all add: List.map_filter_def)
    then show ?thesis using taken(1,3,4) by (intro exI [of _ "raw # taken"]) simp
  next
    case False
    then show ?thesis
      using Cons.prems by (intro exI [of _ "[]"]) (auto simp: List.map_filter_def)
  qed
qed

lemma map_filter_append: "List.map_filter f (xs @ ys) = List.map_filter f xs @ List.map_filter f ys"
  by (simp add: List.map_filter_def)

lemma length_map_filter: "length (List.map_filter f xs) \<le> length xs"
  by (simp add: List.map_filter_def)

lemma sends_all: "length q + length sent \<le> cap \<Longrightarrow> foldl (try_send cap) q sent = q @ sent"
  by (induction sent arbitrary: q) simp_all

definition batch_ok :: "'e list \<Rightarrow> bool" where
  "batch_ok b \<longleftrightarrow> 0 < length b \<and> length b \<le> maxBatchSize"

lemma tick_spec:
  assumes "length q + length sent \<le> ExportChannelSize"
    and "consumeFromChannel f closed (foldl (try_send ExportChannelSize) q sent) = (events, opened, q')"
  shows "List.map_filter f (q @ sent) = events @ List.map_filter f q' \<and> length events \<le> maxBatchSize \<and>
    (closed \<or> opened) \<and> length q' \<le> length q + length sent - maxBatchSize \<and>
    (\<not> opened \<longrightarrow> q' = []) \<and> (closed \<and> q @ sent = [] \<longrightarrow> \<not> opened)"
proof -
  have "consume_batch f closed (q @ sent) [] = (events, opened, q')"
    using assms(2) sends_all [OF assms(1)] by (simp add: consumeFromChannel_def)
  from consume_batch_spec [OF this] obtain taken where
    taken: "q @ sent = taken @ q'" "events = List.map_filter f taken" "length events \<le> maxBatchSize"
      "q' \<noteq> [] \<longrightarrow> opened \<and> length events = maxBatchSize" "\<not> opened \<longrightarrow> closed"
      "q' = [] \<and> closed \<and> length events < maxBatchSize \<longrightarrow> \<not> opened"
    by auto
  have "length q + length sent = length taken + length q'" using arg_cong [OF taken(1), of length] by simp
  moreover have "maxBatchSize \<le> length taken" if "q' \<noteq> []"
    using taken(2,4) that length_map_filter [of f taken] by simp
  ultimately have "length q' \<le> length q + length sent - maxBatchSize" by (cases "q' = []") auto
  then show ?thesis
    using taken by (auto simp: map_filter_append maxBatchSize_def List.map_filter_def)
qed

lemma drains:
  assumes "length q \<le> maxBatchSize * k" and "length q \<le> ExportChannelSize"
  shows "\<exists>batches. IngestEvents f (replicate (Suc k) (Tick [] True)) q = (batches, [], False) \<and>
    concat batches = List.map_filter f q \<and> (\<forall>b\<in>set batches. batch_ok b)"
  using assms
proof (induction k arbitrary: q)
  case 0
  then show ?case by (simp add: consumeFromChannel_def maxBatchSize_def List.map_filter_def)
next
  case (Suc k)
  obtain events opened q' where run: "consumeFromChannel f True (foldl (try_send ExportChannelSize) q []) = (events, opened, q')"
    by (metis prod.exhaust)
  have len: "length q + length [] \<le> ExportChannelSize" using Suc.prems(2) by simp
  note tick = tick_spec [OF len run]
  show ?case
  proof (cases opened)
    case True
    have "length q' \<le> maxBatchSize * k" "length q' \<le> ExportChannelSize" using tick Suc.prems by auto
    from Suc.IH [OF this] obtain batches where
      rest: "IngestEvents f (replicate (Suc k) (Tick [] True)) q' = (batches, [], False)"
        "concat batches = List.map_filter f q'" "\<forall>b\<in>set batches. batch_ok b" by blast
    have "IngestEvents f (replicate (Suc (Suc k)) (Tick [] True)) q = ((if events = [] then [] else [events]) @ batches, [], False)"
      using run rest(1) True by (subst replicate_Suc) (simp add: Let_def del: replicate_Suc)
    then show ?thesis using rest(2,3) tick by (auto simp: batch_ok_def)
  next
    case False
    have "IngestEvents f (replicate (Suc (Suc k)) (Tick [] True)) q = (if events = [] then [] else [events], q', False)"
      using run False by (subst replicate_Suc) (simp add: Let_def del: replicate_Suc)
    then show ?thesis using False tick by (auto simp: batch_ok_def List.map_filter_def)
  qed
qed

text \<open>Ticks of an open channel, followed by anything.\<close>

lemma open_ticks:
  assumes "\<forall>sent\<in>set sends. length sent \<le> maxBatchSize" and "length q + maxBatchSize \<le> ExportChannelSize"
  shows "\<exists>batches q'. concat batches @ List.map_filter f q' = List.map_filter f (q @ concat sends) \<and>
    (\<forall>b\<in>set batches. batch_ok b) \<and> length q' \<le> length q \<and>
    (\<forall>wakeups. IngestEvents f (map (\<lambda>sent. Tick sent False) sends @ wakeups) q =
       (case IngestEvents f wakeups q' of (final, q'', running) \<Rightarrow> (batches @ final, q'', running)))"
  using assms
proof (induction sends arbitrary: q)
  case Nil
  then show ?case by (intro exI [of _ "[]"] exI [of _ q]) simp
next
  case (Cons sent sends)
  obtain events opened q1 where run: "consumeFromChannel f False (foldl (try_send ExportChannelSize) q sent) = (events, opened, q1)"
    by (metis prod.exhaust)
  have len: "length q + length sent \<le> ExportChannelSize" using Cons.prems by simp
  note tick = tick_spec [OF len run]
  have "length q1 \<le> length q" using tick Cons.prems(1) by auto
  moreover from this have "length q1 + maxBatchSize \<le> ExportChannelSize" using Cons.prems(2) by simp
  from Cons.IH [OF _ this] Cons.prems(1) obtain batches q' where
    rest: "concat batches @ List.map_filter f q' = List.map_filter f (q1 @ concat sends)"
      "\<forall>b\<in>set batches. batch_ok b" "length q' \<le> length q1"
      "\<forall>wakeups. IngestEvents f (map (\<lambda>sent. Tick sent False) sends @ wakeups) q1 =
         (case IngestEvents f wakeups q' of (final, q'', running) \<Rightarrow> (batches @ final, q'', running))" by auto
  let ?batches = "(if events = [] then [] else [events]) @ batches"
  have "concat ?batches @ List.map_filter f q' = List.map_filter f (q @ concat (sent # sends))"
    using rest(1) tick by (auto simp: map_filter_append)
  moreover have "\<forall>b\<in>set ?batches. batch_ok b" using rest(2) tick by (auto simp: batch_ok_def)
  moreover have "IngestEvents f (map (\<lambda>sent. Tick sent False) (sent # sends) @ wakeups) q =
      (case IngestEvents f wakeups q' of (final, q'', running) \<Rightarrow> (?batches @ final, q'', running))" for wakeups
    using run rest(4) tick by (simp add: Let_def split: prod.split)
  ultimately show ?case using rest(3) by (intro exI [of _ ?batches] exI [of _ q']) auto
qed

text \<open>
  C10: what was sent is written or still in the channel.  The probes send no more than a batch per tick and
  the channel starts with room for one.  Then the records that \<^verbatim>\<open>ToRecord\<close> makes of the values sent, those
  it makes none of being skipped, are handed to the sink once and in order, in batches of at least one and
  at most 1024, except those of the values still in the channel, which never hold final than at the start.
  When the channel is closed, the loop writes what is left and ends, after one tick per batch left and one
  final.  When the context ends first, the loop ends at once, and what is in the channel then, with what
  was sent since the last tick, is never written.
\<close>

theorem records_written:
  assumes "\<forall>sent\<in>set sends. length sent \<le> maxBatchSize" and "length q + maxBatchSize \<le> ExportChannelSize"
    and "length q \<le> maxBatchSize * k" and "length late \<le> maxBatchSize"
  shows "\<exists>batches q' final. (\<forall>b\<in>set (batches @ final). batch_ok b) \<and> length q' \<le> length q \<and>
    concat batches @ List.map_filter f q' = List.map_filter f (q @ concat sends) \<and>
    concat (batches @ final) = List.map_filter f (q @ concat sends) \<and>
    IngestEvents f (map (\<lambda>sent. Tick sent False) sends) q = (batches, q', True) \<and>
    IngestEvents f (map (\<lambda>sent. Tick sent False) sends @ replicate (Suc k) (Tick [] True)) q = (batches @ final, [], False) \<and>
    IngestEvents f (map (\<lambda>sent. Tick sent False) sends @ [Done late]) q = (batches, q' @ late, False)"
proof -
  obtain batches q' where run: "concat batches @ List.map_filter f q' = List.map_filter f (q @ concat sends)"
    "\<forall>b\<in>set batches. batch_ok b" "length q' \<le> length q"
    "IngestEvents f (map (\<lambda>sent. Tick sent False) sends @ wakeups) q =
      (case IngestEvents f wakeups q' of (final, q'', running) \<Rightarrow> (batches @ final, q'', running))" for wakeups
    using open_ticks [OF assms(1,2), of f] by blast
  have q': "length q' \<le> maxBatchSize * k" "length q' \<le> ExportChannelSize" using run(3) assms(2,3) by simp_all
  then obtain final where final: "IngestEvents f (replicate (Suc k) (Tick [] True)) q' = (final, [], False)"
    "concat final = List.map_filter f q'" "\<forall>b\<in>set final. batch_ok b" using drains by blast
  have "foldl (try_send ExportChannelSize) q' late = q' @ late"
    using run(3) assms(2,4) by (intro sends_all) simp
  then show ?thesis
    using run(1-3) run(4) [of "[]"] run(4) [of "[Done late]"] run(4) [of "replicate (Suc k) (Tick [] True)"] final
    by (intro exI [of _ batches] exI [of _ q'] exI [of _ final]) (auto simp del: replicate_Suc)
qed

theorem records_written_witness:
  "IngestEvents Some [Tick [1, 2] False, Tick [] False, Tick [3] False, Tick [] True] ([] :: nat list) = ([[1, 2], [3]], [], False) \<and>
   IngestEvents Some [Tick [1, 2] False, Tick [] False, Tick [3] False, Done [4]] ([] :: nat list) = ([[1, 2], [3]], [4], False)"
proof -
  have m: "(1024 :: nat) \<le> ExportChannelSize" "maxBatchSize = 1024" by (simp_all add: ExportChannelSize_def maxBatchSize_def)
  have "\<exists>batches final. concat (batches @ final) = [1, 2, 3] \<and>
    IngestEvents Some [Tick [1, 2] False, Tick [] False, Tick [3] False, Tick [] True] ([] :: nat list) = (batches @ final, [], False) \<and>
    IngestEvents Some [Tick [1, 2] False, Tick [] False, Tick [3] False, Done [4]] ([] :: nat list) = (batches, [4], False)"
    using records_written [of "[[1, 2], [], [3]]" "[] :: nat list" 0 "[4]" Some] m
    by (auto simp: List.map_filter_def simp del: IngestEvents.simps)
  then show ?thesis by (auto simp: consumeFromChannel_def maxBatchSize_def ExportChannelSize_def)
qed

end
