(* ===== verification/Session_Pairs.thy ===== *)
theory Session_Pairs
  imports Go_Prelude "HOL-Library.Product_Lexorder"
begin

text \<open>
  The pairing of requests and responses in the list of the terminal interface (\<^verbatim>\<open>tui/pairs.go\<close>): each
  response is joined to the request of its session by a line in the margin, and lines that overlap
  are drawn in different columns.  Positions are natural numbers, since they are indices of the list
  of records; an index outside of a slice is \<open>None\<close>, a panic.
\<close>

section \<open>Data\<close>

text \<open>The two fields of \<^verbatim>\<open>displayRecord\<close> that the pairing reads.\<close>

record displayRecord =
  Endpoint :: bytes
  SessionKey :: bytes

datatype pairLinkKind = pairLinkNone | pairLinkDot | pairLinkPipe

record pairInterval =
  Start :: nat
  End :: nat
  Level :: nat

type_synonym pairLineAnnotation = "pairLinkKind list"

section \<open>Pairing\<close>

text \<open>The first loop of \<^verbatim>\<open>buildSessionPairs\<close>; \<open>m\<close> is \<^verbatim>\<open>requestsBySession\<close>.\<close>

fun collect_pairs ::
  "nat \<Rightarrow> displayRecord list \<Rightarrow> (bytes \<Rightarrow> nat option) \<Rightarrow> pairInterval list \<Rightarrow> pairInterval list" where
  "collect_pairs idx [] m pairs = pairs"
| "collect_pairs idx (record # records) m pairs =
     (if SessionKey record = [] then collect_pairs (idx + 1) records m pairs
      else if Endpoint record = str ''http_request'' then
        collect_pairs (idx + 1) records (m(SessionKey record \<mapsto> idx)) pairs
      else if Endpoint record = str ''http_response'' then
        (case m (SessionKey record) of
           None \<Rightarrow> collect_pairs (idx + 1) records m pairs
         | Some start \<Rightarrow>
             if idx \<le> start then collect_pairs (idx + 1) records m pairs
             else collect_pairs (idx + 1) records (m(SessionKey record := None))
               (pairs @ [\<lparr>Start = start, End = idx, Level = 0\<rparr>]))
      else collect_pairs (idx + 1) records m pairs)"

text \<open>
  \<^verbatim>\<open>sort.Slice\<close> with the comparison of the source; that no two pairs compare equal, so that the result
  does not depend on the sorting algorithm, is part of \<open>collected_pairs\<close> below.
\<close>

definition sort_pairs :: "pairInterval list \<Rightarrow> pairInterval list" where
  "sort_pairs pairs = sort_key (\<lambda>p. (Start p, End p)) pairs"

fun find_level :: "nat list \<Rightarrow> nat \<Rightarrow> nat" where
  "find_level [] start = 0"
| "find_level (e # activeEnds) start = (if e < start then 0 else Suc (find_level activeEnds start))"

fun assign_levels :: "pairInterval list \<Rightarrow> nat list \<Rightarrow> nat \<Rightarrow> pairInterval list \<times> nat" where
  "assign_levels [] activeEnds maxLevel = ([], maxLevel)"
| "assign_levels (p # pairs) activeEnds maxLevel =
     (let level = find_level activeEnds (Start p);
          activeEnds = (if level = length activeEnds then activeEnds @ [End p] else activeEnds[level := End p]);
          maxLevel = (if maxLevel < level + 1 then level + 1 else maxLevel)
      in case assign_levels pairs activeEnds maxLevel of (ps, n) \<Rightarrow> (p\<lparr>Level := level\<rparr> # ps, n))"

definition buildSessionPairs :: "displayRecord list \<Rightarrow> pairInterval list \<times> nat" where
  "buildSessionPairs records =
     (let pairs = collect_pairs 0 records Map.empty []
      in if pairs = [] then ([], 0) else assign_levels (sort_pairs pairs) [] 0)"

section \<open>Drawing\<close>

definition mark_line :: "nat \<Rightarrow> pairInterval \<Rightarrow> nat \<Rightarrow> pairLineAnnotation list \<Rightarrow> pairLineAnnotation list option" where
  "mark_line start p idx annotations =
     (if idx < start \<or> length annotations \<le> idx - start then None
      else let line = annotations ! (idx - start) in
        if length line \<le> Level p then None
        else Some (annotations[idx - start :=
          line[Level p := if idx = Start p \<or> idx = End p then pairLinkDot else pairLinkPipe]]))"

function mark_lines ::
  "nat \<Rightarrow> pairInterval \<Rightarrow> nat \<Rightarrow> nat \<Rightarrow> pairLineAnnotation list \<Rightarrow> pairLineAnnotation list option" where
  "mark_lines start p idx lineEnd annotations =
     (if lineEnd < idx then Some annotations
      else case mark_line start p idx annotations of None \<Rightarrow> None
        | Some annotations \<Rightarrow> mark_lines start p (idx + 1) lineEnd annotations)"
  by pat_completeness auto
termination by (relation "measure (\<lambda>(start, p, idx, lineEnd, as). Suc lineEnd - idx)") auto

declare mark_lines.simps [simp del]

fun draw_pairs ::
  "nat \<Rightarrow> nat \<Rightarrow> pairInterval list \<Rightarrow> pairLineAnnotation list \<Rightarrow> pairLineAnnotation list option" where
  "draw_pairs start end [] annotations = Some annotations"
| "draw_pairs start end (p # pairs) annotations =
     (if end \<le> Start p then Some annotations
      else if End p < start then draw_pairs start end pairs annotations
      else case mark_lines start p (max start (Start p)) (min (end - 1) (End p)) annotations of None \<Rightarrow> None
        | Some annotations \<Rightarrow> draw_pairs start end pairs annotations)"

definition buildVisiblePairAnnotations ::
  "nat \<Rightarrow> nat \<Rightarrow> pairInterval list \<Rightarrow> nat \<Rightarrow> pairLineAnnotation list option" where
  "buildVisiblePairAnnotations start end pairs maxLevel =
     (if pairs = [] \<or> maxLevel = 0 \<or> end \<le> start then Some (replicate (end - start) [])
      else draw_pairs start end pairs (replicate (end - start) (replicate maxLevel pairLinkNone)))"

section \<open>Which pairs are found\<close>

definition is_request :: "bytes \<Rightarrow> displayRecord \<Rightarrow> bool" where
  "is_request k r \<longleftrightarrow> SessionKey r = k \<and> Endpoint r = str ''http_request''"

definition is_response :: "bytes \<Rightarrow> displayRecord \<Rightarrow> bool" where
  "is_response k r \<longleftrightarrow> SessionKey r = k \<and> Endpoint r = str ''http_response''"

text \<open>The last record of a session before a position is a request.\<close>

definition open_request :: "displayRecord list \<Rightarrow> nat \<Rightarrow> bytes \<Rightarrow> nat \<Rightarrow> bool" where
  "open_request records idx k s \<longleftrightarrow> s < idx \<and> k \<noteq> [] \<and> is_request k (records ! s) \<and>
     (\<forall>i. s < i \<and> i < idx \<longrightarrow> \<not> is_request k (records ! i) \<and> \<not> is_response k (records ! i))"

definition answered :: "displayRecord list \<Rightarrow> nat \<Rightarrow> nat \<Rightarrow> bool" where
  "answered records s e \<longleftrightarrow> (\<exists>k. open_request records e k s \<and> is_response k (records ! e))"

lemma request_not_response [simp]: "is_request k r \<Longrightarrow> \<not> is_response k' r"
  by (auto simp: is_request_def is_response_def byte_of_char_def bytes_of_string_def)

lemma open_request_unique: "open_request records idx k s \<Longrightarrow> open_request records idx k s' \<Longrightarrow> s = s'"
  by (metis open_request_def nat_neq_iff)

lemma open_request_Suc:
  "open_request records (Suc idx) k s \<longleftrightarrow>
     (k \<noteq> [] \<and> is_request k (records ! idx) \<and> s = idx) \<or>
     (open_request records idx k s \<and> \<not> is_request k (records ! idx) \<and> \<not> is_response k (records ! idx))"
  unfolding open_request_def using less_Suc_eq by (auto simp: less_Suc_eq)

lemma answered_unique: "answered records s e \<Longrightarrow> answered records s e' \<Longrightarrow> e = e'"
  unfolding answered_def open_request_def is_request_def by (metis is_response_def nat_neq_iff)

definition collected :: "displayRecord list \<Rightarrow> nat \<Rightarrow> (bytes \<Rightarrow> nat option) \<Rightarrow> pairInterval list \<Rightarrow> bool" where
  "collected records idx m pairs \<longleftrightarrow>
     (\<forall>k s. m k = Some s \<longleftrightarrow> open_request records idx k s) \<and>
     (\<forall>s e. (s, e) \<in> (\<lambda>p. (Start p, End p)) ` set pairs \<longleftrightarrow> e < idx \<and> answered records s e) \<and>
     distinct (map End pairs)"

lemma answered_here:
  assumes "is_response k (records ! idx)"
  shows "answered records s idx \<longleftrightarrow> open_request records idx k s"
  using assms by (auto simp: answered_def is_response_def)

lemma collected_skip:
  assumes "collected records idx m pairs"
    and "\<And>k. k \<noteq> [] \<Longrightarrow> \<not> is_request k (records ! idx) \<and> \<not> is_response k (records ! idx)"
  shows "collected records (Suc idx) m pairs"
proof -
  have none: "\<not> is_request k (records ! idx) \<and> \<not> is_response k (records ! idx)" if "open_request records idx k s" for k s
    using that assms(2) by (simp add: open_request_def)
  have "\<not> answered records s idx" for s
    using none by (auto simp: answered_def)
  moreover have "open_request records (Suc idx) k s \<longleftrightarrow> open_request records idx k s" for k s
    using none [of k s] assms(2) [of k] by (simp add: open_request_Suc) blast
  ultimately show ?thesis using assms(1) by (simp add: collected_def less_Suc_eq) blast
qed

lemma collected_request:
  assumes "collected records idx m pairs" and "k \<noteq> []" and "is_request k (records ! idx)"
  shows "collected records (Suc idx) (m(k \<mapsto> idx)) pairs"
proof -
  have other: "is_request k' (records ! idx) \<longleftrightarrow> k' = k" for k' using assms(3) by (auto simp: is_request_def)
  have resp: "\<not> is_response k' (records ! idx)" for k' using assms(3) by simp
  have "\<not> answered records s idx" for s using resp by (simp add: answered_def)
  then show ?thesis
    using assms(1,2) unfolding collected_def open_request_Suc less_Suc_eq other by (auto simp: resp)
qed

lemma collected_orphan:
  assumes "collected records idx m pairs" and "is_response k (records ! idx)" and "m k = None"
  shows "collected records (Suc idx) m pairs"
proof -
  have none: "\<not> open_request records idx k s" for s using assms(1,3) unfolding collected_def by (metis option.distinct(1))
  have other: "is_response k' (records ! idx) \<longleftrightarrow> k' = k" for k' using assms(2) by (auto simp: is_response_def)
  have req: "\<not> is_request k' (records ! idx)" for k' using assms(2) request_not_response by blast
  have "\<not> answered records s idx" for s using none answered_here [OF assms(2)] by simp
  moreover have "open_request records (Suc idx) k' s \<longleftrightarrow> open_request records idx k' s" for k' s
    using none by (auto simp: open_request_Suc other req)
  ultimately show ?thesis using assms(1) unfolding collected_def less_Suc_eq by auto
qed

lemma collected_response:
  assumes "collected records idx m pairs" and "is_response k (records ! idx)" and "m k = Some start"
  shows "start < idx \<and> collected records (Suc idx) (m(k := None)) (pairs @ [\<lparr>Start = start, End = idx, Level = 0\<rparr>])"
proof -
  let ?new = "pairs @ [\<lparr>Start = start, End = idx, Level = 0\<rparr>]" and ?ends = "\<lambda>p. (Start p, End p)"
  have col: "\<And>k s. m k = Some s \<longleftrightarrow> open_request records idx k s"
    "\<And>s e. (s, e) \<in> ?ends ` set pairs \<longleftrightarrow> e < idx \<and> answered records s e" "distinct (map End pairs)"
    using assms(1) by (simp_all add: collected_def)
  have op: "open_request records idx k s \<longleftrightarrow> s = start" for s
    using col(1) [of k s] assms(3) by auto
  have other: "is_response k' (records ! idx) \<longleftrightarrow> k' = k" for k' using assms(2) by (auto simp: is_response_def)
  have req: "\<not> is_request k' (records ! idx)" for k' using assms(2) request_not_response by blast
  have "(m(k := None)) k' = Some s \<longleftrightarrow> open_request records (Suc idx) k' s" for k' s
    by (simp add: open_request_Suc other req col(1))
  moreover have "(s, e) \<in> ?ends ` set ?new \<longleftrightarrow> e < Suc idx \<and> answered records s e" for s e
  proof -
    have "(s, e) \<in> ?ends ` set ?new \<longleftrightarrow> (s, e) \<in> ?ends ` set pairs \<or> s = start \<and> e = idx" by auto
    then show ?thesis using op [of s] answered_here [OF assms(2), of s] by (auto simp: col(2) less_Suc_eq)
  qed
  moreover have "distinct (map End ?new)" using col(3) col(2) by fastforce
  moreover have "start < idx" using op [of start] by (simp add: open_request_def)
  ultimately show ?thesis by (simp only: collected_def simp_thms)
qed

lemma collect_pairs_spec:
  assumes "records = pre @ rs" and "collected records (length pre) m pairs"
  shows "\<exists>m'. collected records (length records) m' (collect_pairs (length pre) rs m pairs)"
  using assms
proof (induction rs arbitrary: pre m pairs)
  case Nil
  then show ?case by auto
next
  case (Cons r rs)
  have r: "records ! length pre = r" and split: "records = (pre @ [r]) @ rs" using Cons.prems(1) by auto
  note col = Cons.prems(2)
  have IH: "\<exists>m'. collected records (length records) m' (collect_pairs (Suc (length pre)) rs m pairs)"
    if "collected records (Suc (length pre)) m pairs" for m pairs
    using Cons.IH [OF split, of m pairs] that by simp
  consider "\<And>k. k \<noteq> [] \<Longrightarrow> \<not> is_request k r \<and> \<not> is_response k r" | "SessionKey r \<noteq> []" "is_request (SessionKey r) r"
    | "SessionKey r \<noteq> []" "is_response (SessionKey r) r"
    by (cases "SessionKey r = []") (auto simp: is_request_def is_response_def)
  then show ?case
  proof cases
    case 1
    then have "collect_pairs (length pre) (r # rs) m pairs = collect_pairs (Suc (length pre)) rs m pairs"
      by (cases "SessionKey r = []") (auto simp: is_request_def is_response_def)
    then show ?thesis using IH [of m pairs] collected_skip [OF col] 1 r by simp
  next
    case 2
    then have "collect_pairs (length pre) (r # rs) m pairs =
        collect_pairs (Suc (length pre)) rs (m(SessionKey r \<mapsto> length pre)) pairs"
      by (simp add: is_request_def)
    then show ?thesis using IH collected_request [OF col 2(1)] 2(2) r by simp
  next
    case 3
    note resp = 3(2) [unfolded is_response_def]
    have ne: "Endpoint r \<noteq> str ''http_request''" using 3(2) request_not_response by (auto simp: is_request_def)
    show ?thesis
    proof (cases "m (SessionKey r)")
      case None
      then show ?thesis using IH [of m pairs] collected_orphan [OF col _ None] 3 resp ne r by simp
    next
      case (Some start)
      have "is_response (SessionKey r) (records ! length pre)" using 3 r by simp
      note step = collected_response [OF col this Some]
      then show ?thesis using IH [OF conjunct2 [OF step]] Some 3 resp ne by simp
    qed
  qed
qed

text \<open>The pairs are those of a request and the response that answers it, and no two start at the same record.\<close>

lemma collected_pairs:
  fixes records :: "displayRecord list"
  defines "pairs \<equiv> collect_pairs 0 records Map.empty []"
  shows "(\<lambda>p. (Start p, End p)) ` set pairs = {(s, e). e < length records \<and> answered records s e}"
    and "distinct (map Start pairs)" and "\<forall>p\<in>set pairs. Start p < End p"
proof -
  have "collected records (length ([] :: displayRecord list)) Map.empty []"
    by (simp add: collected_def open_request_def)
  from collect_pairs_spec [OF _ this] obtain m where col: "collected records (length records) m pairs"
    unfolding pairs_def by auto
  then show set: "(\<lambda>p. (Start p, End p)) ` set pairs = {(s, e). e < length records \<and> answered records s e}"
    unfolding collected_def by (intro set_eqI) (simp add: split_paired_all)
  have ans: "answered records (Start p) (End p)" if "p \<in> set pairs" for p
  proof -
    have "(Start p, End p) \<in> (\<lambda>p. (Start p, End p)) ` set pairs" using that by (rule imageI)
    then show ?thesis unfolding set by simp
  qed
  then show "\<forall>p\<in>set pairs. Start p < End p" by (auto simp: answered_def open_request_def)
  have inj: "inj_on End (set pairs)" "distinct pairs" using col by (simp_all add: collected_def distinct_map)
  have "p = q" if "p \<in> set pairs" "q \<in> set pairs" "Start p = Start q" for p q
  proof (rule inj_onD [OF inj(1) _ that(1,2)])
    show "End p = End q" using ans [OF that(1)] ans [OF that(2)] that(3) by (auto intro: answered_unique)
  qed
  then show "distinct (map Start pairs)" using inj(2) by (auto simp: distinct_map intro: inj_onI)
qed

lemma sort_pairs_starts:
  assumes "distinct (map Start pairs)"
  shows "sorted_wrt (\<lambda>p q. Start p < Start q) (sort_pairs pairs)" and "set (sort_pairs pairs) = set pairs"
proof -
  let ?ps = "sort_pairs pairs"
  have "sorted (map (\<lambda>p. (Start p, End p)) ?ps)" unfolding sort_pairs_def by (rule sorted_sort_key)
  then have le: "sorted_wrt (\<lambda>p q. Start p \<le> Start q) ?ps"
    unfolding sorted_map by (rule sorted_wrt_mono_rel [rotated]) (auto simp: less_eq_prod_def)
  show set: "set ?ps = set pairs" by (simp add: sort_pairs_def)
  have "distinct (map Start ?ps)" using assms by (simp add: distinct_map sort_pairs_def)
  moreover have "sorted (map Start ?ps)" using le by (simp add: sorted_map)
  ultimately have "sorted_wrt (<) (map Start ?ps)" by (intro iffD2 [OF strict_sorted_iff] conjI)
  then show "sorted_wrt (\<lambda>p q. Start p < Start q) ?ps" by (simp add: sorted_wrt_map)
qed

section \<open>Columns\<close>

definition covers :: "pairInterval \<Rightarrow> nat \<Rightarrow> bool" where
  "covers p t \<longleftrightarrow> Start p \<le> t \<and> t \<le> End p"

text \<open>
  What the loop over the levels maintains for the pairs \<open>D\<close> it has placed: the columns in use are those
  of \<open>ends\<close>, each holds the last end in its column, no two pairs of a column meet, and when a pair was
  placed every column before its own was taken by a pair that covers its start.
\<close>

definition placed :: "pairInterval set \<Rightarrow> nat list \<Rightarrow> bool" where
  "placed D ends \<longleftrightarrow>
     (\<forall>l < length ends. \<exists>q\<in>D. Level q = l \<and> End q = ends ! l) \<and>
     (\<forall>q\<in>D. Level q < length ends \<and> End q \<le> ends ! Level q) \<and>
     (\<forall>p\<in>D. \<forall>q\<in>D. p \<noteq> q \<and> Level p = Level q \<longrightarrow> End p < Start q \<or> End q < Start p) \<and>
     (\<forall>q\<in>D. \<forall>l \<le> Level q. \<exists>r\<in>D. Level r = l \<and> covers r (Start q))"

lemma placedI:
  assumes "\<And>l. l < length ends \<Longrightarrow> \<exists>q\<in>D. Level q = l \<and> End q = ends ! l"
    and "\<And>q. q \<in> D \<Longrightarrow> Level q < length ends \<and> End q \<le> ends ! Level q"
    and "\<And>p q. p \<in> D \<Longrightarrow> q \<in> D \<Longrightarrow> p \<noteq> q \<Longrightarrow> Level p = Level q \<Longrightarrow> End p < Start q \<or> End q < Start p"
    and "\<And>q l. q \<in> D \<Longrightarrow> l \<le> Level q \<Longrightarrow> \<exists>r\<in>D. Level r = l \<and> covers r (Start q)"
  shows "placed D ends"
  using assms by (simp add: placed_def)

lemma placedD:
  assumes "placed D ends"
  shows "\<And>l. l < length ends \<Longrightarrow> \<exists>q\<in>D. Level q = l \<and> End q = ends ! l"
    and "\<And>q. q \<in> D \<Longrightarrow> Level q < length ends \<and> End q \<le> ends ! Level q"
    and "\<And>p q. p \<in> D \<Longrightarrow> q \<in> D \<Longrightarrow> p \<noteq> q \<Longrightarrow> Level p = Level q \<Longrightarrow> End p < Start q \<or> End q < Start p"
    and "\<And>q l. q \<in> D \<Longrightarrow> l \<le> Level q \<Longrightarrow> \<exists>r\<in>D. Level r = l \<and> covers r (Start q)"
  using assms by (simp_all add: placed_def)

lemma find_level_spec:
  "find_level ends t \<le> length ends \<and> (\<forall>l < find_level ends t. t \<le> ends ! l) \<and>
     (find_level ends t < length ends \<longrightarrow> ends ! find_level ends t < t)"
  by (induction ends) (auto simp: nth_Cons split: nat.split)

lemma placed_step:
  assumes "placed D ends" and "\<forall>q\<in>D. Start q < Start p" and "Start p < End p"
  defines "k \<equiv> find_level ends (Start p)"
  shows "placed (insert (p\<lparr>Level := k\<rparr>) D) (if k = length ends then ends @ [End p] else ends[k := End p])"
proof -
  define E where "E = (if k = length ends then ends @ [End p] else ends[k := End p])"
  define P where "P = p\<lparr>Level := k\<rparr>"
  have P: "Start P = Start p" "End P = End p" "Level P = k" by (simp_all add: P_def)
  have k: "k \<le> length ends" "\<And>l. l < k \<Longrightarrow> Start p \<le> ends ! l" "k < length ends \<Longrightarrow> ends ! k < Start p"
    using find_level_spec [of ends "Start p"] unfolding k_def by auto
  have len: "length E = max (length ends) (Suc k)" using k(1) by (auto simp: E_def)
  have at: "E ! l = (if l = k then End p else ends ! l)" if "l < length E" for l
    using that k(1) by (auto simp: E_def nth_append)
  note D = placedD [OF assms(1)]
  have before: "End q < Start p" if "q \<in> D" "Level q = k" for q
    using D(2) [OF that(1)] that(2) k(3) by force
  have "placed (insert P D) E"
  proof (rule placedI)
    fix l assume "l < length E"
    then show "\<exists>q\<in>insert P D. Level q = l \<and> End q = E ! l"
      using D(1) [of l] len at [of l] k(1) P by (cases "l = k") auto
  next
    fix q assume q: "q \<in> insert P D"
    show "Level q < length E \<and> End q \<le> E ! Level q"
    proof (cases "q = P")
      case True
      then show ?thesis using len at [of k] P by simp
    next
      case False
      then have "q \<in> D" using q by simp
      note here = D(2) [OF this] before [OF this]
      then have "Level q < length E" using len by linarith
      from at [OF this] this here assms(3) show ?thesis by (cases "Level q = k") simp_all
    qed
  next
    fix x y assume "x \<in> insert P D" "y \<in> insert P D" "x \<noteq> y" "Level x = Level y"
    then show "End x < Start y \<or> End y < Start x" using D(3) [of x y] before [of x] before [of y] P by auto
  next
    fix q l assume q: "q \<in> insert P D" "l \<le> Level q"
    consider "q \<in> D" | "q = P" "l = k" | "q = P" "l < k" using q P(3) by force
    then show "\<exists>r\<in>insert P D. Level r = l \<and> covers r (Start q)"
    proof cases
      case 1
      then show ?thesis using q(2) D(4) [of q l] by auto
    next
      case 2
      then show ?thesis using assms(3) P by (simp add: covers_def)
    next
      case 3
      then obtain r where "r \<in> D" "Level r = l" "End r = ends ! l" using D(1) [of l] k(1) by auto
      then show ?thesis using 3(1) P(1) assms(2) k(2) [OF 3(2)] by (intro bexI [of _ r]) (auto simp: covers_def)
    qed
  qed
  then show ?thesis by (simp only: P_def E_def)
qed

lemma assign_levels_spec:
  assumes "placed D ends" and "sorted_wrt (\<lambda>p q. Start p < Start q) ps" and "\<forall>p\<in>set ps. Start p < End p"
    and "\<forall>q\<in>D. \<forall>p\<in>set ps. Start q < Start p" and "n = length ends"
  shows "\<exists>ps' ends'. assign_levels ps ends n = (ps', length ends') \<and> placed (D \<union> set ps') ends' \<and>
    map (\<lambda>p. (Start p, End p)) ps' = map (\<lambda>p. (Start p, End p)) ps"
  using assms
proof (induction ps arbitrary: D ends n)
  case Nil
  then show ?case by auto
next
  case (Cons p ps)
  let ?k = "find_level ends (Start p)"
  let ?ends = "if ?k = length ends then ends @ [End p] else ends[?k := End p]"
  let ?D = "insert (p\<lparr>Level := ?k\<rparr>) D"
  have "placed ?D ?ends" using Cons.prems by (intro placed_step) auto
  moreover have "\<forall>q\<in>?D. \<forall>p\<in>set ps. Start q < Start p" using Cons.prems(2,4) by auto
  moreover have n: "(if n < ?k + 1 then ?k + 1 else n) = length ?ends"
    using find_level_spec [of ends "Start p"] Cons.prems(5) by auto
  ultimately obtain ps' ends' where "assign_levels ps ?ends (length ?ends) = (ps', length ends')"
    "placed (?D \<union> set ps') ends'" "map (\<lambda>p. (Start p, End p)) ps' = map (\<lambda>p. (Start p, End p)) ps"
    using Cons.IH [of ?D ?ends "length ?ends"] Cons.prems(2,3) by auto
  then show ?case
    using n by (intro exI [of _ "p\<lparr>Level := ?k\<rparr> # ps'"] exI [of _ ends']) (simp add: Let_def del: if_split)
qed

lemma session_pairs_placed:
  assumes "buildSessionPairs records = (pairs, n)"
  shows "\<exists>ends. n = length ends \<and> placed (set pairs) ends"
    and "sorted_wrt (\<lambda>p q. Start p < Start q) pairs" and "\<forall>p\<in>set pairs. Start p < End p"
    and "(\<lambda>p. (Start p, End p)) ` set pairs = {(s, e). e < length records \<and> answered records s e}"
proof -
  let ?c = "collect_pairs 0 records Map.empty []" and ?f = "\<lambda>p. (Start p, End p)"
  note col = collected_pairs [of records]
  note sorted = sort_pairs_starts [OF col(2)]
  have "placed {} []" "\<forall>p\<in>set (sort_pairs ?c). Start p < End p" using col(3) sorted(2) by (simp_all add: placed_def)
  moreover have "\<forall>q\<in>{}. \<forall>p\<in>set (sort_pairs ?c). Start q < Start p" by simp
  ultimately have "\<exists>ps ends. assign_levels (sort_pairs ?c) [] 0 = (ps, length ends) \<and> placed ({} \<union> set ps) ends \<and>
      map ?f ps = map ?f (sort_pairs ?c)"
    using assign_levels_spec [OF _ sorted(1) _ _ list.size(3) [symmetric]] by blast
  then obtain ps ends where
    ps: "assign_levels (sort_pairs ?c) [] 0 = (ps, length ends)" "placed ({} \<union> set ps) ends" "map ?f ps = map ?f (sort_pairs ?c)"
    by (elim exE conjE) (rule that)
  have "buildSessionPairs records = (ps, length ends)"
    using ps(1) by (cases "?c = []") (simp_all add: buildSessionPairs_def sort_pairs_def Let_def)
  then have eq: "pairs = ps" "n = length ends" using assms by simp_all
  then show "\<exists>ends. n = length ends \<and> placed (set pairs) ends" using ps(2) by auto
  have "map fst (map ?f ps) = map fst (map ?f (sort_pairs ?c))" by (simp only: ps(3))
  then have "map Start ps = map Start (sort_pairs ?c)" by (simp add: comp_def)
  moreover have "sorted_wrt (<) (map Start (sort_pairs ?c))" using sorted(1) by (simp add: sorted_wrt_map)
  ultimately have "sorted_wrt (<) (map Start pairs)" by (simp only: eq(1))
  then show "sorted_wrt (\<lambda>p q. Start p < Start q) pairs" by (simp add: sorted_wrt_map)
  have "set (map ?f ps) = set (map ?f (sort_pairs ?c))" by (simp only: ps(3))
  then have img: "?f ` set pairs = ?f ` set ?c" by (simp only: set_map sorted(2) eq(1))
  then show "?f ` set pairs = {(s, e). e < length records \<and> answered records s e}" by (simp only: col(1))
  show "\<forall>p\<in>set pairs. Start p < End p"
  proof
    fix p assume "p \<in> set pairs"
    then have "?f p \<in> ?f ` set pairs" by (rule imageI)
    then show "Start p < End p" unfolding img using col(3) by auto
  qed
qed

text \<open>
  C12: the pairs are right and drawn in as few columns as possible.  The list holds exactly the pairs of a
  request and the response of its session that follows it with no other request or response of the
  session between them.  Two pairs in one column never meet, and the number of columns is the largest
  number of pairs that cover one record.
\<close>

theorem columns_optimal:
  assumes "buildSessionPairs records = (pairs, n)"
  shows "(\<lambda>p. (Start p, End p)) ` set pairs = {(s, e). e < length records \<and> answered records s e} \<and>
    (\<forall>p\<in>set pairs. \<forall>q\<in>set pairs. p \<noteq> q \<and> Level p = Level q \<longrightarrow> End p < Start q \<or> End q < Start p) \<and>
    (\<forall>t. card {p \<in> set pairs. covers p t} \<le> n) \<and> (\<exists>t. card {p \<in> set pairs. covers p t} = n)"
proof -
  obtain ends where n: "n = length ends" and pl: "placed (set pairs) ends" using session_pairs_placed(1) [OF assms] by auto
  note pl = placedD [OF pl, folded n]
  have apart: "\<forall>p\<in>set pairs. \<forall>q\<in>set pairs. p \<noteq> q \<and> Level p = Level q \<longrightarrow> End p < Start q \<or> End q < Start p"
    by (intro ballI impI; elim conjE; rule pl(3))
  have few: "card {p \<in> set pairs. covers p t} \<le> n" for t
  proof -
    have "inj_on Level {p \<in> set pairs. covers p t}"
    proof (rule inj_onI, rule ccontr)
      fix p q assume "p \<in> {p \<in> set pairs. covers p t}" "q \<in> {p \<in> set pairs. covers p t}" "Level p = Level q" "p \<noteq> q"
      then show False using pl(3) [of p q] by (simp add: covers_def)
    qed
    moreover have "Level ` {p \<in> set pairs. covers p t} \<subseteq> {..<n}" using pl(2) by auto
    ultimately show ?thesis using card_inj_on_le [of Level _ "{..<n}"] by simp
  qed
  have "\<exists>t. n \<le> card {p \<in> set pairs. covers p t}"
  proof (cases n)
    case (Suc m)
    then obtain q where q: "q \<in> set pairs" "Level q = m" using pl(1) [of m] by auto
    have "{..<n} \<subseteq> Level ` {p \<in> set pairs. covers p (Start q)}"
    proof
      fix l assume "l \<in> {..<n}"
      then obtain r where "r \<in> set pairs" "Level r = l" "covers r (Start q)" using pl(4) [OF q(1), of l] Suc q(2) by auto
      then show "l \<in> Level ` {p \<in> set pairs. covers p (Start q)}" by auto
    qed
    from surj_card_le [OF _ this] show ?thesis by auto
  qed simp
  then obtain t where "card {p \<in> set pairs. covers p t} = n" using few order_antisym by blast
  then show ?thesis using session_pairs_placed(4) [OF assms] apart few by (intro conjI allI exI [of _ t]) simp_all
qed

definition demo_exchange :: "displayRecord list" where
  "demo_exchange = [\<lparr>Endpoint = str ''http_request'', SessionKey = [1]\<rparr>, \<lparr>Endpoint = str ''http_request'', SessionKey = [2]\<rparr>,
     \<lparr>Endpoint = str ''exec_event'', SessionKey = []\<rparr>, \<lparr>Endpoint = str ''http_response'', SessionKey = [2]\<rparr>,
     \<lparr>Endpoint = str ''http_response'', SessionKey = [1]\<rparr>]"

lemma demo_exchange_pairs:
  "buildSessionPairs demo_exchange = ([\<lparr>Start = 0, End = 4, Level = 0\<rparr>, \<lparr>Start = 1, End = 3, Level = 1\<rparr>], 2)"
  by code_simp

theorem columns_optimal_witness:
  "answered demo_exchange 1 3 \<and> card {p \<in> {\<lparr>Start = 0, End = 4, Level = 0\<rparr>, \<lparr>Start = 1, End = 3, Level = 1\<rparr>}. covers p 2} \<le> 2"
  using columns_optimal [OF demo_exchange_pairs] by (auto simp: set_eq_iff)

section \<open>What is drawn\<close>

definition cell :: "nat \<Rightarrow> pairLineAnnotation list \<Rightarrow> nat \<Rightarrow> nat \<Rightarrow> pairLinkKind" where
  "cell start annotations i j = annotations ! (i - start) ! j"

definition grid :: "nat \<Rightarrow> nat \<Rightarrow> nat \<Rightarrow> pairLineAnnotation list \<Rightarrow> bool" where
  "grid start end n annotations \<longleftrightarrow> length annotations = end - start \<and> (\<forall>line\<in>set annotations. length line = n)"

definition link_at :: "pairInterval \<Rightarrow> nat \<Rightarrow> pairLinkKind" where
  "link_at p i = (if i = Start p \<or> i = End p then pairLinkDot else pairLinkPipe)"

lemma mark_line_spec:
  assumes "grid start end n as" and "Level p < n" and "start \<le> idx" and "idx < end"
  shows "\<exists>as'. mark_line start p idx as = Some as' \<and> grid start end n as' \<and>
    (\<forall>i j. start \<le> i \<and> i < end \<and> j < n \<longrightarrow>
       cell start as' i j = (if i = idx \<and> j = Level p then link_at p idx else cell start as i j))"
proof -
  let ?line = "as ! (idx - start)"
  let ?as' = "as[idx - start := ?line[Level p := link_at p idx]]"
  have in_range: "idx - start < length as" and len: "length ?line = n"
    using assms unfolding grid_def by auto
  have "mark_line start p idx as = Some ?as'"
    using assms(2,3) in_range len by (simp add: mark_line_def Let_def link_at_def)
  moreover have "grid start end n ?as'"
    using assms(1) len by (auto simp: grid_def dest!: subsetD [OF set_update_subset_insert])
  moreover have "cell start ?as' i j = (if i = idx \<and> j = Level p then link_at p idx else cell start as i j)"
    if "start \<le> i" for i j
  proof (cases "i = idx")
    case True
    then show ?thesis using in_range len assms(2) by (cases "j = Level p") (simp_all add: cell_def)
  next
    case False
    then have "i - start \<noteq> idx - start" using that assms(3) by linarith
    then show ?thesis using False by (simp add: cell_def)
  qed
  ultimately show ?thesis by (intro exI [of _ ?as'] conjI allI impI) simp_all
qed

lemma mark_lines_spec:
  assumes "grid start end n as" and "Level p < n" and "start \<le> idx" and "lineEnd < end"
  shows "\<exists>as'. mark_lines start p idx lineEnd as = Some as' \<and> grid start end n as' \<and>
    (\<forall>i j. start \<le> i \<and> i < end \<and> j < n \<longrightarrow>
       cell start as' i j = (if idx \<le> i \<and> i \<le> lineEnd \<and> j = Level p then link_at p i else cell start as i j))"
  using assms
proof (induction "Suc lineEnd - idx" arbitrary: idx as)
  case 0
  then show ?case by (subst mark_lines.simps) auto
next
  case (Suc m)
  have idx: "idx < end" "m = Suc lineEnd - Suc idx" "start \<le> Suc idx" using Suc.prems(3,4) Suc.hyps(2) by auto
  from mark_line_spec [OF Suc.prems(1,2,3) idx(1)] obtain as1 where
    as1: "mark_line start p idx as = Some as1" "grid start end n as1"
    "\<forall>i j. start \<le> i \<and> i < end \<and> j < n \<longrightarrow>
       cell start as1 i j = (if i = idx \<and> j = Level p then link_at p idx else cell start as i j)"
    by (elim exE conjE) (rule that)
  from Suc.hyps(1) [OF idx(2) as1(2) Suc.prems(2) idx(3) Suc.prems(4)] obtain as2 where
    as2: "mark_lines start p (Suc idx) lineEnd as1 = Some as2" "grid start end n as2"
    "\<forall>i j. start \<le> i \<and> i < end \<and> j < n \<longrightarrow>
       cell start as2 i j = (if Suc idx \<le> i \<and> i \<le> lineEnd \<and> j = Level p then link_at p i else cell start as1 i j)"
    by (elim exE conjE) (rule that)
  have "mark_lines start p idx lineEnd as = Some as2"
    using as1(1) as2(1) Suc.hyps(2) by (subst mark_lines.simps) auto
  then show ?case using as2(2,3) as1(3) Suc.hyps(2) by (auto simp: le_eq_less_or_eq)
qed

definition drawn :: "pairInterval list \<Rightarrow> nat \<Rightarrow> nat \<Rightarrow> pairLinkKind \<Rightarrow> pairLinkKind" where
  "drawn ps i j old = (case filter (\<lambda>p. Level p = j \<and> covers p i) ps of [] \<Rightarrow> old | p # _ \<Rightarrow> link_at p i)"

lemma drawn_cell:
  assumes "\<forall>p\<in>set ps. Start p < End p"
    and "\<forall>p\<in>set ps. \<forall>q\<in>set ps. p \<noteq> q \<and> Level p = Level q \<longrightarrow> End p < Start q \<or> End q < Start p"
  shows "drawn ps i j pairLinkNone =
    (if \<exists>p\<in>set ps. Level p = j \<and> (i = Start p \<or> i = End p) then pairLinkDot
     else if \<exists>p\<in>set ps. Level p = j \<and> Start p < i \<and> i < End p then pairLinkPipe else pairLinkNone)"
proof -
  have ends: "covers p i" if "p \<in> set ps" "i = Start p \<or> i = End p \<or> Start p < i \<and> i < End p" for p
    using that assms(1) by (auto simp: covers_def intro: less_imp_le)
  show ?thesis
  proof (cases "filter (\<lambda>p. Level p = j \<and> covers p i) ps")
    case Nil
    then have "\<not> covers p i" if "p \<in> set ps" "Level p = j" for p using that by (simp add: filter_empty_conv)
    then show ?thesis using Nil ends by (auto simp: drawn_def)
  next
    case (Cons p qs)
    then have "p \<in> set (filter (\<lambda>p. Level p = j \<and> covers p i) ps)" by (simp only: list.set_intros)
    then have p: "p \<in> set ps" "Level p = j" "covers p i" by simp_all
    have only: "q = p" if "q \<in> set ps" "Level q = j" "covers q i" for q
    proof (rule ccontr)
      assume "q \<noteq> p"
      then have "End q < Start p \<or> End p < Start q" using assms(2) p(1,2) that(1,2) by blast
      then show False using p(3) that(3) by (auto simp: covers_def)
    qed
    show ?thesis
    proof (cases "i = Start p \<or> i = End p")
      case True
      then show ?thesis using Cons p by (auto simp: drawn_def link_at_def)
    next
      case False
      then have "\<not> (\<exists>q\<in>set ps. Level q = j \<and> (i = Start q \<or> i = End q))" using only ends by blast
      moreover have "Start p < i \<and> i < End p" using False p(3) by (simp add: covers_def)
      ultimately show ?thesis using Cons p False by (auto simp: drawn_def link_at_def)
    qed
  qed
qed

lemma draw_pairs_spec:
  assumes "grid start end n as" and "start < end" and "\<forall>p\<in>set ps. Level p < n"
    and "sorted_wrt (\<lambda>p q. Start p < Start q) ps"
    and "\<forall>p\<in>set ps. \<forall>q\<in>set ps. p \<noteq> q \<and> Level p = Level q \<longrightarrow> End p < Start q \<or> End q < Start p"
  shows "\<exists>as'. draw_pairs start end ps as = Some as' \<and> grid start end n as' \<and>
    (\<forall>i j. start \<le> i \<and> i < end \<and> j < n \<longrightarrow> cell start as' i j = drawn ps i j (cell start as i j))"
  using assms
proof (induction ps arbitrary: as)
  case Nil
  then show ?case by (simp add: drawn_def)
next
  case (Cons p ps)
  note IH = Cons.IH [OF _ Cons.prems(2)]
  have ps: "\<forall>q\<in>set ps. Start p < Start q" "\<forall>p\<in>set ps. Level p < n" "sorted_wrt (\<lambda>p q. Start p < Start q) ps"
    "\<forall>p\<in>set ps. \<forall>q\<in>set ps. p \<noteq> q \<and> Level p = Level q \<longrightarrow> End p < Start q \<or> End q < Start p"
    using Cons.prems(3-5) by auto
  consider "end \<le> Start p" | "Start p < end" "End p < start" | "Start p < end" "start \<le> End p" by linarith
  then show ?case
  proof cases
    case 1
    then have "filter (\<lambda>q. Level q = j \<and> covers q i) (p # ps) = []" if "i < end" for i j
      using that ps(1) by (auto simp: filter_empty_conv covers_def)
    then have "drawn (p # ps) i j x = x" if "i < end" for i j x using that unfolding drawn_def by (metis list.simps(4))
    then show ?thesis using 1 Cons.prems(1) by simp
  next
    case 2
    then have "drawn (p # ps) i j x = drawn ps i j x" if "start \<le> i" for i j x
      using that by (auto simp: drawn_def covers_def)
    then show ?thesis using 2 IH [OF Cons.prems(1) ps(2-4)] by simp
  next
    case 3
    have "Level p < n" "start \<le> max start (Start p)" "min (end - 1) (End p) < end" using Cons.prems(2,3) by auto
    from mark_lines_spec [OF Cons.prems(1) this] obtain as1 where
      as1: "mark_lines start p (max start (Start p)) (min (end - 1) (End p)) as = Some as1" "grid start end n as1"
      "\<forall>i j. start \<le> i \<and> i < end \<and> j < n \<longrightarrow> cell start as1 i j =
        (if max start (Start p) \<le> i \<and> i \<le> min (end - 1) (End p) \<and> j = Level p then link_at p i else cell start as i j)"
      by (elim exE conjE) (rule that)
    have alone: "filter (\<lambda>q. Level q = Level p \<and> covers q i) ps = []" if "covers p i" for i
      using that Cons.prems(4,5) by (fastforce simp: filter_empty_conv covers_def)
    have "drawn ps i j (cell start as1 i j) = drawn (p # ps) i j (cell start as i j)"
      if "start \<le> i" "i < end" "j < n" for i j
      using as1(3) that alone [of i] by (auto simp: drawn_def covers_def)
    then show ?thesis using 3 as1(1) IH [OF as1(2) ps(2-4)] by simp
  qed
qed

text \<open>
  C11: drawing stays within the slices, and draws what it should.  For the pairs of any list of records and
  any window, no index is out of range; the result has one line per record of the window with one
  cell per column, and a cell holds a dot where a pair of its column starts or ends, a bar where one
  passes, and nothing elsewhere.
\<close>

theorem pairs_drawn:
  assumes "buildSessionPairs records = (pairs, n)"
  shows "\<exists>as. buildVisiblePairAnnotations start end pairs n = Some as \<and> grid start end n as \<and>
    (\<forall>i j. start \<le> i \<and> i < end \<and> j < n \<longrightarrow> as ! (i - start) ! j =
       (if \<exists>p\<in>set pairs. Level p = j \<and> (i = Start p \<or> i = End p) then pairLinkDot
        else if \<exists>p\<in>set pairs. Level p = j \<and> Start p < i \<and> i < End p then pairLinkPipe else pairLinkNone))"
proof -
  let ?empty = "replicate (end - start) (replicate n pairLinkNone)"
  obtain ends where n: "n = length ends" and pl: "placed (set pairs) ends" using session_pairs_placed(1) [OF assms] by auto
  note sorted = session_pairs_placed(2,3) [OF assms]
  have apart: "\<forall>p\<in>set pairs. \<forall>q\<in>set pairs. p \<noteq> q \<and> Level p = Level q \<longrightarrow> End p < Start q \<or> End q < Start p"
    by (intro ballI impI; elim conjE; rule placedD(3) [OF pl])
  have level: "\<forall>p\<in>set pairs. Level p < n" using placedD(2) [OF pl] n by blast
  have zero: "n = 0 \<longleftrightarrow> pairs = []" using placedD(1) [OF pl, of 0] n level by (cases pairs) auto
  show ?thesis
  proof (cases "pairs = [] \<or> end \<le> start")
    case True
    then show ?thesis
      using zero by (auto simp: buildVisiblePairAnnotations_def grid_def)
  next
    case False
    have "grid start end n ?empty" by (simp add: grid_def)
    from draw_pairs_spec [OF this _ level sorted(1) apart] False obtain as where
      as: "draw_pairs start end pairs ?empty = Some as" "grid start end n as"
        "\<And>i j. start \<le> i \<Longrightarrow> i < end \<Longrightarrow> j < n \<Longrightarrow> as ! (i - start) ! j = drawn pairs i j pairLinkNone"
      by (auto simp: cell_def)
    have "drawn pairs i j pairLinkNone =
       (if \<exists>p\<in>set pairs. Level p = j \<and> (i = Start p \<or> i = End p) then pairLinkDot
        else if \<exists>p\<in>set pairs. Level p = j \<and> Start p < i \<and> i < End p then pairLinkPipe else pairLinkNone)" for i j
      by (rule drawn_cell [OF sorted(2) apart])
    then show ?thesis using False zero as by (simp add: buildVisiblePairAnnotations_def)
  qed
qed

theorem pairs_drawn_witness:
  "\<exists>as. buildVisiblePairAnnotations 1 4 [\<lparr>Start = 0, End = 4, Level = 0\<rparr>, \<lparr>Start = 1, End = 3, Level = 1\<rparr>] 2 = Some as \<and>
    as ! 0 ! 1 = pairLinkDot \<and> as ! 1 ! 1 = pairLinkPipe"
proof -
  from pairs_drawn [OF demo_exchange_pairs, of 1 4] obtain as where
    as: "buildVisiblePairAnnotations 1 4 [\<lparr>Start = 0, End = 4, Level = 0\<rparr>, \<lparr>Start = 1, End = 3, Level = 1\<rparr>] 2 = Some as"
    "\<forall>i j. 1 \<le> i \<and> i < 4 \<and> j < 2 \<longrightarrow> as ! (i - 1) ! j =
      (if \<exists>p\<in>set [\<lparr>Start = 0, End = 4, Level = 0\<rparr>, \<lparr>Start = 1, End = 3, Level = 1\<rparr>]. Level p = j \<and> (i = Start p \<or> i = End p)
       then pairLinkDot
       else if \<exists>p\<in>set [\<lparr>Start = 0, End = 4, Level = 0\<rparr>, \<lparr>Start = 1, End = 3, Level = 1\<rparr>]. Level p = j \<and> Start p < i \<and> i < End p
       then pairLinkPipe else pairLinkNone)"
    by (elim exE conjE) (rule that)
  show ?thesis using as(1) spec [OF spec [OF as(2)], of 1 1] spec [OF spec [OF as(2)], of 2 1] by auto
qed

end
