(* ===== verification/Spec2Isabelle.thy ===== *)
theory Spec2Isabelle
  imports Fileop_Policy Execve_Properties Stdio_Properties Tcpconn_Properties Postgres_Messages Boringssl
    Tracing_Properties Tls_Store_Properties Tls_Delivery Exporter Session_Pairs
begin

text \<open>
  A verification development of WatchU, an agent that observes the processes of a machine through
  BPF programs.

  \<^bold>\<open>The program.\<close>  Seven BPF objects run in the kernel.  The file-operation probe
  (\<^verbatim>\<open>fileop/fileop.bpf.c\<close>) follows descriptors from open to close and reports opens, writes, mappings,
  deletions, renames and links.  The exec probe (\<^verbatim>\<open>execve/exec.bpf.c\<close>) reports program starts with
  their arguments, and loads of \<^verbatim>\<open>libssl\<close>, to which the agent then attaches the TLS probes
  (\<^verbatim>\<open>tls/ssl.bpf.c\<close>, \<^verbatim>\<open>tls/boring.bpf.c\<close>, \<^verbatim>\<open>tls/ssl_common.h\<close>), which ship the plaintext of TLS calls.  The
  stdio probe (\<^verbatim>\<open>stdio/stdio.bpf.c\<close>) captures JSON messages on standard input and output, the TCP
  probe (\<^verbatim>\<open>tcpconn/tcpconn.bpf.c\<close>) established connections, and the Postgres probe
  (\<^verbatim>\<open>postgres/pg.bpf.c\<close>) the messages of Postgres clients.  Each object has its own maps and ring buffers;
  most programs come in pairs, an entry that stores the arguments of a call under the thread's id and
  an exit that consumes them.  All objects are written with the macros of \<^verbatim>\<open>headers/\<close>.

  The agent in user space, written in Go, reads the ring buffers.  It selects file operations by a policy
  (\<^verbatim>\<open>fileop/policy.go\<close>), reassembles the plaintext of TLS calls into HTTP/1, HTTP/2 and Postgres messages
  (\<^verbatim>\<open>tls/protocol.go\<close>, \<^verbatim>\<open>tls/http1.go\<close>, \<^verbatim>\<open>tls/http2.go\<close>, \<^verbatim>\<open>tls/postgres.go\<close>, \<^verbatim>\<open>tls/compress.go\<close>), joins a response
  to its request by a session key, sends the records in batches to a sink (\<^verbatim>\<open>export/exporter.go\<close>), and
  can show them in a terminal (\<^verbatim>\<open>tui/\<close>).

  \<^bold>\<open>The model.\<close>  A structure is a record, an integer a word of its width, a buffer a list of bytes, a
  program a function from the environment of its call (what the kernel's helpers answer), its context
  and the state of the object's maps and rings to the next state; \<open>None\<close> is an access outside of a
  buffer.  On the Go side \<open>None\<close> is a panic, \<^verbatim>\<open>int\<close> and lengths are unbounded except where a sum can leave
  64 bits, and a loop that may run forever is a partial function whose value \<open>None\<close> means that it does not
  return.  Uninitialised memory is a parameter: the content of a reserved record and of a local array
  is arbitrary.

  \<^item> \<^verbatim>\<open>Bpf_Prelude\<close>: words, bytes, C strings, the C \<^verbatim>\<open>for\<close> loop with its rule of invariants.
  \<^item> \<^verbatim>\<open>Bpf_Maps\<close>: hash and LRU maps as association lists of bounded length, the per-CPU array, the ring
    buffer with its open reservations and its log.  The locale \<open>bpf_map\<close> states the laws, both flavours
    interpret it.
  \<^item> \<^verbatim>\<open>Bpf_Helpers\<close>: the environment, the contract of the read helpers (locale \<open>probe_memory\<close>, interpreted
    on a byte-addressed memory), the pairing of entry and exit programs (locales \<open>lossy_tracker\<close> and
    \<open>call_tracker\<close>, interpreted for every table of calls in flight), and what every probe promises
    (locale \<open>safe_probe\<close>, interpreted for the seven probes and for the whole system).
  \<^item> \<^verbatim>\<open>Bpf_Macros\<close> (\<^verbatim>\<open>bpf_helpers.h\<close>), \<^verbatim>\<open>Endian\<close> (\<^verbatim>\<open>bpf_endian.h\<close>), \<^verbatim>\<open>Core_Read\<close> (\<^verbatim>\<open>bpf_core_read.h\<close>), \<^verbatim>\<open>Tracing\<close>
    and \<^verbatim>\<open>Tracing_Properties\<close> (\<^verbatim>\<open>bpf_tracing.h\<close>, \<^verbatim>\<open>common.h\<close>): the macros, with what they compute.  The loop
    macros are the counted loop of the prelude, the relocated reads follow pointers, bitfields can be
    written and read back, byte order conversions produce network order, and the register accessors
    on the two build targets are the ones the TLS probes are modelled with.
  \<^item> \<^verbatim>\<open>Fileop_Paths\<close>, \<^verbatim>\<open>Fileop\<close>, \<^verbatim>\<open>Fileop_Invariant\<close>, \<^verbatim>\<open>Fileop_Sessions\<close>, \<^verbatim>\<open>Fileop_Properties\<close>: path functions,
    programs, invariant, runs of open, write and close, and the properties of the file-operation
    probe: safety, tracking of opens, summed writes at close, mappings reported once, filters.
  \<^item> \<^verbatim>\<open>Execve\<close>, \<^verbatim>\<open>Execve_Properties\<close>: the exec probe, and the parser of its record
    (\<^verbatim>\<open>parseExecRecord\<close> of \<^verbatim>\<open>execve/probe.go\<close>): what the parser recovers is what the task executed, and a
    load of \<^verbatim>\<open>libssl\<close> is reported once.
  \<^item> \<^verbatim>\<open>Stdio\<close>, \<^verbatim>\<open>Stdio_Properties\<close>; \<^verbatim>\<open>Tcpconn\<close>, \<^verbatim>\<open>Tcpconn_Properties\<close>: captured reads and writes, and
    connections attributed to the process that opened them.
  \<^item> \<^verbatim>\<open>Postgres\<close>, \<^verbatim>\<open>Postgres_Messages\<close>: the message loop decodes a buffer of messages exactly, and where it
    does not: empty and oversized messages.
  \<^item> \<^verbatim>\<open>Ssl_Common\<close>, \<^verbatim>\<open>Openssl\<close>, \<^verbatim>\<open>Boringssl\<close>: a TLS call's plaintext is shipped in order from the buffer its
    entry saw; the BoringSSL probe refines the OpenSSL probe.
  \<^item> \<^verbatim>\<open>Go_Prelude\<close>: slices, byte strings, numbers and channels of Go as the agent uses them.
  \<^item> \<^verbatim>\<open>Fileop_Policy\<close>: decoding of the kernel's file events and their selection.  Every event of the probe
    decodes, and it is exported if and only if the policy lists it.
  \<^item> \<^verbatim>\<open>Tls_Content\<close>: masking of credentials in headers, with the one that escapes it, and the undoing of
    content codings.
  \<^item> \<^verbatim>\<open>Tls_Record\<close>, \<^verbatim>\<open>Tls_Http1\<close>, \<^verbatim>\<open>Tls_Http2\<close>, \<^verbatim>\<open>Tls_Protocol\<close>: the buffer of one direction of a connection, the
    three parsers and the detection of the protocol: which bytes are consumed, how a stream of frames is
    reassembled, and the inputs on which parsing fails or panics.
  \<^item> \<^verbatim>\<open>Tls_Store\<close>: the store of all connections with its sessions, its cleanup and the request and response
    loops.  \<^verbatim>\<open>Tls_Store_Properties\<close>: the plaintext the kernel program ships is what the store buffers, in
    order; the sessions of a connection are deleted with it.  \<^verbatim>\<open>Tls_Loops\<close>: the contracts of the parsers
    (locales \<open>protocol_parser\<close> and \<open>forward_parser\<close>, interpreted for each), termination of the request loop, and
    the requests on which it does not end or loses data.  \<^verbatim>\<open>Tls_Delivery\<close>: buffered Postgres statements and
    chunked responses are delivered, and a Postgres message with an impossible length blocks its connection.
  \<^item> \<^verbatim>\<open>Exporter\<close>: what was sent reaches the sink in batches; a closed channel is drained before the loop ends,
    an ended context leaves behind what is queued.
  \<^item> \<^verbatim>\<open>Session_Pairs\<close>: the pairs the terminal interface draws, in as few columns as possible and within bounds.
  \<^item> this theory: the probes side by side.

  \<^bold>\<open>Bounds.\<close>  The loops of the programs have constant bounds, which are the numbers of the sources (64
  rounds, 256 and 36 bytes), so no fuel is needed.  The iterator loops of the headers are partial
  functions; that they end is part of their lemma.  The request and response loops of the store are partial
  functions as well; \<open>request_parsing_ends\<close> states when the request loop returns, and
  \<open>content_length_overflow_hangs\<close> when it does not.

  \<^bold>\<open>Assumptions.\<close>  The helpers behave as \<^verbatim>\<open>headers/bpf_helper_defs.h\<close> documents (\<open>env_ok\<close> and its variants for
  each probe).  Which entry an LRU map evicts and whether a reservation succeeds is arbitrary.  A
  program runs without interruption by another program on the same map.  The HTTP head reader, the HTTP/2
  framer, the HPACK decoder, the decompressors and the keyed hash are parameters of the store; the
  properties name what they need of them.  The locks of the store make its operations atomic, and what its
  caches expire is removed between operations.

  \<^bold>\<open>Not modelled.\<close>  Of the agent: loading and attaching programs, the reader loops of the stdio, TCP and Postgres
  probes, the sinks, the receiver of agent events and the layout of the terminal interface, which are
  input and output around third-party packages.  The declarations in
  \<^verbatim>\<open>bpf_helper_defs.h\<close> of helpers that no program calls, and the user-space library's header \<^verbatim>\<open>bpf.h\<close>: they
  have no body.  Of \<^verbatim>\<open>bpf_helpers.h\<close> the attributes, barriers and the tail call in inline assembly, and of
  \<^verbatim>\<open>bpf_core_read.h\<close> the type and enumerator relocations, which are compiler built-ins.  Of \<^verbatim>\<open>common.h\<close>
  the enumerations and packet structures that no program uses.  The loaders bpf2go generates.
\<close>

section \<open>The probes side by side\<close>

text \<open>
  The agent loads all probes at once (\<^verbatim>\<open>cmd/main.go\<close>); each object file has its own maps and its own
  ring buffers.  An event of the machine runs one program of one probe.
\<close>

record system =
  sys_fileop :: fileop_state
  sys_exec :: exec_state
  sys_stdio :: stdio_state
  sys_tcp :: tcp_state
  sys_pg :: pg_state
  sys_openssl :: openssl_state
  sys_boring :: boring_state

datatype system_event =
    FileopEvent fileop_call fileop_env
  | ExecEvent exec_call exec_env
  | StdioEvent stdio_call stdio_env
  | TcpEvent tcp_call tcp_env u64
  | PgEvent pg_call pg_env
  | OpensslEvent ssl_call ssl_env pt_regs
  | BoringEvent boring_call ssl_env pt_regs

primrec system_step :: "system_event \<Rightarrow> system \<Rightarrow> system option" where
  "system_step (FileopEvent c env) s = map_option (\<lambda>x. s\<lparr>sys_fileop := x\<rparr>) (fileop_prog c env (sys_fileop s))"
| "system_step (ExecEvent c env) s = map_option (\<lambda>x. s\<lparr>sys_exec := x\<rparr>) (exec_prog c env (sys_exec s))"
| "system_step (StdioEvent c env) s = map_option (\<lambda>x. s\<lparr>sys_stdio := x\<rparr>) (stdio_prog c env (sys_stdio s))"
| "system_step (TcpEvent c env sk) s = Some (s\<lparr>sys_tcp := tcp_prog c env sk (sys_tcp s)\<rparr>)"
| "system_step (PgEvent c env) s = map_option (\<lambda>x. s\<lparr>sys_pg := x\<rparr>) (pg_prog c env (sys_pg s))"
| "system_step (OpensslEvent c env ctx) s =
     map_option (\<lambda>x. s\<lparr>sys_openssl := x\<rparr>) (ssl_prog c env ctx (sys_openssl s))"
| "system_step (BoringEvent c env ctx) s =
     map_option (\<lambda>x. s\<lparr>sys_boring := x\<rparr>) (boring_prog c env ctx (sys_boring s))"

text \<open>The helpers behave as documented in the event's environment.\<close>

primrec event_valid :: "system_event \<Rightarrow> bool" where
  "event_valid (FileopEvent c env) \<longleftrightarrow> (\<exists>byte. env_ok byte env)"
| "event_valid (ExecEvent c env) \<longleftrightarrow> (\<exists>byte. exec_env_ok byte env)"
| "event_valid (StdioEvent c env) \<longleftrightarrow> (\<exists>byte. stdio_env_ok byte env)"
| "event_valid (TcpEvent c env sk) \<longleftrightarrow> (\<exists>byte. tcp_env_ok byte env)"
| "event_valid (PgEvent c env) \<longleftrightarrow> (\<exists>byte. pg_env_ok byte env)"
| "event_valid (OpensslEvent c env ctx) \<longleftrightarrow> (\<exists>byte. ssl_env_ok byte env)"
| "event_valid (BoringEvent c env ctx) \<longleftrightarrow> (\<exists>byte. ssl_env_ok byte env)"

definition system_inv :: "system \<Rightarrow> bool" where
  "system_inv s \<longleftrightarrow> fileop_inv (sys_fileop s) \<and> exec_inv (sys_exec s) \<and> stdio_inv (sys_stdio s) \<and>
     tcp_inv (sys_tcp s) \<and> pg_inv (sys_pg s) \<and> openssl_inv (sys_openssl s) \<and> boring_inv (sys_boring s)"

lemma system_step_safe:
  assumes "event_valid e" and "system_inv s"
  shows "\<exists>s'. system_step e s = Some s' \<and> system_inv s'"
proof (cases e)
  case (FileopEvent c env)
  with assms file_probe.handled [of "(c, env)" "sys_fileop s"] show ?thesis by (auto simp: system_inv_def)
next
  case (ExecEvent c env)
  with assms exec_probe.handled [of "(c, env)" "sys_exec s"] show ?thesis by (auto simp: system_inv_def)
next
  case (StdioEvent c env)
  with assms stdio_probe.handled [of "(c, env)" "sys_stdio s"] show ?thesis by (auto simp: system_inv_def)
next
  case (TcpEvent c env sk)
  with assms tcp_probe.handled [of "(c, env, sk)" "sys_tcp s"] show ?thesis by (auto simp: system_inv_def)
next
  case (PgEvent c env)
  with assms pg_probe.handled [of "(c, env)" "sys_pg s"] show ?thesis by (auto simp: system_inv_def)
next
  case (OpensslEvent c env ctx)
  with assms openssl_probe.handled [of "(c, env, ctx)" "sys_openssl s"] show ?thesis by (auto simp: system_inv_def)
next
  case (BoringEvent c env ctx)
  with assms boring_probe.handled [of "(c, env, ctx)" "sys_boring s"] show ?thesis by (auto simp: system_inv_def)
qed

interpretation whole_system: safe_probe system_step event_valid system_inv
  by unfold_locales (rule system_step_safe)

text \<open>The events of one probe, in order.\<close>

fun fileop_event_of :: "system_event \<Rightarrow> (fileop_call \<times> fileop_env) option" where
  "fileop_event_of (FileopEvent c env) = Some (c, env)"
| "fileop_event_of _ = None"

fun exec_event_of :: "system_event \<Rightarrow> (exec_call \<times> exec_env) option" where
  "exec_event_of (ExecEvent c env) = Some (c, env)"
| "exec_event_of _ = None"

fun stdio_event_of :: "system_event \<Rightarrow> (stdio_call \<times> stdio_env) option" where
  "stdio_event_of (StdioEvent c env) = Some (c, env)"
| "stdio_event_of _ = None"

fun tcp_event_of :: "system_event \<Rightarrow> (tcp_call \<times> tcp_env \<times> u64) option" where
  "tcp_event_of (TcpEvent c env sk) = Some (c, env, sk)"
| "tcp_event_of _ = None"

fun pg_event_of :: "system_event \<Rightarrow> (pg_call \<times> pg_env) option" where
  "pg_event_of (PgEvent c env) = Some (c, env)"
| "pg_event_of _ = None"

fun openssl_event_of :: "system_event \<Rightarrow> (ssl_call \<times> ssl_env \<times> pt_regs) option" where
  "openssl_event_of (OpensslEvent c env ctx) = Some (c, env, ctx)"
| "openssl_event_of _ = None"

fun boring_event_of :: "system_event \<Rightarrow> (boring_call \<times> ssl_env \<times> pt_regs) option" where
  "boring_event_of (BoringEvent c env ctx) = Some (c, env, ctx)"
| "boring_event_of _ = None"

text \<open>Each probe goes through the run of its own events.\<close>

lemma system_run_parts:
  assumes "run_all system_step evs s = Some s'"
  shows "run_all (\<lambda>(c, env). fileop_prog c env) (List.map_filter fileop_event_of evs) (sys_fileop s) = Some (sys_fileop s')"
    and "run_all (\<lambda>(c, env). exec_prog c env) (List.map_filter exec_event_of evs) (sys_exec s) = Some (sys_exec s')"
    and "run_all (\<lambda>(c, env). stdio_prog c env) (List.map_filter stdio_event_of evs) (sys_stdio s) = Some (sys_stdio s')"
    and "run_all (\<lambda>(c, env, sk) st. Some (tcp_prog c env sk st)) (List.map_filter tcp_event_of evs) (sys_tcp s) = Some (sys_tcp s')"
    and "run_all (\<lambda>(c, env). pg_prog c env) (List.map_filter pg_event_of evs) (sys_pg s) = Some (sys_pg s')"
    and "run_all (\<lambda>(c, env, ctx). ssl_prog c env ctx) (List.map_filter openssl_event_of evs) (sys_openssl s) = Some (sys_openssl s')"
    and "run_all (\<lambda>(c, env, ctx). boring_prog c env ctx) (List.map_filter boring_event_of evs) (sys_boring s) = Some (sys_boring s')"
  by (rule run_part [OF _ assms]; case_tac c; auto)+

text \<open>What every ring buffer shows of a healthy system: no reservation is open, and the records that hold data say how much.\<close>

definition rings_ok :: "system \<Rightarrow> bool" where
  "rings_ok s \<longleftrightarrow>
     rb_pending (events (sys_fileop s)) = 0 \<and> rb_pending (proc_events (sys_exec s)) = 0 \<and>
     rb_pending (dynlib_events (sys_exec s)) = 0 \<and> rb_pending (stdio_events (sys_stdio s)) = 0 \<and>
     rb_pending (tcp_events (sys_tcp s)) = 0 \<and> rb_pending (pg_events (sys_pg s)) = 0 \<and>
     rb_pending (ssl_events (sys_openssl s)) = 0 \<and> rb_pending (boring_events (sys_boring s)) = 0 \<and>
     (\<forall>e \<in> set (rb_log (pg_events (sys_pg s))). unat (pe_data_len e) \<le> length (pe_data e)) \<and>
     (\<forall>e \<in> set (rb_log (ssl_events (sys_openssl s))) \<union> set (rb_log (boring_events (sys_boring s))).
        unat (le_data_len e) \<le> length (le_data e))"

definition system_fresh :: "(nat \<Rightarrow> path_value list) \<Rightarrow> (nat \<Rightarrow> exec_value list) \<Rightarrow> system" where
  "system_fresh h h' =
     \<lparr>sys_fileop = \<lparr>inflight_open = [], inflight_write = [], path_heap = h, fd_paths = [],
        events = \<lparr>rb_pending = 0, rb_log = []\<rparr>\<rparr>,
      sys_exec = \<lparr>ex_inflight_open = [], exec_heap = h', inflight_mmap = [],
        proc_events = \<lparr>rb_pending = 0, rb_log = []\<rparr>, dynlib_events = \<lparr>rb_pending = 0, rb_log = []\<rparr>\<rparr>,
      sys_stdio = \<lparr>stdio_inflight = [], stdio_events = \<lparr>rb_pending = 0, rb_log = []\<rparr>\<rparr>,
      sys_tcp = \<lparr>inflight_connect = [], tcp_events = \<lparr>rb_pending = 0, rb_log = []\<rparr>\<rparr>,
      sys_pg = \<lparr>pg_inflight = [], pg_events = \<lparr>rb_pending = 0, rb_log = []\<rparr>\<rparr>,
      sys_openssl = \<lparr>start_map = [], start_ex_map = [], ssl_events = \<lparr>rb_pending = 0, rb_log = []\<rparr>\<rparr>,
      sys_boring = \<lparr>boring_start_map = [], boring_events = \<lparr>rb_pending = 0, rb_log = []\<rparr>\<rparr>\<rparr>"

lemma system_fresh_inv:
  assumes "heap_ok h" and "exec_heap_ok h'"
  shows "system_inv (system_fresh h h')"
  using fileop_reachable_inv [OF fileop_reachable.start [OF assms(1)]]
    exec_reachable_inv [OF exec_start [OF assms(2)]] stdio_reachable_inv [OF stdio_start]
    tcp_reachable_inv [OF tcp_start] pg_reachable_inv [OF pg_start] openssl_reachable_inv [OF openssl_start]
  by (simp add: system_inv_def system_fresh_def boring_inv_def as_openssl_def)

lemma system_inv_rings: "system_inv s \<Longrightarrow> rings_ok s"
  by (auto simp: system_inv_def rings_ok_def fileop_inv_def exec_inv_def stdio_inv_def tcp_inv_def pg_inv_def
      openssl_inv_def boring_inv_def as_openssl_def ssl_ring_ok_def ssl_event_ok_def pg_event_ok_def)

text \<open>
  C1: the probes run side by side without disturbing each other.  From the moment they are loaded,
  with scratch arrays of any content, any interleaving of their programs, in environments whose
  helpers behave as documented, runs to its end without an access outside of a buffer; every probe
  is in the state it would be in had only its own programs run; no ring buffer has an open
  reservation, and no Postgres or TLS record claims more data than it holds.
\<close>

theorem probes_side_by_side:
  assumes "\<forall>e \<in> set evs. event_valid e" and "heap_ok h" and "exec_heap_ok h'"
  shows "\<exists>s. run_all system_step evs (system_fresh h h') = Some s \<and> rings_ok s \<and>
    run_all (\<lambda>(c, env). fileop_prog c env) (List.map_filter fileop_event_of evs) (sys_fileop (system_fresh h h'))
      = Some (sys_fileop s) \<and>
    run_all (\<lambda>(c, env). exec_prog c env) (List.map_filter exec_event_of evs) (sys_exec (system_fresh h h'))
      = Some (sys_exec s) \<and>
    run_all (\<lambda>(c, env). stdio_prog c env) (List.map_filter stdio_event_of evs) (sys_stdio (system_fresh h h'))
      = Some (sys_stdio s) \<and>
    run_all (\<lambda>(c, env, sk) st. Some (tcp_prog c env sk st)) (List.map_filter tcp_event_of evs) (sys_tcp (system_fresh h h'))
      = Some (sys_tcp s) \<and>
    run_all (\<lambda>(c, env). pg_prog c env) (List.map_filter pg_event_of evs) (sys_pg (system_fresh h h'))
      = Some (sys_pg s) \<and>
    run_all (\<lambda>(c, env, ctx). ssl_prog c env ctx) (List.map_filter openssl_event_of evs) (sys_openssl (system_fresh h h'))
      = Some (sys_openssl s) \<and>
    run_all (\<lambda>(c, env, ctx). boring_prog c env ctx) (List.map_filter boring_event_of evs) (sys_boring (system_fresh h h'))
      = Some (sys_boring s)"
proof -
  obtain s where s: "run_all system_step evs (system_fresh h h') = Some s" "system_inv s"
    using whole_system.run_safe [OF assms(1) system_fresh_inv [OF assms(2,3)]] by blast
  with system_inv_rings [OF s(2)] system_run_parts [OF s(1)] show ?thesis by blast
qed

theorem probes_side_by_side_witness:
  "\<exists>s. run_all system_step
      [FileopEvent (EnterOpenat demo_openat) (demo_file_env ''/etc/hosts''), TcpEvent TcpV4Connect (demo_tcp_env 7) 0x9000,
       OpensslEvent SslReadEntry (ssl_demo_env [1]) (Arm64_Regs \<lparr>arm_regs = of_nat, arm_sp = 0, arm_pc = 0, arm_pstate = 0\<rparr>)]
      (system_fresh (path_heap demo_file_state) (exec_heap demo_exec_state)) = Some s \<and> rings_ok s \<and>
    sys_tcp s = tcp_prog TcpV4Connect (demo_tcp_env 7) 0x9000 demo_tcp_state"
proof -
  let ?evs = "[FileopEvent (EnterOpenat demo_openat) (demo_file_env ''/etc/hosts''), TcpEvent TcpV4Connect (demo_tcp_env 7) 0x9000,
      OpensslEvent SslReadEntry (ssl_demo_env [1]) (Arm64_Regs \<lparr>arm_regs = of_nat, arm_sp = 0, arm_pc = 0, arm_pstate = 0\<rparr>)]"
  have "\<forall>e \<in> set ?evs. event_valid e"
    using demo_file_env_ok demo_tcp_env_ok ssl_demo_env_ok by auto
  moreover have "heap_ok (path_heap demo_file_state)" "exec_heap_ok (exec_heap demo_exec_state)"
    by (simp_all add: demo_file_state_def heap_ok_def fresh_value_def demo_exec_state_def exec_heap_ok_def
        exec_value_ok_def demo_exec_value_def)
  ultimately obtain s where "run_all system_step ?evs (system_fresh (path_heap demo_file_state) (exec_heap demo_exec_state)) = Some s"
      "rings_ok s"
      "run_all (\<lambda>(c, env, sk) st. Some (tcp_prog c env sk st)) (List.map_filter tcp_event_of ?evs)
         (sys_tcp (system_fresh (path_heap demo_file_state) (exec_heap demo_exec_state))) = Some (sys_tcp s)"
    using probes_side_by_side by blast
  then show ?thesis
    by (intro exI [of _ s]) (simp add: List.map_filter_simps system_fresh_def demo_tcp_state_def)
qed

end
